(* ===== verification/Gneiss_Prelude.thy ===== *)
theory Gneiss_Prelude
  imports Main "HOL-Library.Word" "HOL-Library.State_Monad"
begin

text \<open>
  Shared material of the development: the machine types of the C and C++ sources, the C
  integer conversions the code relies on, and a small weakest-precondition calculus over
  \<open>HOL-Library.State_Monad\<close>. Code that calls the operating system is a value of type
  \<open>('w, 'a) state\<close>: it runs in a world \<open>'w\<close> that the model never inspects and
  returns what the C function returns together with its out-parameters.
\<close>

unbundle bit_operations_syntax

subsection \<open>Machine types\<close>

type_synonym u8 = "8 word"
type_synonym u32 = "32 word"
type_synonym u64 = "64 word"

text \<open>Descriptors and C \<open>int\<close> values are \<open>int\<close>; a conversion that can lose bits is explicit.\<close>

type_synonym fd = int
type_synonym bytes = "u8 list"
type_synonym addr = u64

abbreviation null :: addr where
  "null \<equiv> 0"

text \<open>Conversion of a wider signed integer to a 32-bit C \<open>int\<close> (two's complement).\<close>

definition to_c_int :: "int \<Rightarrow> int" where
  "to_c_int x = signed_take_bit 31 x"

lemma to_c_int_range: "- (2 ^ 31) \<le> to_c_int x" "to_c_int x < 2 ^ 31"
  using signed_take_bit_int_greater_eq_minus_exp [of 31 x]
    signed_take_bit_int_less_exp [of 31 x]
  by (simp_all add: to_c_int_def)

lemma to_c_int_small: "0 \<le> x \<Longrightarrow> x < 2 ^ 31 \<Longrightarrow> to_c_int x = x"
  unfolding to_c_int_def by (subst signed_take_bit_int_eq_self_iff) simp

text \<open>The two readings of a 64-bit word agree below \<open>2 ^ 63\<close>.\<close>

lemma sint_eq_uint_u64: "uint (x :: u64) < 2 ^ 63 \<Longrightarrow> sint x = uint x"
proof -
  assume "uint x < 2 ^ 63"
  moreover have "- (2 ^ 63) \<le> uint x"
    by (rule order_trans [of _ 0]) simp_all
  ultimately show ?thesis
    by (simp add: sint_uint signed_take_bit_int_eq_self_iff)
qed

text \<open>A memory copy of a prefix: the first bytes of \<open>dst\<close> become those of \<open>src\<close>.\<close>

definition overlay :: "'a list \<Rightarrow> 'a list \<Rightarrow> 'a list" where
  "overlay src dst = take (length dst) src @ drop (length src) dst"

lemma length_overlay [simp]: "length (overlay src dst) = length dst"
  by (simp add: overlay_def)

lemma take_overlay: "n \<le> length src \<Longrightarrow> n \<le> length dst \<Longrightarrow> take n (overlay src dst) = take n src"
  by (simp add: overlay_def)

lemma drop_overlay: "length src \<le> n \<Longrightarrow> drop n (overlay src dst) = drop n dst"
  by (cases "length src \<le> length dst") (simp_all add: overlay_def)

lemma overlay_Nil [simp]: "overlay [] dst = dst" "overlay src [] = []"
  by (simp_all add: overlay_def)

lemma overlay_Cons [simp]: "overlay (x # src) (y # dst) = x # overlay src dst"
  by (simp add: overlay_def)

lemma nth_overlay:
  "i < length dst \<Longrightarrow> overlay src dst ! i = (if i < length src then src ! i else dst ! i)"
  by (auto simp: overlay_def nth_append)

lemma set_overlay: "set (overlay src dst) \<subseteq> set src \<union> set dst"
  by (auto simp: overlay_def dest: in_set_takeD in_set_dropD)

lemma overlay_append_same:
  "length a = length b \<Longrightarrow> overlay (a @ xs) (b @ ys) = a @ overlay xs ys"
  by (simp add: overlay_def)

lemma overlay_same_length: "length src = length dst \<Longrightarrow> overlay src dst = src"
  by (simp add: overlay_def)

subsection \<open>Running stateful code\<close>

abbreviation ret :: "'a \<Rightarrow> ('w, 'a) state" where
  "ret \<equiv> State_Monad.return"

abbreviation result :: "('w, 'a) state \<Rightarrow> 'w \<Rightarrow> 'a" where
  "result m w \<equiv> fst (run_state m w)"

abbreviation final :: "('w, 'a) state \<Rightarrow> 'w \<Rightarrow> 'w" where
  "final m w \<equiv> snd (run_state m w)"

definition whenM :: "bool \<Rightarrow> ('w, unit) state \<Rightarrow> ('w, unit) state" where
  "whenM b m = (if b then m else ret ())"

lemma run_state_whenM [simp]:
  "run_state (whenM b m) w = (if b then run_state m w else ((), w))"
  by (simp add: whenM_def)

text \<open>\<open>wp m Q w\<close>: running \<open>m\<close> in \<open>w\<close> gives a value and a world that satisfy \<open>Q\<close>.\<close>

definition wp :: "('w, 'a) state \<Rightarrow> ('a \<Rightarrow> 'w \<Rightarrow> bool) \<Rightarrow> 'w \<Rightarrow> bool" where
  "wp m Q w \<longleftrightarrow> (case run_state m w of (a, w') \<Rightarrow> Q a w')"

named_theorems wp_simps \<open>computation rules of the weakest precondition\<close>

lemma wp_return [wp_simps]: "wp (State_Monad.return a) Q = Q a"
  by (simp add: wp_def fun_eq_iff)

lemma wp_bind [wp_simps]: "wp (State_Monad.bind m f) Q = wp m (\<lambda>a. wp (f a) Q)"
  by (simp add: wp_def fun_eq_iff split: prod.splits)

lemma wp_whenM [wp_simps]: "wp (whenM b m) Q = (if b then wp m Q else Q ())"
  by (simp add: wp_def fun_eq_iff)

lemma wp_if [wp_simps]: "wp (if b then m else n) Q = (if b then wp m Q else wp n Q)"
  by simp

lemma wp_case_prod [wp_simps]:
  "wp (case_prod f p) Q = case_prod (\<lambda>a b. wp (f a b) Q) p"
  by (simp split: prod.splits)

lemma wp_case_option [wp_simps]:
  "wp (case_option m f x) Q = case_option (wp m Q) (\<lambda>a. wp (f a) Q) x"
  by (simp split: option.splits)

lemmas wp_apply_if [wp_simps] = if_distribR

lemma wp_mono: "wp m P w \<Longrightarrow> (\<And>a w'. P a w' \<Longrightarrow> Q a w') \<Longrightarrow> wp m Q w"
  by (auto simp: wp_def split: prod.splits)

lemma wp_conj: "wp m (\<lambda>a w'. P a w' \<and> Q a w') w \<longleftrightarrow> wp m P w \<and> wp m Q w"
  by (auto simp: wp_def split: prod.splits)

lemma wp_and: "wp m P w \<Longrightarrow> wp m Q w \<Longrightarrow> wp m (\<lambda>a w'. P a w' \<and> Q a w') w"
  by (simp add: wp_conj)

lemma wp_True [simp]: "wp m (\<lambda>_ _. True) w"
  by (simp add: wp_def split: prod.splits)

lemma wp_run: "wp m Q w \<longleftrightarrow> Q (result m w) (final m w)"
  by (simp add: wp_def split: prod.splits)

text \<open>\<open>keeps f m\<close>: code \<open>m\<close> leaves the part \<open>f\<close> of the world as it was.\<close>

definition keeps :: "('w \<Rightarrow> 'b) \<Rightarrow> ('w, 'a) state \<Rightarrow> bool" where
  "keeps f m \<longleftrightarrow> (\<forall>w. f (final m w) = f w)"

named_theorems keeps_intros \<open>code that leaves a part of the world unchanged\<close>

lemma keepsD: "keeps f m \<Longrightarrow> f (final m w) = f w"
  by (simp add: keeps_def)

lemma keeps_return [keeps_intros]: "keeps f (State_Monad.return a)"
  by (simp add: keeps_def)

lemma keeps_bind [keeps_intros]: "keeps f m \<Longrightarrow> (\<And>a. keeps f (g a)) \<Longrightarrow> keeps f (State_Monad.bind m g)"
  by (auto simp: keeps_def split: prod.splits) (metis snd_conv)

lemma keeps_whenM [keeps_intros]: "keeps f m \<Longrightarrow> keeps f (whenM b m)"
  by (simp add: keeps_def)

lemma keeps_if [keeps_intros]: "keeps f m \<Longrightarrow> keeps f n \<Longrightarrow> keeps f (if b then m else n)"
  by simp

lemma keeps_case_prod [keeps_intros]: "(\<And>a b. keeps f (g a b)) \<Longrightarrow> keeps f (case_prod g p)"
  by (simp split: prod.splits)

lemma keeps_case_option [keeps_intros]:
  "keeps f m \<Longrightarrow> (\<And>a. keeps f (g a)) \<Longrightarrow> keeps f (case_option m g x)"
  by (simp split: option.splits)

lemma keeps_wp: "keeps f m \<Longrightarrow> wp m (\<lambda>_ w'. f w' = f w) w"
  by (simp add: wp_run keeps_def)

lemma keeps_wpI: "keeps f m \<Longrightarrow> (\<And>a w'. f w' = f w \<Longrightarrow> Q a w') \<Longrightarrow> wp m Q w"
  by (erule keeps_wp [THEN wp_mono])

subsection \<open>Sessions driven by component code\<close>

text \<open>
  The Ada session bodies have \<open>Initialize\<close> and \<open>Finalize\<close>, which a component may call in any
  order; \<open>run_session\<close> runs such a sequence.
\<close>

datatype session_op = Op_Initialize | Op_Finalize

fun run_session :: "('c \<Rightarrow> ('w, 'c) state) \<Rightarrow> ('c \<Rightarrow> ('w, 'c) state) \<Rightarrow> session_op list \<Rightarrow> 'c \<Rightarrow> ('w, 'c) state" where
  "run_session ini fin [] c = ret c"
| "run_session ini fin (Op_Initialize # ops) c = do { c \<leftarrow> ini c; run_session ini fin ops c }"
| "run_session ini fin (Op_Finalize # ops) c = do { c \<leftarrow> fin c; run_session ini fin ops c }"

subsection \<open>Servers driven by component code\<close>

text \<open>Code that reads and updates a record of its own.\<close>

abbreviation update :: "('s \<Rightarrow> 's) \<Rightarrow> ('s, unit) state" where
  "update \<equiv> State_Monad.update"

abbreviation getS :: "('s, 's) state" where
  "getS \<equiv> State_Monad.get"

lemma wp_update [wp_simps]: "wp (State_Monad.update f) Q = (\<lambda>s. Q () (f s))"
  by (simp add: wp_def State_Monad.update_def State_Monad.get_def State_Monad.set_def fun_eq_iff)

lemma wp_get [wp_simps]: "wp State_Monad.get Q = (\<lambda>s. Q s s)"
  by (simp add: wp_def State_Monad.get_def fun_eq_iff)

text \<open>
  Code that may raise an exception: the rest runs only if the first part returns a value.
\<close>

datatype ada_error = Constraint_Error

definition thenE :: "'e + 'a \<Rightarrow> ('a \<Rightarrow> 'e + 'b) \<Rightarrow> 'e + 'b" where
  "thenE r f = (case r of Inl e \<Rightarrow> Inl e | Inr a \<Rightarrow> f a)"

definition bindE :: "('w, 'e + 'a) state \<Rightarrow> ('a \<Rightarrow> ('w, 'e + 'b) state) \<Rightarrow> ('w, 'e + 'b) state" where
  "bindE m f = do { r \<leftarrow> m; case r of Inl e \<Rightarrow> ret (Inl e) | Inr a \<Rightarrow> f a }"

lemma wp_bindE [wp_simps]: "wp (bindE m f) Q = wp m (\<lambda>r. case r of Inl e \<Rightarrow> Q (Inl e) | Inr a \<Rightarrow> wp (f a) Q)"
  by (auto simp: bindE_def wp_simps fun_eq_iff intro!: arg_cong [where f = "\<lambda>Q. wp m Q w" for w] split: sum.splits)

text \<open>
  The calls that a component's \<open>Dispatch\<close> procedure makes on its server sessions, which are
  numbered, and the subprograms of its \<open>Server_Instance\<close>.
\<close>

datatype dispatch_op = D_Initialize nat nat | D_Accept nat | D_Cleanup nat

record 'w server_impl =
  si_initialize :: "nat \<Rightarrow> ('w, unit) state"
  si_ready :: "nat \<Rightarrow> 'w \<Rightarrow> bool"
  si_finalize :: "nat \<Rightarrow> ('w, unit) state"
  si_write :: "nat \<Rightarrow> string \<Rightarrow> ('w, unit) state"
  si_receive :: "nat \<Rightarrow> bytes \<Rightarrow> ('w, unit) state"

end
