(* ===== verification/Linux_Posix.thy ===== *)
theory Linux_Posix
  imports Gneiss_Prelude
begin

text \<open>
  The operating-system interface of the Linux platform. The kernel and the C library are
  not part of the repository, so the calls that the C files under
  \<open>src/src/platform/linux\<close>, \<open>src/src/memory/client/linux\<close>, \<open>src/src/message/linux\<close> and
  \<open>src/src/timer/client/linux\<close> make are the fields of the record \<open>posix\<close>, a parameter of
  every function that uses them. Nothing is assumed of a \<open>posix\<close> value here; the locale
  \<open>linux_fds\<close> names the documented behaviour of descriptor-creating and
  descriptor-closing calls, and only the theorems about descriptor ownership use it.
\<close>

subsection \<open>Constants of the Linux headers that the code passes on\<close>

definition MSG_PEEK :: u32 where "MSG_PEEK = 0x02"
definition MSG_TRUNC :: u32 where "MSG_TRUNC = 0x20"
definition MSG_DONTWAIT :: u32 where "MSG_DONTWAIT = 0x40"
definition SOL_SOCKET :: int where "SOL_SOCKET = 1"
definition SCM_RIGHTS :: int where "SCM_RIGHTS = 1"
definition O_RDONLY :: u32 where "O_RDONLY = 0"
definition O_RDWR :: u32 where "O_RDWR = 2"
definition F_SEAL_SEAL :: u32 where "F_SEAL_SEAL = 1"
definition F_SEAL_SHRINK :: u32 where "F_SEAL_SHRINK = 2"
definition F_SEAL_GROW :: u32 where "F_SEAL_GROW = 4"
definition MFD_ALLOW_SEALING :: u32 where "MFD_ALLOW_SEALING = 2"
definition PROT_READ :: u32 where "PROT_READ = 1"
definition PROT_WRITE :: u32 where "PROT_WRITE = 2"
definition MAP_FAILED :: addr where "MAP_FAILED = - 1"
definition EPOLLIN :: u32 where "EPOLLIN = 0x001"
definition EPOLLRDHUP :: u32 where "EPOLLRDHUP = 0x2000"

lemmas posix_constants =
  MSG_PEEK_def MSG_TRUNC_def MSG_DONTWAIT_def SOL_SOCKET_def SCM_RIGHTS_def O_RDONLY_def
  O_RDWR_def F_SEAL_SEAL_def F_SEAL_SHRINK_def F_SEAL_GROW_def MFD_ALLOW_SEALING_def
  PROT_READ_def PROT_WRITE_def MAP_FAILED_def EPOLLIN_def EPOLLRDHUP_def

lemma seals_distinct [simp]:
  "F_SEAL_SEAL \<noteq> F_SEAL_SHRINK" "F_SEAL_SEAL \<noteq> F_SEAL_GROW" "F_SEAL_SHRINK \<noteq> F_SEAL_GROW"
  by (simp_all add: posix_constants)

subsection \<open>Structures passed to the kernel\<close>

text \<open>A control message; its data are whole C \<open>int\<close> values (descriptors), as \<open>SCM_RIGHTS\<close> has them.\<close>

record cmsghdr =
  cmsg_len :: nat
  cmsg_level :: int
  cmsg_type :: int
  cmsg_ints :: "int list"

text \<open>The 64-bit \<open>CMSG_*\<close> macros: a 16-byte header, data aligned to 8 bytes.\<close>

definition CMSG_ALIGN :: "nat \<Rightarrow> nat" where
  "CMSG_ALIGN n = (n + 7) div 8 * 8"

definition CMSG_LEN :: "nat \<Rightarrow> nat" where
  "CMSG_LEN n = 16 + n"

definition CMSG_SPACE :: "nat \<Rightarrow> nat" where
  "CMSG_SPACE n = 16 + CMSG_ALIGN n"

lemma CMSG_SPACE_bound: "16 + n \<le> CMSG_SPACE n"
  unfolding CMSG_SPACE_def CMSG_ALIGN_def by presburger

record send_hdr =
  snd_iov :: bytes
  snd_control :: "cmsghdr option"

definition rights_of :: "send_hdr \<Rightarrow> fd list" where
  "rights_of h = (case snd_control h of None \<Rightarrow> [] | Some c \<Rightarrow> cmsg_ints c)"

text \<open>
  What \<open>recvmsg\<close> leaves behind: its return value, the bytes it stored in the buffer, the
  message flags, and the first control message (none when \<open>CMSG_FIRSTHDR\<close> is null).
\<close>

record recv_out =
  rcv_ret :: int
  rcv_data :: bytes
  rcv_flags :: u32
  rcv_cmsg :: "cmsghdr option"

record epoll_event =
  ev_events :: u32
  ev_data :: u64

record itimerspec =
  it_sec :: int
  it_nsec :: int

datatype epoll_op = EPOLL_CTL_ADD | EPOLL_CTL_DEL

subsection \<open>The calls\<close>

record 'w posix =
  k_warn :: "string \<Rightarrow> ('w, unit) state"
  k_fputs :: "string \<Rightarrow> ('w, unit) state"
  k_socketpair :: "('w, int \<times> fd \<times> fd) state"
  k_fork :: "('w, int) state"
  k_close :: "fd \<Rightarrow> ('w, int) state"
  k_waitpid :: "int \<Rightarrow> u32 \<Rightarrow> ('w, int \<times> u32) state"
  k_dup :: "fd \<Rightarrow> ('w, fd) state"
  k_sendmsg :: "fd \<Rightarrow> send_hdr \<Rightarrow> u32 \<Rightarrow> ('w, int) state"
  k_recvmsg :: "fd \<Rightarrow> nat \<Rightarrow> nat \<Rightarrow> u32 \<Rightarrow> ('w, recv_out) state"
  k_open :: "string \<Rightarrow> u32 \<Rightarrow> ('w, fd) state"
  k_add_seals :: "fd \<Rightarrow> u32 \<Rightarrow> ('w, int) state"
  k_fstat_size :: "fd \<Rightarrow> ('w, int \<times> int) state"
  k_mmap :: "int \<Rightarrow> u32 \<Rightarrow> fd \<Rightarrow> ('w, addr) state"
  k_munmap :: "addr \<Rightarrow> int \<Rightarrow> ('w, int) state"
  k_timerfd_create :: "('w, fd) state"
  k_epoll_create1 :: "('w, fd) state"
  k_epoll_ctl :: "fd \<Rightarrow> epoll_op \<Rightarrow> fd \<Rightarrow> epoll_event option \<Rightarrow> ('w, int) state"
  k_epoll_wait :: "fd \<Rightarrow> epoll_event \<Rightarrow> ('w, int \<times> epoll_event) state"
  k_send :: "fd \<Rightarrow> bytes \<Rightarrow> u32 \<Rightarrow> ('w, int) state"
  k_recv :: "fd \<Rightarrow> nat \<Rightarrow> u32 \<Rightarrow> ('w, int \<times> bytes) state"
  k_memfd_create :: "string \<Rightarrow> u32 \<Rightarrow> ('w, fd) state"
  k_ftruncate :: "fd \<Rightarrow> u64 \<Rightarrow> ('w, int) state"
  k_timerfd_settime :: "fd \<Rightarrow> itimerspec \<Rightarrow> ('w, int) state"
  k_clock_gettime :: "int \<times> int \<Rightarrow> ('w, int \<times> int \<times> int) state"
  k_read8 :: "fd \<Rightarrow> ('w, int) state"
  k_dlopen :: "string \<Rightarrow> ('w, addr) state"
  k_dlsym :: "addr \<Rightarrow> string \<Rightarrow> ('w, addr) state"

subsection \<open>Documented behaviour of the descriptor table\<close>

text \<open>
  A call that opens one descriptor either fails with a negative value and leaves the table
  alone, or returns a descriptor that was not open before (\<open>open(2)\<close>, \<open>dup(2)\<close>,
  \<open>memfd_create(2)\<close>, \<open>timerfd_create(2)\<close>, \<open>epoll_create1(2)\<close>).
\<close>

definition opens_one :: "('w \<Rightarrow> fd set) \<Rightarrow> ('w, fd) state \<Rightarrow> bool" where
  "opens_one fds m \<longleftrightarrow> (\<forall>w. wp m (\<lambda>r w'.
     (r < 0 \<and> fds w' = fds w) \<or> (0 \<le> r \<and> r \<notin> fds w \<and> fds w' = insert r (fds w))) w)"

text \<open>The same for a call that opens a pair (\<open>socketpair(2)\<close>).\<close>

definition opens_pair :: "('w \<Rightarrow> fd set) \<Rightarrow> ('w, int \<times> fd \<times> fd) state \<Rightarrow> bool" where
  "opens_pair fds m \<longleftrightarrow> (\<forall>w. wp m (\<lambda>(r, a, b) w'.
     (r < 0 \<and> fds w' = fds w) \<or>
     (r = 0 \<and> 0 \<le> a \<and> 0 \<le> b \<and> a \<noteq> b \<and> a \<notin> fds w \<and> b \<notin> fds w \<and>
      fds w' = insert a (insert b (fds w)))) w)"

text \<open>Closing releases exactly the descriptor, whatever \<open>close\<close> returns (\<open>close(2)\<close>, Linux).\<close>

definition closes :: "('w \<Rightarrow> fd set) \<Rightarrow> (fd \<Rightarrow> ('w, int) state) \<Rightarrow> bool" where
  "closes fds m \<longleftrightarrow> (\<forall>d w. wp (m d) (\<lambda>_ w'. fds w' = fds w - {d}) w)"

text \<open>Receiving installs the descriptors of an \<open>SCM_RIGHTS\<close> message, under numbers that were free (\<open>unix(7)\<close>).\<close>

definition installs :: "('w \<Rightarrow> fd set) \<Rightarrow> (fd \<Rightarrow> nat \<Rightarrow> nat \<Rightarrow> u32 \<Rightarrow> ('w, recv_out) state) \<Rightarrow> bool" where
  "installs fds m \<longleftrightarrow> (\<forall>s n c fl w. wp (m s n c fl) (\<lambda>r w'.
     (rcv_ret r < 0 \<longrightarrow> fds w' = fds w) \<and>
     (case rcv_cmsg r of None \<Rightarrow> fds w' = fds w
      | Some h \<Rightarrow> fds w' = fds w \<union> set (cmsg_ints h) \<and> fds w \<inter> set (cmsg_ints h) = {})) w)"

locale linux_fds =
  fixes K :: "'w posix"
    and fds :: "'w \<Rightarrow> fd set"
  assumes socketpair_opens: "opens_pair fds (k_socketpair K)"
    and open_opens: "opens_one fds (k_open K p fl)"
    and dup_opens: "opens_one fds (k_dup K d)"
    and memfd_opens: "opens_one fds (k_memfd_create K nm fl)"
    and timerfd_opens: "opens_one fds (k_timerfd_create K)"
    and epoll_opens: "opens_one fds (k_epoll_create1 K)"
    and close_closes: "closes fds (k_close K)"
    and recvmsg_installs: "installs fds (k_recvmsg K)"
    and warn_keeps [keeps_intros]: "keeps fds (k_warn K s)"
    and fputs_keeps [keeps_intros]: "keeps fds (k_fputs K s)"
    and sendmsg_keeps [keeps_intros]: "keeps fds (k_sendmsg K d h fl)"
    and add_seals_keeps [keeps_intros]: "keeps fds (k_add_seals K d sl)"
    and ftruncate_keeps [keeps_intros]: "keeps fds (k_ftruncate K d n)"
    and epoll_ctl_keeps [keeps_intros]: "keeps fds (k_epoll_ctl K e op d ev)"
    and epoll_wait_keeps [keeps_intros]: "keeps fds (k_epoll_wait K e x)"
    and waitpid_keeps [keeps_intros]: "keeps fds (k_waitpid K pid st)"
    and fork_keeps [keeps_intros]: "keeps fds (k_fork K)"
    and fstat_keeps [keeps_intros]: "keeps fds (k_fstat_size K d)"
    and mmap_keeps [keeps_intros]: "keeps fds (k_mmap K len prot d)"
    and munmap_keeps [keeps_intros]: "keeps fds (k_munmap K m len)"
begin

lemma wp_warn: "(\<And>w'. fds w' = fds w \<Longrightarrow> Q () w') \<Longrightarrow> wp (k_warn K s) Q w"
  using keeps_wpI [OF warn_keeps, where Q = Q] by simp

lemma wp_close: "(\<And>r w'. fds w' = fds w - {d} \<Longrightarrow> Q r w') \<Longrightarrow> wp (k_close K d) Q w"
  by (rule wp_mono [OF close_closes [unfolded closes_def, rule_format]])

lemma wp_opens_one:
  "opens_one fds m \<Longrightarrow> (\<And>r w'. r < 0 \<Longrightarrow> fds w' = fds w \<Longrightarrow> Q r w') \<Longrightarrow>
   (\<And>r w'. 0 \<le> r \<Longrightarrow> r \<notin> fds w \<Longrightarrow> fds w' = insert r (fds w) \<Longrightarrow> Q r w') \<Longrightarrow> wp m Q w"
  unfolding opens_one_def by (drule spec [of _ w], erule wp_mono) blast

lemma wp_socketpair:
  "(\<And>r a b w'. r < 0 \<Longrightarrow> fds w' = fds w \<Longrightarrow> Q (r, a, b) w') \<Longrightarrow>
   (\<And>a b w'. 0 \<le> a \<Longrightarrow> 0 \<le> b \<Longrightarrow> a \<noteq> b \<Longrightarrow> a \<notin> fds w \<Longrightarrow> b \<notin> fds w \<Longrightarrow>
      fds w' = insert a (insert b (fds w)) \<Longrightarrow> Q (0, a, b) w') \<Longrightarrow>
   wp (k_socketpair K) Q w"
  by (rule wp_mono [OF socketpair_opens [unfolded opens_pair_def, rule_format]])
    (auto split: prod.splits)

end


subsection \<open>Documented behaviour of file seals\<close>

text \<open>
  \<open>fcntl(2)\<close>: \<open>F_ADD_SEALS\<close> adds the seal to the inode behind the descriptor or fails; it
  fails with \<open>EPERM\<close> once \<open>F_SEAL_SEAL\<close> is set. Seals are never removed.
\<close>

locale linux_seals =
  fixes K :: "'w posix"
    and seals :: "'w \<Rightarrow> fd \<Rightarrow> u32 set"
  assumes add_seals_law: "wp (k_add_seals K d s) (\<lambda>r w'.
      if r < 0 then seals w' = seals w
      else F_SEAL_SEAL \<notin> seals w d \<and> seals w' = (seals w)(d := insert s (seals w d))) w"
    and warn_keeps_seals: "keeps seals (k_warn K msg)"
begin

lemma wp_add_seals:
  "(\<And>r w'. r < 0 \<Longrightarrow> seals w' = seals w \<Longrightarrow> Q r w') \<Longrightarrow>
   (\<And>r w'. 0 \<le> r \<Longrightarrow> F_SEAL_SEAL \<notin> seals w d \<Longrightarrow>
      seals w' = (seals w)(d := insert s (seals w d)) \<Longrightarrow> Q r w') \<Longrightarrow>
   wp (k_add_seals K d s) Q w"
  by (rule wp_mono [OF add_seals_law]) (auto split: if_splits)

lemma wp_warn_seals: "(\<And>w'. seals w' = seals w \<Longrightarrow> Q () w') \<Longrightarrow> wp (k_warn K s) Q w"
  using keeps_wpI [OF warn_keeps_seals, where Q = Q] by simp

end

subsection \<open>Documented behaviour of sequenced-packet sockets\<close>

text \<open>
  \<open>unix(7)\<close>, \<open>SOCK_SEQPACKET\<close>: a message that was sent is queued as a whole at the peer, in
  order, with copies of the descriptors in its control message; receiving takes the oldest
  message. \<open>queue w d\<close> is what waits at descriptor \<open>d\<close>.
\<close>

locale linux_sockets =
  fixes K :: "'w posix"
    and peer :: "'w \<Rightarrow> fd \<Rightarrow> fd option"
    and queue :: "'w \<Rightarrow> fd \<Rightarrow> (bytes \<times> fd list) list"
  assumes send_law: "peer w d = Some p \<Longrightarrow> wp (k_sendmsg K d h fl) (\<lambda>rc w'.
      (rc < 0 \<and> queue w' = queue w) \<or>
      (0 \<le> rc \<and> queue w' = (queue w)(p := queue w p @ [(snd_iov h, rights_of h)]))) w"
    and recv_law: "queue w d = (bs, rs) # rest \<Longrightarrow> 16 + 4 * length rs \<le> c \<Longrightarrow> fl AND MSG_PEEK = 0 \<Longrightarrow>
      wp (k_recvmsg K d n c fl) (\<lambda>r w'. rcv_ret r = int (length bs) \<and> rcv_data r = take n bs \<and>
        queue w' = (queue w)(d := rest) \<and>
        (case rcv_cmsg r of None \<Rightarrow> rs = []
         | Some h \<Rightarrow> rs \<noteq> [] \<and> cmsg_level h = SOL_SOCKET \<and> cmsg_type h = SCM_RIGHTS \<and>
             cmsg_len h = CMSG_LEN (4 * length rs) \<and> length (cmsg_ints h) = length rs \<and>
             (\<forall>e \<in> set (cmsg_ints h). 0 \<le> e))) w"
    and warn_keeps_queue [keeps_intros]: "keeps queue (k_warn K s)"

subsection \<open>The messages that code sends\<close>

text \<open>
  An observer of the program: \<open>sent w\<close> lists the calls of \<open>sendmsg\<close> that were made, with
  the descriptor and the message; no other call adds to it.
\<close>

locale linux_calls =
  fixes K :: "'w posix"
    and sent :: "'w \<Rightarrow> (fd \<times> send_hdr) list"
  assumes sendmsg_sent: "wp (k_sendmsg K d h fl) (\<lambda>_ w'. sent w' = sent w @ [(d, h)]) w"
    and warn_sent [keeps_intros]: "keeps sent (k_warn K s)"
    and fputs_sent [keeps_intros]: "keeps sent (k_fputs K s)"
    and socketpair_sent [keeps_intros]: "keeps sent (k_socketpair K)"
    and close_sent [keeps_intros]: "keeps sent (k_close K d)"
    and open_sent [keeps_intros]: "keeps sent (k_open K p fl)"
    and add_seals_sent [keeps_intros]: "keeps sent (k_add_seals K d sl)"
    and timerfd_sent [keeps_intros]: "keeps sent (k_timerfd_create K)"
    and epoll_ctl_sent [keeps_intros]: "keeps sent (k_epoll_ctl K e op d ev)"
    and recvmsg_sent [keeps_intros]: "keeps sent (k_recvmsg K d n c fl)"
    and fstat_sent [keeps_intros]: "keeps sent (k_fstat_size K d)"
    and mmap_sent [keeps_intros]: "keeps sent (k_mmap K len prot d)"

text \<open>
  The same for data: \<open>written w\<close> lists the calls of \<open>send\<close> with the descriptor and the bytes.
\<close>

locale linux_sends =
  fixes K :: "'w posix"
    and written :: "'w \<Rightarrow> (fd \<times> bytes) list"
  assumes send_written: "wp (k_send K d bs fl) (\<lambda>_ w'. written w' = written w @ [(d, bs)]) w"
    and warn_written [keeps_intros]: "keeps written (k_warn K s)"

end
