(* ===== verification/Linux_Reference.thy ===== *)
theory Linux_Reference
  imports Linux_Posix
begin

text \<open>
  An executable kernel for the record \<open>posix\<close>. It keeps the descriptor table, socket
  queues with passed descriptors, memfd sizes and seals, timers, the messages that code tried
  to send and the log, and follows a
  script of failures (\<open>sim_fail\<close>: \<open>True\<close> makes the next fallible call fail), so that
  every branch of the C code can be run. It shows that the documented behaviour assumed by
  \<open>linux_fds\<close> and \<open>linux_seals\<close> is satisfiable; no theorem about the C code depends on it.
\<close>

record sim =
  sim_fds :: "fd list"
  sim_fail :: "bool list"
  sim_peer :: "(fd \<times> fd) list"
  sim_queue :: "(fd \<times> bytes \<times> fd list) list"
  sim_seals :: "(fd \<times> u32) list"
  sim_sizes :: "(fd \<times> int) list"
  sim_timers :: "(fd \<times> int \<times> int) list"
  sim_clock :: "int \<times> int"
  sim_events :: "epoll_event list"
  sim_watch :: "(fd \<times> fd) list"
  sim_pids :: "int list"
  sim_log :: "string list"
  sim_sent :: "(fd \<times> send_hdr) list"
  sim_written :: "(fd \<times> bytes) list"
  sim_mem :: "(addr \<times> u8) list"

definition sim_init :: sim where
  "sim_init = \<lparr> sim_fds = [0, 1, 2], sim_fail = [], sim_peer = [], sim_queue = [], sim_seals = [],
     sim_sizes = [], sim_timers = [], sim_clock = (0, 0), sim_events = [], sim_watch = [],
     sim_pids = [], sim_log = [], sim_sent = [], sim_written = [], sim_mem = [] \<rparr>"

text \<open>A fallible call: the script decides, an empty script means success.\<close>

definition sim_try :: "'a \<Rightarrow> (sim \<Rightarrow> 'a \<times> sim) \<Rightarrow> (sim, 'a) state" where
  "sim_try err ok = State (\<lambda>w. case sim_fail w of
       [] \<Rightarrow> ok w
     | b # bs \<Rightarrow> if b then (err, w\<lparr>sim_fail := bs\<rparr>) else ok (w\<lparr>sim_fail := bs\<rparr>))"

definition sim_fresh :: "sim \<Rightarrow> fd" where
  "sim_fresh w = fold max (sim_fds w) 2 + 1"

lemma fold_max_ge: "(a :: int) \<le> fold max xs a \<and> (\<forall>x \<in> set xs. x \<le> fold max xs a)"
  by (induction xs arbitrary: a) (auto, (meson max.cobounded1 max.cobounded2 order_trans)+)

lemma sim_fresh_nonneg: "3 \<le> sim_fresh w"
  using fold_max_ge [of 2 "sim_fds w"] by (simp add: sim_fresh_def)

lemma sim_fresh_new: "n \<ge> 0 \<Longrightarrow> sim_fresh w + n \<notin> set (sim_fds w)"
  using fold_max_ge [where xs = "sim_fds w" and a = 2] by (fastforce simp: sim_fresh_def)

definition sim_open :: "sim \<Rightarrow> fd \<times> sim" where
  "sim_open w = (sim_fresh w, w\<lparr>sim_fds := sim_fresh w # sim_fds w\<rparr>)"

definition sim_socketpair :: "sim \<Rightarrow> (int \<times> fd \<times> fd) \<times> sim" where
  "sim_socketpair w = (let a = sim_fresh w; b = a + 1 in
     ((0, a, b), w\<lparr>sim_fds := a # b # sim_fds w, sim_peer := (a, b) # (b, a) # sim_peer w\<rparr>))"

definition sim_close :: "fd \<Rightarrow> sim \<Rightarrow> int \<times> sim" where
  "sim_close d w = ((if d \<in> set (sim_fds w) then 0 else -1), w\<lparr>sim_fds := removeAll d (sim_fds w)\<rparr>)"

definition sim_enqueue :: "fd \<Rightarrow> bytes \<Rightarrow> fd list \<Rightarrow> sim \<Rightarrow> int \<times> sim" where
  "sim_enqueue d bs rights w = (case map_of (sim_peer w) d of
       None \<Rightarrow> (-1, w)
     | Some p \<Rightarrow> (int (length bs), w\<lparr>sim_queue := sim_queue w @ [(p, bs, rights)]\<rparr>))"

fun take_first :: "fd \<Rightarrow> (fd \<times> bytes \<times> fd list) list \<Rightarrow>
    ((bytes \<times> fd list) \<times> (fd \<times> bytes \<times> fd list) list) option" where
  "take_first d [] = None"
| "take_first d (m # ms) =
     (if fst m = d then Some (snd m, ms)
      else map_option (\<lambda>(x, rest). (x, m # rest)) (take_first d ms))"

text \<open>\<open>recvmsg\<close>: the descriptors of the message are installed as fresh ones.\<close>

definition sim_recvmsg :: "fd \<Rightarrow> nat \<Rightarrow> u32 \<Rightarrow> sim \<Rightarrow> recv_out \<times> sim" where
  "sim_recvmsg d sz flags w = (case take_first d (sim_queue w) of
       None \<Rightarrow> (\<lparr>rcv_ret = -1, rcv_data = [], rcv_flags = 0, rcv_cmsg = None\<rparr>, w)
     | Some ((bs, rights), rest) \<Rightarrow>
         (let news = map (\<lambda>i. sim_fresh w + int i) [0..<length rights];
              w' = (if flags AND MSG_PEEK \<noteq> 0 then w else w\<lparr>sim_queue := rest\<rparr>)
          in (\<lparr>rcv_ret = int (length bs), rcv_data = take sz bs,
               rcv_flags = (if sz < length bs then MSG_TRUNC else 0),
               rcv_cmsg = (if rights = [] then None else
                 Some \<lparr>cmsg_len = CMSG_LEN (4 * length rights), cmsg_level = SOL_SOCKET,
                       cmsg_type = SCM_RIGHTS, cmsg_ints = news\<rparr>)\<rparr>,
              w'\<lparr>sim_fds := news @ sim_fds w\<rparr>)))"

definition sim_add_seals :: "fd \<Rightarrow> u32 \<Rightarrow> sim \<Rightarrow> int \<times> sim" where
  "sim_add_seals d s w =
     (if (d, F_SEAL_SEAL) \<in> set (sim_seals w) then (-1, w)
      else (0, w\<lparr>sim_seals := (d, s) # sim_seals w\<rparr>))"

definition sim_posix :: "sim posix" where
  "sim_posix = \<lparr>
     k_warn = (\<lambda>s. State (\<lambda>w. ((), w\<lparr>sim_log := s # sim_log w\<rparr>))),
     k_fputs = (\<lambda>s. State (\<lambda>w. ((), w\<lparr>sim_log := s # sim_log w\<rparr>))),
     k_socketpair = sim_try (-1, 0, 0) sim_socketpair,
     k_fork = sim_try (-1) (\<lambda>w. case sim_pids w of [] \<Rightarrow> (-1, w) | p # ps \<Rightarrow> (p, w\<lparr>sim_pids := ps\<rparr>)),
     k_close = (\<lambda>d. State (sim_close d)),
     k_waitpid = (\<lambda>pid st. sim_try (-1, st) (\<lambda>w. ((pid, 0), w))),
     k_dup = (\<lambda>d. sim_try (-1) sim_open),
     k_sendmsg = (\<lambda>d h fl. do {
        State (\<lambda>w. ((), w\<lparr>sim_sent := sim_sent w @ [(d, h)]\<rparr>));
        sim_try (-1) (sim_enqueue d (snd_iov h) (rights_of h))
      }),
     k_recvmsg = (\<lambda>d n c fl. State (sim_recvmsg d n fl)),
     k_open = (\<lambda>p fl. sim_try (-1) sim_open),
     k_add_seals = (\<lambda>d s. sim_try (-1) (sim_add_seals d s)),
     k_fstat_size = (\<lambda>d. sim_try (-1, 0)
        (\<lambda>w. ((0, case map_of (sim_sizes w) d of None \<Rightarrow> 0 | Some n \<Rightarrow> n), w))),
     k_mmap = (\<lambda>n pr d. sim_try MAP_FAILED (\<lambda>w. (0x1000, w))),
     k_munmap = (\<lambda>a n. sim_try (-1) (\<lambda>w. (0, w))),
     k_timerfd_create = sim_try (-1) sim_open,
     k_epoll_create1 = sim_try (-1) sim_open,
     k_epoll_ctl = (\<lambda>e op d ev. sim_try (-1) (\<lambda>w. (0, case op of
        EPOLL_CTL_ADD \<Rightarrow> w\<lparr>sim_watch := (e, d) # sim_watch w\<rparr>
      | EPOLL_CTL_DEL \<Rightarrow> w\<lparr>sim_watch := removeAll (e, d) (sim_watch w)\<rparr>))),
     k_epoll_wait = (\<lambda>e ev. State (\<lambda>w. case sim_events w of
        [] \<Rightarrow> ((-1, ev), w) | x # xs \<Rightarrow> ((1, x), w\<lparr>sim_events := xs\<rparr>))),
     k_send = (\<lambda>d bs fl. do {
        State (\<lambda>w. ((), w\<lparr>sim_written := sim_written w @ [(d, bs)]\<rparr>));
        sim_try (-1) (sim_enqueue d bs [])
      }),
     k_recv = (\<lambda>d n fl. State (\<lambda>w. case sim_recvmsg d n fl w of (r, w') \<Rightarrow> ((rcv_ret r, rcv_data r), w'))),
     k_memfd_create = (\<lambda>nm fl. sim_try (-1) sim_open),
     k_ftruncate = (\<lambda>d n. sim_try (-1) (\<lambda>w. (0, w\<lparr>sim_sizes := (d, uint n) # sim_sizes w\<rparr>))),
     k_timerfd_settime = (\<lambda>d t. sim_try (-1)
        (\<lambda>w. (0, w\<lparr>sim_timers := (d, it_sec t, it_nsec t) # sim_timers w\<rparr>))),
     k_clock_gettime = (\<lambda>ts. sim_try (-1, ts) (\<lambda>w. ((0, sim_clock w), w))),
     k_read8 = (\<lambda>d. sim_try (-1) (\<lambda>w. (8, w))),
     k_dlopen = (\<lambda>f. sim_try null (\<lambda>w. (0x2000, w))),
     k_dlsym = (\<lambda>h nm. sim_try null (\<lambda>w. (0x3000, w)))
   \<rparr>"

subsection \<open>The reference kernel behaves as documented\<close>

abbreviation sim_fdset :: "sim \<Rightarrow> fd set" where
  "sim_fdset w \<equiv> set (sim_fds w)"

lemma wp_sim_try:
  "wp (sim_try err ok) Q w \<longleftrightarrow> (case sim_fail w of
      [] \<Rightarrow> (case ok w of (a, w') \<Rightarrow> Q a w')
    | b # bs \<Rightarrow> if b then Q err (w\<lparr>sim_fail := bs\<rparr>)
               else (case ok (w\<lparr>sim_fail := bs\<rparr>) of (a, w') \<Rightarrow> Q a w'))"
  by (simp add: wp_def sim_try_def split: list.splits)

lemma wp_State: "wp (State f) Q w = (case f w of (a, w') \<Rightarrow> Q a w')"
  by (simp add: wp_def)

lemma sim_fresh_fail [simp]: "sim_fresh (w\<lparr>sim_fail := bs\<rparr>) = sim_fresh w"
  by (simp add: sim_fresh_def)

lemma sim_open_opens: "opens_one sim_fdset (sim_try (-1) sim_open)"
  using sim_fresh_nonneg sim_fresh_new [where n = 0]
  by (auto simp: opens_one_def wp_sim_try sim_open_def split: list.splits dest: order_trans [rotated])
    (metis order_trans zero_le_numeral)+

lemma keeps_sim_try:
  "(\<And>w. f (snd (ok w)) = f w) \<Longrightarrow> (\<And>w bs. f (w\<lparr>sim_fail := bs\<rparr>) = f w) \<Longrightarrow> keeps f (sim_try err ok)"
  by (auto simp: keeps_def sim_try_def split: list.splits)

lemma sim_socketpair_opens: "opens_pair sim_fdset (k_socketpair sim_posix)"
proof -
  have a: "0 \<le> sim_fresh w" "sim_fresh w \<notin> sim_fdset w" "sim_fresh w + 1 \<notin> sim_fdset w" for w
    using sim_fresh_nonneg [of w] sim_fresh_new [of 0 w] sim_fresh_new [of 1 w] by auto
  show ?thesis
    using a by (auto simp: opens_pair_def sim_posix_def wp_sim_try sim_socketpair_def Let_def
        split: list.splits)
qed

lemma sim_recvmsg_installs: "installs sim_fdset (k_recvmsg sim_posix)"
  using sim_fresh_new
  by (auto simp: installs_def sim_posix_def wp_State sim_recvmsg_def Let_def split: option.splits prod.splits)

lemma sim_enqueue_fds: "sim_fds (snd (sim_enqueue d bs r w)) = sim_fds w"
  by (simp add: sim_enqueue_def split: option.splits)

lemma sim_add_seals_fds: "sim_fds (snd (sim_add_seals d s w)) = sim_fds w"
  by (simp add: sim_add_seals_def)

interpretation sim_fds: linux_fds sim_posix sim_fdset
  by unfold_locales
    (simp_all add: sim_socketpair_opens sim_recvmsg_installs, simp_all add: sim_posix_def,
     auto simp: closes_def wp_State sim_close_def keeps_def[of _ "State _"] sim_open_opens
       sim_enqueue_fds sim_add_seals_fds split: epoll_op.splits list.splits intro!: keeps_sim_try keeps_bind)


abbreviation sim_sealset :: "sim \<Rightarrow> fd \<Rightarrow> u32 set" where
  "sim_sealset w d \<equiv> {s. (d, s) \<in> set (sim_seals w)}"

interpretation sim_seals: linux_seals sim_posix sim_sealset
  by unfold_locales
    (auto simp: sim_posix_def wp_sim_try sim_add_seals_def keeps_def fun_eq_iff split: list.splits)

definition sim_waiting :: "sim \<Rightarrow> fd \<Rightarrow> (bytes \<times> fd list) list" where
  "sim_waiting w d = map snd (filter (\<lambda>m. fst m = d) (sim_queue w))"

definition sim_peer_of :: "sim \<Rightarrow> fd \<Rightarrow> fd option" where
  "sim_peer_of w = map_of (sim_peer w)"

lemma take_first_waiting:
  "map snd (filter (\<lambda>m. fst m = d) q) = x # rest \<Longrightarrow>
   \<exists>q'. take_first d q = Some (x, q') \<and> map snd (filter (\<lambda>m. fst m = d) q') = rest \<and>
     (\<forall>e. e \<noteq> d \<longrightarrow> filter (\<lambda>m. fst m = e) q' = filter (\<lambda>m. fst m = e) q)"
  by (induction q) (auto split: if_splits)

interpretation sim_sockets: linux_sockets sim_posix sim_peer_of sim_waiting
proof unfold_locales
  fix w d p h fl
  assume "sim_peer_of w d = Some p"
  then show "wp (k_sendmsg sim_posix d h fl) (\<lambda>rc w'. (rc < 0 \<and> sim_waiting w' = sim_waiting w) \<or>
      (0 \<le> rc \<and> sim_waiting w' = (sim_waiting w)(p := sim_waiting w p @ [(snd_iov h, rights_of h)]))) w"
    by (auto simp: sim_posix_def wp_simps wp_State wp_sim_try sim_enqueue_def sim_peer_of_def sim_waiting_def
        split: list.splits)
next
  fix w d bs rs rest c n and fl :: u32
  assume "sim_waiting w d = (bs, rs) # rest" and "16 + 4 * length rs \<le> c" and "fl AND MSG_PEEK = 0"
  moreover from this(1) obtain q' where "take_first d (sim_queue w) = Some ((bs, rs), q')"
    "map snd (filter (\<lambda>m. fst m = d) q') = rest"
    "\<forall>e. e \<noteq> d \<longrightarrow> filter (\<lambda>m. fst m = e) q' = filter (\<lambda>m. fst m = e) (sim_queue w)"
    using take_first_waiting [of d "sim_queue w" "(bs, rs)" rest] by (auto simp: sim_waiting_def)
  moreover have "0 \<le> sim_fresh w + int i" for i
    using sim_fresh_nonneg [of w] by simp
  ultimately show "wp (k_recvmsg sim_posix d n c fl) (\<lambda>r w'. rcv_ret r = int (length bs) \<and> rcv_data r = take n bs \<and>
        sim_waiting w' = (sim_waiting w)(d := rest) \<and>
        (case rcv_cmsg r of None \<Rightarrow> rs = []
         | Some h \<Rightarrow> rs \<noteq> [] \<and> cmsg_level h = SOL_SOCKET \<and> cmsg_type h = SCM_RIGHTS \<and>
             cmsg_len h = CMSG_LEN (4 * length rs) \<and> length (cmsg_ints h) = length rs \<and>
             (\<forall>e \<in> set (cmsg_ints h). 0 \<le> e))) w"
    by (auto simp: sim_posix_def wp_State sim_recvmsg_def Let_def sim_waiting_def fun_eq_iff)
qed (simp add: sim_posix_def keeps_def sim_waiting_def fun_eq_iff)

interpretation sim_calls: linux_calls sim_posix sim_sent
  by unfold_locales
    (auto simp: sim_posix_def wp_simps wp_State wp_sim_try sim_enqueue_def sim_socketpair_def sim_open_def
      sim_close_def sim_add_seals_def sim_recvmsg_def Let_def keeps_def [of _ "State _"]
      split: list.splits option.splits epoll_op.splits intro!: keeps_sim_try)

interpretation sim_sends: linux_sends sim_posix sim_written
  by unfold_locales
    (auto simp: sim_posix_def wp_simps wp_State wp_sim_try sim_enqueue_def keeps_def [of _ "State _"]
      split: list.splits option.splits)

end
