(* ===== verification/Linux_Syscall.thy ===== *)
theory Linux_Syscall
  imports Linux_Reference
begin

text \<open>
  Model of \<open>src/src/platform/linux/syscall.c\<close>, the C layer below \<open>Gneiss_Internal.Syscall\<close>
  and \<open>Gneiss_Internal.Packet\<close>. One definition per C function; an out-parameter is part of
  the result, an in-out parameter is also an argument. \<open>TRACE\<close> is compiled out (the
  \<open>ENABLE_TRACE\<close> macro is not defined), \<open>warn\<close> is the call \<open>k_warn\<close>.
\<close>

subsection \<open>Descriptors and processes\<close>

definition gneiss_socketpair :: "'w posix \<Rightarrow> ('w, fd \<times> fd) state" where
  "gneiss_socketpair K = do {
     (rc, fd0, fd1) \<leftarrow> k_socketpair K;
     if rc < 0 then do {
       _ \<leftarrow> k_warn K ''gneiss_socketpair: socketpair'';
       ret (-1, -1)
     } else ret (fd0, fd1)
   }"

definition gneiss_fork :: "'w posix \<Rightarrow> ('w, int) state" where
  "gneiss_fork K = do {
     pid \<leftarrow> k_fork K;
     _ \<leftarrow> whenM (pid < 0) (k_warn K ''gneiss_fork: fork'');
     ret pid
   }"

definition gneiss_close :: "'w posix \<Rightarrow> fd \<Rightarrow> ('w, fd) state" where
  "gneiss_close K d =
     (if d < 0 then ret d
      else do {
        rc \<leftarrow> k_close K d;
        _ \<leftarrow> whenM (rc \<noteq> 0) (k_warn K ''gneiss_close: close'');
        ret (-1)
      })"

text \<open>\<open>WEXITSTATUS(s)\<close> of \<open>sys/wait.h\<close>: the second byte of the wait status.\<close>

definition WEXITSTATUS :: "u32 \<Rightarrow> int" where
  "WEXITSTATUS s = uint (drop_bit 8 (s AND 0xff00))"

definition gneiss_waitpid :: "'w posix \<Rightarrow> int \<Rightarrow> u32 \<Rightarrow> ('w, int) state" where
  "gneiss_waitpid K pid status = do {
     (rc, status') \<leftarrow> k_waitpid K pid status;
     _ \<leftarrow> whenM (rc < 0) (k_warn K ''gneiss_waitpid: waitpid'');
     ret (WEXITSTATUS status')
   }"

definition gneiss_dup :: "'w posix \<Rightarrow> fd \<Rightarrow> ('w, fd) state" where
  "gneiss_dup K oldfd = do {
     newfd \<leftarrow> k_dup K oldfd;
     _ \<leftarrow> whenM (newfd < 0) (k_warn K ''gneiss_dup: dup'');
     ret newfd
   }"

subsection \<open>Messages with descriptors\<close>

definition gneiss_write_message ::
  "'w posix \<Rightarrow> fd \<Rightarrow> bytes \<Rightarrow> nat \<Rightarrow> fd list \<Rightarrow> nat \<Rightarrow> ('w, unit) state" where
  "gneiss_write_message K sock msg sz fd num = do {
     let control =
       (if 0 < num then Some \<lparr> cmsg_len = CMSG_LEN (4 * num), cmsg_level = SOL_SOCKET,
                               cmsg_type = SCM_RIGHTS, cmsg_ints = take num fd \<rparr>
        else None);
     rc \<leftarrow> k_sendmsg K sock \<lparr> snd_iov = take sz msg, snd_control = control \<rparr> MSG_DONTWAIT;
     whenM (rc < 0) (k_warn K ''gneiss_write_message: sendmsg'')
   }"

text \<open>
  \<open>memcpy(fd, CMSG_DATA(cmsg), min(sizeof(int) * num, cmsg->cmsg_len))\<close>. The data area of
  the control buffer starts with the descriptors the kernel stored; behind them it still
  holds \<open>ctl\<close>, what was on the stack before the call.
\<close>

definition copy_rights :: "nat \<Rightarrow> int list \<Rightarrow> cmsghdr \<Rightarrow> fd list \<Rightarrow> fd list" where
  "copy_rights num ctl h fd =
     overlay (take (min (4 * num) (cmsg_len h) div 4) (overlay (cmsg_ints h) ctl)) fd"

definition is_rights :: "cmsghdr \<Rightarrow> bool" where
  "is_rights h \<longleftrightarrow> cmsg_level h = SOL_SOCKET \<and> cmsg_type h = SCM_RIGHTS"

text \<open>
  \<open>read_message\<close>: in-out parameters \<open>msg\<close> (the buffer of \<open>sz\<close> bytes), \<open>fd\<close> and
  \<open>trunc\<close>; the result is the new \<open>msg\<close>, \<open>fd\<close>, \<open>length\<close> and \<open>trunc\<close>. A failed
  \<open>recvmsg\<close> writes no data and leaves \<open>trunc\<close> as it was.
\<close>

definition read_message ::
  "'w posix \<Rightarrow> int list \<Rightarrow> fd \<Rightarrow> bytes \<Rightarrow> nat \<Rightarrow> fd list \<Rightarrow> nat \<Rightarrow> int \<Rightarrow> u32 \<Rightarrow>
   ('w, bytes \<times> fd list \<times> int \<times> int) state" where
  "read_message K ctl sock msg sz fd num trunc flags = do {
     let fd0 = replicate num (-1) @ drop num fd;
     r \<leftarrow> k_recvmsg K sock sz (CMSG_SPACE (4 * num)) flags;
     let len = to_c_int (rcv_ret r);
     if len < 0 then do {
       _ \<leftarrow> k_warn K ''read_message: recvmsg'';
       ret (msg, fd0, 0, trunc)
     } else do {
       let trunc' = (if rcv_flags r AND MSG_TRUNC \<noteq> 0 then 1 else 0);
       let fd' = (case rcv_cmsg r of
                    Some h \<Rightarrow> if is_rights h then copy_rights num ctl h fd0 else fd0
                  | None \<Rightarrow> fd0);
       ret (overlay (rcv_data r) msg, fd', len, trunc')
     }
   }"

definition gneiss_peek_message ::
  "'w posix \<Rightarrow> int list \<Rightarrow> fd \<Rightarrow> bytes \<Rightarrow> nat \<Rightarrow> fd list \<Rightarrow> nat \<Rightarrow> int \<Rightarrow>
   ('w, bytes \<times> fd list \<times> int \<times> int) state" where
  "gneiss_peek_message K ctl sock msg sz fd num trunc =
     read_message K ctl sock msg sz fd num trunc (MSG_PEEK OR MSG_TRUNC OR MSG_DONTWAIT)"

definition gneiss_read_message ::
  "'w posix \<Rightarrow> int list \<Rightarrow> fd \<Rightarrow> bytes \<Rightarrow> nat \<Rightarrow> fd list \<Rightarrow> nat \<Rightarrow> int \<Rightarrow> int \<Rightarrow>
   ('w, bytes \<times> fd list \<times> int \<times> int) state" where
  "gneiss_read_message K ctl sock msg sz fd num trunc block =
     read_message K ctl sock msg sz fd num trunc
       (MSG_TRUNC OR (if block \<noteq> 0 then 0 else MSG_DONTWAIT))"

definition gneiss_drop_message :: "'w posix \<Rightarrow> fd \<Rightarrow> ('w, unit) state" where
  "gneiss_drop_message K sock = do {
     r \<leftarrow> k_recvmsg K sock 0 (CMSG_SPACE 4) MSG_TRUNC;
     whenM (rcv_ret r < 0) (k_warn K ''gneiss_drop_message: recvmsg'')
   }"

definition gneiss_fputs :: "'w posix \<Rightarrow> string \<Rightarrow> ('w, unit) state" where
  "gneiss_fputs K str = k_fputs K str"

subsection \<open>Files, sealing and mapping\<close>

definition gneiss_open :: "'w posix \<Rightarrow> string \<Rightarrow> int \<Rightarrow> ('w, fd) state" where
  "gneiss_open K path writable = do {
     d \<leftarrow> k_open K path (if writable \<noteq> 0 then O_RDWR else O_RDONLY);
     _ \<leftarrow> whenM (d < 0) (k_warn K ''gneiss_open: open'');
     ret d
   }"

definition gneiss_memfd_seal :: "'w posix \<Rightarrow> fd \<Rightarrow> ('w, int) state" where
  "gneiss_memfd_seal K d = do {
     r1 \<leftarrow> k_add_seals K d F_SEAL_SHRINK;
     if r1 < 0 then do { _ \<leftarrow> k_warn K ''gneiss_memfd_seal: F_SEAL_SHRINK''; ret 0 }
     else do {
       r2 \<leftarrow> k_add_seals K d F_SEAL_GROW;
       if r2 < 0 then do { _ \<leftarrow> k_warn K ''gneiss_memfd_seal: F_SEAL_GROW''; ret 0 }
       else do {
         r3 \<leftarrow> k_add_seals K d F_SEAL_SEAL;
         if r3 < 0 then do { _ \<leftarrow> k_warn K ''gneiss_memfd_seal: F_SEAL_SEAL''; ret 0 }
         else ret 1
       }
     }
   }"

definition gneiss_fstat_size :: "'w posix \<Rightarrow> fd \<Rightarrow> ('w, int) state" where
  "gneiss_fstat_size K d = do {
     (rc, st_size) \<leftarrow> k_fstat_size K d;
     if rc < 0 then do { _ \<leftarrow> k_warn K ''gneiss_fstat_size: fstat''; ret 0 }
     else ret (to_c_int st_size)
   }"

definition gneiss_mmap :: "'w posix \<Rightarrow> fd \<Rightarrow> int \<Rightarrow> ('w, addr) state" where
  "gneiss_mmap K d writable = do {
     sz \<leftarrow> gneiss_fstat_size K d;
     m \<leftarrow> k_mmap K sz (if writable \<noteq> 0 then PROT_READ OR PROT_WRITE else PROT_READ) d;
     if m = MAP_FAILED then do { _ \<leftarrow> k_warn K ''gneiss_mmap: mmap''; ret null }
     else ret m
   }"

definition gneiss_munmap :: "'w posix \<Rightarrow> fd \<Rightarrow> addr \<Rightarrow> ('w, addr) state" where
  "gneiss_munmap K d m = do {
     sz \<leftarrow> gneiss_fstat_size K d;
     rc \<leftarrow> k_munmap K m sz;
     _ \<leftarrow> whenM (rc < 0) (do { _ \<leftarrow> gneiss_fstat_size K d; k_warn K ''gneiss_munmap: munmap'' });
     ret null
   }"

definition gneiss_timerfd_create :: "'w posix \<Rightarrow> ('w, fd) state" where
  "gneiss_timerfd_create K = do {
     d \<leftarrow> k_timerfd_create K;
     _ \<leftarrow> whenM (d < 0) (k_warn K ''gneiss_timerfd_create: timerfd_create'');
     ret d
   }"


lemmas syscall_defs =
  gneiss_socketpair_def gneiss_fork_def gneiss_close_def gneiss_waitpid_def gneiss_dup_def
  gneiss_write_message_def gneiss_peek_message_def gneiss_read_message_def read_message_def
  gneiss_drop_message_def gneiss_open_def gneiss_memfd_seal_def gneiss_fstat_size_def
  gneiss_mmap_def gneiss_munmap_def gneiss_timerfd_create_def

subsection \<open>The contract of the descriptor operations\<close>

text \<open>
  What the callers of \<open>gneiss_socketpair\<close> and \<open>gneiss_close\<close> (the broker and the
  dispatchers) rely on: a pair is complete or absent, and a closed variable is negative.
  \<open>fds\<close> is the set of descriptors open in this process.
\<close>

locale platform_fds =
  fixes mk_pair :: "('w, fd \<times> fd) state"
    and cl :: "fd \<Rightarrow> ('w, fd) state"
    and fds :: "'w \<Rightarrow> fd set"
  assumes pair_law: "wp mk_pair (\<lambda>(a, b) w'.
      (a = -1 \<and> b = -1 \<and> fds w' = fds w) \<or>
      (0 \<le> a \<and> 0 \<le> b \<and> a \<noteq> b \<and> a \<notin> fds w \<and> b \<notin> fds w \<and> fds w' = {a, b} \<union> fds w)) w"
    and close_law: "wp (cl d) (\<lambda>d' w'. d' < 0 \<and> fds w' = (if d < 0 then fds w else fds w - {d})) w"
begin

lemma wp_pair:
  "(\<And>w'. fds w' = fds w \<Longrightarrow> Q (-1, -1) w') \<Longrightarrow>
   (\<And>a b w'. 0 \<le> a \<Longrightarrow> 0 \<le> b \<Longrightarrow> a \<noteq> b \<Longrightarrow> a \<notin> fds w \<Longrightarrow> b \<notin> fds w \<Longrightarrow>
      fds w' = {a, b} \<union> fds w \<Longrightarrow> Q (a, b) w') \<Longrightarrow> wp mk_pair Q w"
  by (rule wp_mono [OF pair_law]) (auto split: prod.splits)

lemma wp_cl:
  "(\<And>d' w'. d' < 0 \<Longrightarrow> fds w' = (if d < 0 then fds w else fds w - {d}) \<Longrightarrow> Q d' w') \<Longrightarrow>
   wp (cl d) Q w"
  by (rule wp_mono [OF close_law]) blast

text \<open>The loop \<open>for Fd of Fds loop Close (Fd); end loop\<close>.\<close>

lemma wp_close_all:
  "wp (traverse_list cl ds)
     (\<lambda>ds' w'. length ds' = length ds \<and> (\<forall>d \<in> set ds'. d < 0) \<and>
        fds w' = fds w - {d \<in> set ds. 0 \<le> d}) w"
proof (induction ds arbitrary: w)
  case Nil
  then show ?case by (simp add: wp_simps)
next
  case (Cons d ds)
  show ?case
    unfolding traverse_list.simps wp_simps
    by (rule wp_cl, rule wp_mono [OF Cons.IH]) (auto simp: wp_simps)
qed

lemma pair_close_all:
  "wp mk_pair (\<lambda>(a, b). wp (traverse_list cl [a, b]) (\<lambda>_ w''. fds w'' = fds w)) w"
  by (rule wp_pair; simp only: split_conv; rule wp_mono [OF wp_close_all]) auto

end

context linux_fds
begin

lemma gneiss_socketpair_law:
  "wp (gneiss_socketpair K) (\<lambda>(a, b) w'.
      (a = -1 \<and> b = -1 \<and> fds w' = fds w) \<or>
      (0 \<le> a \<and> 0 \<le> b \<and> a \<noteq> b \<and> a \<notin> fds w \<and> b \<notin> fds w \<and> fds w' = {a, b} \<union> fds w)) w"
  unfolding gneiss_socketpair_def wp_simps
  by (rule wp_socketpair) (auto simp: wp_simps intro: wp_warn)

lemma gneiss_close_law:
  "wp (gneiss_close K d) (\<lambda>d' w'. d' < 0 \<and> fds w' = (if d < 0 then fds w else fds w - {d})) w"
proof (cases "d < 0")
  case False
  then show ?thesis
    unfolding gneiss_close_def by (simp add: wp_simps) (rule wp_close, auto intro: wp_warn)
qed (simp add: gneiss_close_def wp_simps)

lemma warned_open:
  "opens_one fds m \<Longrightarrow>
   opens_one fds (do { d \<leftarrow> m; _ \<leftarrow> whenM (d < 0) (k_warn K s); ret d })"
  unfolding opens_one_def [of _ "State_Monad.bind _ _"]
  by (intro allI, unfold wp_simps, rule wp_opens_one, assumption)
    (auto simp: wp_simps intro: wp_warn)

lemma gneiss_open_opens: "opens_one fds (gneiss_open K path writable)"
  unfolding gneiss_open_def by (rule warned_open [OF open_opens])

lemma gneiss_dup_opens: "opens_one fds (gneiss_dup K d)"
  unfolding gneiss_dup_def by (rule warned_open [OF dup_opens])

lemma gneiss_timerfd_create_opens: "opens_one fds (gneiss_timerfd_create K)"
  unfolding gneiss_timerfd_create_def by (rule warned_open [OF timerfd_opens])

lemma gneiss_memfd_seal_keeps [keeps_intros]: "keeps fds (gneiss_memfd_seal K d)"
  unfolding gneiss_memfd_seal_def by (intro keeps_intros)

lemma gneiss_write_message_keeps [keeps_intros]:
  "keeps fds (gneiss_write_message K sock msg sz ds num)"
  unfolding gneiss_write_message_def Let_def by (intro keeps_intros)

end

sublocale linux_fds \<subseteq> pf: platform_fds "gneiss_socketpair K" "gneiss_close K" fds
  by unfold_locales (rule gneiss_socketpair_law, rule gneiss_close_law)

context linux_fds
begin

lemmas socketpair_close_all = pf.pair_close_all

end


subsection \<open>Properties\<close>

lemma to_c_int_nonneg: "0 \<le> x \<Longrightarrow> x < 2 ^ 31 \<Longrightarrow> \<not> to_c_int x < 0"
  by (simp add: to_c_int_small)

lemma WEXITSTATUS_range: "0 \<le> WEXITSTATUS s" "WEXITSTATUS s \<le> 255"
proof -
  have "drop_bit 8 (s AND 0xff00) = drop_bit 8 s AND (0xff :: u32)"
    by (simp add: drop_bit_and)
  also have "\<dots> \<le> 0xff"
    by (rule word_and_le1)
  finally show "0 \<le> WEXITSTATUS s" "WEXITSTATUS s \<le> 255"
    by (simp_all add: WEXITSTATUS_def word_le_def)
qed

lemma length_copy_rights [simp]: "length (copy_rights num ctl h fd) = length fd"
  by (simp add: copy_rights_def)

lemma nth_copy_rights:
  assumes "cmsg_len h = CMSG_LEN (4 * length (cmsg_ints h))" "length (cmsg_ints h) \<le> num"
    "num \<le> length fd" "num \<le> length ctl" "i < length fd"
  shows "copy_rights num ctl h fd ! i =
    (if i < length (cmsg_ints h) then cmsg_ints h ! i
     else if i < min num (length (cmsg_ints h) + 4) then ctl ! i else fd ! i)"
proof -
  have "min (4 * num) (cmsg_len h) div 4 = min num (length (cmsg_ints h) + 4)"
    using assms(1) by (simp add: CMSG_LEN_def min_def)
  then show ?thesis
    using assms by (auto simp: copy_rights_def nth_overlay)
qed

text \<open>
  \<open>gneiss_close\<close> leaves its variable negative, and closing the variable again makes no
  system call: the world after the second call is the world after the first.
\<close>

theorem gneiss_close_once:
  "wp (gneiss_close K d) (\<lambda>d' w'. d' < 0 \<and> run_state (gneiss_close K d') w' = (d', w')) w"
  by (simp add: gneiss_close_def wp_simps) (simp add: wp_run)

text \<open>
  On a kernel with the documented descriptor behaviour, \<open>gneiss_socketpair\<close> returns two
  different fresh descriptors or \<open>(-1, -1)\<close> with no descriptor opened; closing both results
  with \<open>gneiss_close\<close> restores the descriptor table in either case.
\<close>

theorem gneiss_socketpair_balanced:
  assumes "linux_fds K fds"
  shows "wp (gneiss_socketpair K) (\<lambda>(a, b) w'.
      ((a = -1 \<and> b = -1 \<and> fds w' = fds w) \<or>
       (0 \<le> a \<and> 0 \<le> b \<and> a \<noteq> b \<and> a \<notin> fds w \<and> b \<notin> fds w \<and> fds w' = {a, b} \<union> fds w)) \<and>
      wp (traverse_list (gneiss_close K) [a, b]) (\<lambda>_ w''. fds w'' = fds w) w') w"
  using linux_fds.gneiss_socketpair_law [OF assms, of w]
    linux_fds.socketpair_close_all [OF assms, of w]
  by (simp add: wp_run split: prod.splits)


theorem gneiss_socketpair_balanced_witness:
  "result (gneiss_socketpair sim_posix) sim_init = (3, 4) \<and>
   wp (gneiss_socketpair sim_posix) (\<lambda>(a, b) w'.
      ((a = -1 \<and> b = -1 \<and> sim_fdset w' = sim_fdset sim_init) \<or>
       (0 \<le> a \<and> 0 \<le> b \<and> a \<noteq> b \<and> a \<notin> sim_fdset sim_init \<and> b \<notin> sim_fdset sim_init \<and>
        sim_fdset w' = {a, b} \<union> sim_fdset sim_init)) \<and>
      wp (traverse_list (gneiss_close sim_posix) [a, b]) (\<lambda>_ w''. sim_fdset w'' = sim_fdset sim_init) w')
    sim_init"
proof
  show "result (gneiss_socketpair sim_posix) sim_init = (3, 4)"
    by (simp add: gneiss_socketpair_def sim_posix_def sim_try_def sim_init_def sim_socketpair_def
        sim_fresh_def Let_def)
qed (rule gneiss_socketpair_balanced [OF sim_fds.linux_fds_axioms])

text \<open>
  \<open>gneiss_memfd_seal\<close> answers 0 or 1. When it answers 1 the descriptor carries the
  shrink, grow and seal seals (so no holder can resize it or lift the seals); when it
  answers 0 the seal-of-seals was not added by this call; no other descriptor's seals change.
\<close>

theorem gneiss_memfd_seal_correct:
  assumes "linux_seals K seals"
  shows "wp (gneiss_memfd_seal K d) (\<lambda>ok w'. (ok = 0 \<or> ok = 1) \<and>
      (ok = 1 \<longrightarrow> {F_SEAL_SHRINK, F_SEAL_GROW, F_SEAL_SEAL} \<subseteq> seals w' d) \<and>
      (ok = 0 \<longrightarrow> (F_SEAL_SEAL \<in> seals w' d \<longleftrightarrow> F_SEAL_SEAL \<in> seals w d)) \<and>
      (\<forall>e. e \<noteq> d \<longrightarrow> seals w' e = seals w e)) w"
  unfolding gneiss_memfd_seal_def wp_simps
  by (rule linux_seals.wp_add_seals [OF assms];
      simp add: linux_seals.wp_warn_seals [OF assms];
      rule linux_seals.wp_add_seals [OF assms];
      simp add: linux_seals.wp_warn_seals [OF assms];
      rule linux_seals.wp_add_seals [OF assms];
      simp add: linux_seals.wp_warn_seals [OF assms])

theorem gneiss_memfd_seal_correct_witness:
  "result (gneiss_memfd_seal sim_posix 5) sim_init = 1 \<and>
   wp (gneiss_memfd_seal sim_posix 5) (\<lambda>ok w'. (ok = 0 \<or> ok = 1) \<and>
      (ok = 1 \<longrightarrow> {F_SEAL_SHRINK, F_SEAL_GROW, F_SEAL_SEAL} \<subseteq> sim_sealset w' 5) \<and>
      (ok = 0 \<longrightarrow> (F_SEAL_SEAL \<in> sim_sealset w' 5 \<longleftrightarrow> F_SEAL_SEAL \<in> sim_sealset sim_init 5)) \<and>
      (\<forall>e. e \<noteq> 5 \<longrightarrow> sim_sealset w' e = sim_sealset sim_init e)) sim_init"
proof
  show "result (gneiss_memfd_seal sim_posix 5) sim_init = 1"
    by (simp add: gneiss_memfd_seal_def sim_posix_def sim_try_def sim_init_def sim_add_seals_def)
qed (rule gneiss_memfd_seal_correct [OF sim_seals.linux_seals_axioms])

text \<open>
  C10. What \<open>read_message\<close> stores in its descriptor array when the kernel delivered an
  \<open>SCM_RIGHTS\<close> message with fewer descriptors than the array holds: the delivered ones
  first, then up to four entries copied from the uninitialised rest of the control buffer
  (\<open>cmsg_len\<close> counts the 16 header bytes), and \<open>-1\<close> only behind those. Nothing behind the
  array is written.
\<close>

theorem read_message_rights:
  assumes "run_state (k_recvmsg K sock sz (CMSG_SPACE (4 * num)) fl) w = (r, w')"
    and "0 \<le> rcv_ret r" and "rcv_ret r < 2 ^ 31"
    and "rcv_cmsg r = Some h" and "is_rights h"
    and "cmsg_len h = CMSG_LEN (4 * length (cmsg_ints h))" and "length (cmsg_ints h) \<le> num"
    and "num \<le> length ds" and "num \<le> length ctl" and "i < length ds"
  shows "(case result (read_message K ctl sock msg sz ds num tr fl) w of (_, ds', _, _) \<Rightarrow> ds' ! i) =
    (if i < length (cmsg_ints h) then cmsg_ints h ! i
     else if i < min num (length (cmsg_ints h) + 4) then ctl ! i
     else if i < num then -1 else ds ! i)"
  using assms
  by (simp add: read_message_def Let_def to_c_int_small nth_copy_rights nth_append)

text \<open>The reference kernel with one queued message: three bytes and one descriptor.\<close>

definition one_right :: sim where
  "one_right = sim_init\<lparr>sim_fds := [3, 2, 1, 0], sim_queue := [(3, [1, 2, 3], [9])]\<rparr>"

theorem read_message_rights_witness:
  "(case result (read_message sim_posix [77, 88, 99, 66] 3 (replicate 16 0) 16 [0, 0, 0, 0] 4 0 0) one_right
    of (_, ds', _, _) \<Rightarrow> ds' ! 1) = 88"
proof -
  define h where "h = \<lparr>cmsg_len = CMSG_LEN 4, cmsg_level = SOL_SOCKET,
                       cmsg_type = SCM_RIGHTS, cmsg_ints = [4]\<rparr>"
  define r where "r = \<lparr>rcv_ret = 3, rcv_data = [1, 2, 3], rcv_flags = 0, rcv_cmsg = Some h\<rparr>"
  have run: "run_state (k_recvmsg sim_posix 3 16 (CMSG_SPACE (4 * 4)) 0) one_right =
    (r, one_right\<lparr>sim_queue := [], sim_fds := [4, 3, 2, 1, 0]\<rparr>)"
    by (simp add: r_def h_def sim_posix_def sim_recvmsg_def one_right_def sim_init_def Let_def
        sim_fresh_def)
  show ?thesis
    using read_message_rights [OF run, where h = h and i = 1 and ds = "[0, 0, 0, 0]" and tr = 0
        and ctl = "[77, 88, 99, 66]" and msg = "replicate 16 0"]
    by (simp add: r_def h_def is_rights_def)
qed

text \<open>
  Whatever the kernel answers: the exit status that \<open>gneiss_waitpid\<close> reports is a byte,
  \<open>gneiss_fstat_size\<close> stays in the range of a C \<open>int\<close>, \<open>gneiss_mmap\<close> never hands
  \<open>MAP_FAILED\<close> to its caller, and \<open>gneiss_munmap\<close> always clears the pointer.
\<close>

theorem syscall_results_in_range:
  "wp (gneiss_waitpid K pid st) (\<lambda>s _. 0 \<le> s \<and> s \<le> 255) w \<and>
   wp (gneiss_fstat_size K d) (\<lambda>n _. - (2 ^ 31) \<le> n \<and> n < 2 ^ 31) w \<and>
   wp (gneiss_mmap K d wr) (\<lambda>m _. m \<noteq> MAP_FAILED) w \<and>
   wp (gneiss_munmap K d a) (\<lambda>m _. m = null) w"
  using to_c_int_range WEXITSTATUS_range
  by (simp add: wp_run syscall_defs posix_constants split: prod.splits)

end
