(* ===== verification/Linux_Timer.thy ===== *)
theory Linux_Timer
  imports Linux_Syscall
begin

text \<open>
  Model of \<open>src/src/timer/client/linux/gneiss_timer_client.c\<close>. The arithmetic is done in the
  types of the C code: \<open>duration\<close> is \<open>unsigned long long\<close>, \<open>tv_sec\<close> and \<open>tv_nsec\<close>
  are 64-bit signed, \<open>NANO\<close> is an \<open>int\<close> constant.
\<close>

definition NANO :: int where
  "NANO = 1000000000"

text \<open>
  The time specification that \<open>gneiss_timer_set\<close> computes. \<open>duration / NANO\<close> is an unsigned
  division; \<open>its.it_value.tv_sec * NANO\<close> is a signed 64-bit product, subtracted from
  \<open>duration\<close> after conversion to unsigned.
\<close>

definition timer_spec :: "u64 \<Rightarrow> itimerspec" where
  "timer_spec duration =
     (let sec = duration div word_of_int NANO;
          nsec = duration - sec * word_of_int NANO
      in \<lparr> it_sec = sint sec, it_nsec = sint nsec \<rparr>)"

definition gneiss_timer_set :: "'w posix \<Rightarrow> fd \<Rightarrow> u64 \<Rightarrow> ('w, unit) state" where
  "gneiss_timer_set K d duration = do {
     r1 \<leftarrow> k_timerfd_settime K d \<lparr> it_sec = 0, it_nsec = 0 \<rparr>;
     _ \<leftarrow> whenM (r1 < 0) (k_warn K ''gneiss_timer_set'');
     r2 \<leftarrow> k_timerfd_settime K d (timer_spec duration);
     whenM (r2 < 0) (k_warn K ''gneiss_timer_set'')
   }"

text \<open>\<open>ts\<close> starts as \<open>{0, 0}\<close>, which a failing \<open>clock_gettime\<close> leaves there.\<close>

definition gneiss_timer_get :: "'w posix \<Rightarrow> fd \<Rightarrow> ('w, u64) state" where
  "gneiss_timer_get K d = do {
     (rc, sec, nsec) \<leftarrow> k_clock_gettime K (0, 0);
     _ \<leftarrow> whenM (rc < 0) (k_warn K ''gneiss_timer_get'');
     ret (word_of_int (sec * NANO + nsec))
   }"

definition gneiss_timer_read :: "'w posix \<Rightarrow> fd \<Rightarrow> ('w, unit) state" where
  "gneiss_timer_read K d = do {
     rc \<leftarrow> k_read8 K d;
     whenM (rc < 0) (k_warn K ''gneiss_timer_read'')
   }"

subsection \<open>Properties\<close>

lemma timer_spec_eq:
  "timer_spec duration = \<lparr> it_sec = uint duration div NANO, it_nsec = uint duration mod NANO \<rparr>"
proof -
  have nano: "uint (word_of_int NANO :: u64) = NANO"
    by (simp add: NANO_def)
  have q: "uint (duration div word_of_int NANO) = uint duration div NANO"
    by (simp add: uint_div nano)
  have le: "uint duration < 2 ^ 64"
    using uint_bounded [of duration] by simp
  have "duration - duration div word_of_int NANO * word_of_int NANO = duration mod word_of_int NANO"
    by (simp add: minus_div_mult_eq_mod)
  moreover have r: "uint (duration mod word_of_int NANO) = uint duration mod NANO"
    by (simp add: uint_mod nano)
  moreover have "uint duration div NANO < 2 ^ 63" "uint duration mod NANO < 2 ^ 63"
    using le by (simp_all add: NANO_def div_less_iff_less_mult)
  ultimately show ?thesis
    using q by (simp add: timer_spec_def Let_def sint_eq_uint_u64)
qed


text \<open>
  The specification armed by \<open>gneiss_timer_set\<close> is valid for \<open>timerfd_settime\<close>
  (\<open>0 \<le> tv_nsec < NANO\<close>), stands for exactly \<open>duration\<close> nanoseconds, and is the
  disarming value only for duration 0; the signed product \<open>tv_sec * NANO\<close> of the C code
  stays within \<open>long\<close> for every duration below 9223372037 seconds, which includes every
  value of the Ada type \<open>Duration\<close>.
\<close>

theorem timer_spec_correct:
  "0 \<le> it_sec (timer_spec duration) \<and>
   0 \<le> it_nsec (timer_spec duration) \<and> it_nsec (timer_spec duration) < NANO \<and>
   it_sec (timer_spec duration) * NANO + it_nsec (timer_spec duration) = uint duration \<and>
   (timer_spec duration = \<lparr> it_sec = 0, it_nsec = 0 \<rparr> \<longleftrightarrow> duration = 0) \<and>
   (it_sec (timer_spec duration) * NANO < 2 ^ 63 \<longleftrightarrow> uint duration < 9223372037 * NANO)"
proof -
  have z: "uint duration div NANO = 0 \<and> uint duration mod NANO = 0 \<longleftrightarrow> duration = 0"
    by (metis add_0 div_0 div_mult_mod_eq mod_0 mult_zero_left unsigned_eq_0_iff)
  have "q * NANO < 2 ^ 63 \<longleftrightarrow> q < 9223372037" for q
    by (auto simp: NANO_def)
  then have "uint duration div NANO * NANO < 2 ^ 63 \<longleftrightarrow> uint duration div NANO < 9223372037"
    by blast
  also have "\<dots> \<longleftrightarrow> uint duration < 9223372037 * NANO"
  proof -
    have "uint duration = uint duration div NANO * NANO + uint duration mod NANO"
      "0 \<le> uint duration mod NANO" "uint duration mod NANO < NANO"
      by (simp_all add: NANO_def)
    moreover have "q < 9223372037 \<longleftrightarrow> q * NANO + r < 9223372037 * NANO" if "0 \<le> r" "r < NANO" for q r
      using that unfolding NANO_def by linarith
    ultimately show ?thesis by metis
  qed
  finally show ?thesis
    using z by (simp add: timer_spec_eq) (simp add: NANO_def pos_imp_zdiv_nonneg_iff)
qed

text \<open>
  \<open>gneiss_timer_set\<close> always disarms the timer before it arms it: whatever the kernel
  answers, the world it leaves is the one after the disarming call, the optional warning,
  and the arming call with \<open>duration div NANO\<close> seconds and \<open>duration mod NANO\<close> nanoseconds.
\<close>

theorem gneiss_timer_set_rearms:
  "wp (gneiss_timer_set K d duration) (\<lambda>_ w'.
     wp (k_timerfd_settime K d \<lparr> it_sec = 0, it_nsec = 0 \<rparr>) (\<lambda>r1.
       wp (whenM (r1 < 0) (k_warn K ''gneiss_timer_set'')) (\<lambda>_.
         wp (k_timerfd_settime K d
               \<lparr> it_sec = uint duration div NANO, it_nsec = uint duration mod NANO \<rparr>) (\<lambda>r2.
           wp (whenM (r2 < 0) (k_warn K ''gneiss_timer_set'')) (\<lambda>_ w''. w' = w'')))) w) w"
  by (simp add: gneiss_timer_set_def wp_run timer_spec_eq split: prod.splits)

text \<open>
  \<open>gneiss_timer_get\<close> reads the monotonic clock in nanoseconds without loss: for a clock
  value below \<open>2 ^ 64\<close> nanoseconds the result is \<open>tv_sec * NANO + tv_nsec\<close>, and arming
  a timer with that result gives back the clock's seconds and nanoseconds.
\<close>

theorem gneiss_timer_get_exact:
  assumes "run_state (k_clock_gettime K (0, 0)) w = ((0, sec, nsec), w')"
    and "0 \<le> sec" and "0 \<le> nsec" and "nsec < NANO" and "sec * NANO + nsec < 2 ^ 64"
  shows "uint (result (gneiss_timer_get K d) w) = sec * NANO + nsec \<and>
    timer_spec (result (gneiss_timer_get K d) w) = \<lparr> it_sec = sec, it_nsec = nsec \<rparr>"
proof -
  have "0 \<le> sec * NANO + nsec"
    using assms(2,3) by (simp add: NANO_def)
  then have "uint (word_of_int (sec * NANO + nsec) :: u64) = sec * NANO + nsec"
    using assms(5) by (simp add: unsigned_of_int take_bit_int_eq_self del: of_int_add of_int_mult)
  then have u: "uint (result (gneiss_timer_get K d) w) = sec * NANO + nsec"
    using assms(1) by (simp add: gneiss_timer_get_def)
  then show ?thesis
    using assms(3,4) by (simp add: timer_spec_eq u NANO_def)
qed

theorem gneiss_timer_get_exact_witness:
  "uint (result (gneiss_timer_get sim_posix 3) (sim_init\<lparr>sim_clock := (5, 7)\<rparr>)) = 5 * NANO + 7"
proof -
  have "run_state (k_clock_gettime sim_posix (0, 0)) (sim_init\<lparr>sim_clock := (5, 7)\<rparr>) =
      ((0, 5, 7), sim_init\<lparr>sim_clock := (5, 7)\<rparr>)"
    by (simp add: sim_posix_def sim_try_def sim_init_def)
  from gneiss_timer_get_exact [OF this] show ?thesis
    by (simp add: NANO_def)
qed

end
