(* ===== verification/Linux_Epoll.thy ===== *)
theory Linux_Epoll
  imports Linux_Syscall
begin

text \<open>
  Model of \<open>src/src/platform/linux/epoll.c\<close> with the Ada binding
  \<open>gneiss_internal-epoll.ads\<close>/\<open>.adb\<close> on top of it, and of \<open>linker.c\<close>. The event mask of
  the C side is read on the Ada side through a record representation clause; both readings
  are modelled and shown to agree.
\<close>

subsection \<open>epoll.c\<close>

text \<open>The union \<open>epoll_data\<close>: the member \<open>fd\<close> occupies its low 32 bits.\<close>

definition data_of_fd :: "fd \<Rightarrow> u64" where
  "data_of_fd d = ucast (word_of_int d :: u32)"

definition fd_of_data :: "u64 \<Rightarrow> fd" where
  "fd_of_data x = sint (ucast x :: u32)"

definition gneiss_epoll_create :: "'w posix \<Rightarrow> ('w, fd) state" where
  "gneiss_epoll_create K = do {
     efd \<leftarrow> k_epoll_create1 K;
     _ \<leftarrow> whenM (efd < 0) (k_warn K ''gneiss_epoll_create: epoll_create1'');
     ret efd
   }"

text \<open>The macro \<open>gneiss_epoll_add(name, type)\<close>, with the data member already stored.\<close>

definition gneiss_epoll_add :: "'w posix \<Rightarrow> fd \<Rightarrow> fd \<Rightarrow> u64 \<Rightarrow> ('w, int) state" where
  "gneiss_epoll_add K efd d priv = do {
     success \<leftarrow> k_epoll_ctl K efd EPOLL_CTL_ADD d
       (Some \<lparr> ev_events = EPOLLRDHUP OR EPOLLIN, ev_data = priv \<rparr>);
     _ \<leftarrow> whenM (success < 0) (k_warn K ''gneiss_epoll_add: epoll_ctl'');
     ret success
   }"

definition gneiss_epoll_add_fd :: "'w posix \<Rightarrow> fd \<Rightarrow> fd \<Rightarrow> fd \<Rightarrow> ('w, int) state" where
  "gneiss_epoll_add_fd K efd d priv = gneiss_epoll_add K efd d (data_of_fd priv)"

definition gneiss_epoll_add_ptr :: "'w posix \<Rightarrow> fd \<Rightarrow> fd \<Rightarrow> addr \<Rightarrow> ('w, int) state" where
  "gneiss_epoll_add_ptr K efd d priv = gneiss_epoll_add K efd d priv"

definition gneiss_epoll_remove :: "'w posix \<Rightarrow> fd \<Rightarrow> fd \<Rightarrow> ('w, int) state" where
  "gneiss_epoll_remove K efd d = do {
     success \<leftarrow> k_epoll_ctl K efd EPOLL_CTL_DEL d None;
     _ \<leftarrow> whenM (success < 0) (k_warn K ''gneiss_epoll_remove: epoll_ctl'');
     ret success
   }"

text \<open>The macro \<open>gneiss_epoll_wait(name, type)\<close>: the event starts out empty.\<close>

definition gneiss_epoll_wait :: "'w posix \<Rightarrow> fd \<Rightarrow> ('w, u32 \<times> u64) state" where
  "gneiss_epoll_wait K efd = do {
     (rc, eev) \<leftarrow> k_epoll_wait K efd \<lparr> ev_events = 0, ev_data = 0 \<rparr>;
     _ \<leftarrow> whenM (rc < 0) (k_warn K ''gneiss_epoll_wait: epoll_wait'');
     ret (ev_events eev, ev_data eev)
   }"

definition gneiss_epoll_wait_fd :: "'w posix \<Rightarrow> fd \<Rightarrow> ('w, u32 \<times> fd) state" where
  "gneiss_epoll_wait_fd K efd = do {
     (ev, x) \<leftarrow> gneiss_epoll_wait K efd;
     ret (ev, fd_of_data x)
   }"

definition gneiss_epoll_wait_ptr :: "'w posix \<Rightarrow> fd \<Rightarrow> ('w, u32 \<times> addr) state" where
  "gneiss_epoll_wait_ptr K efd = gneiss_epoll_wait K efd"

subsection \<open>linker.c\<close>

definition gneiss_dlopen :: "'w posix \<Rightarrow> string \<Rightarrow> ('w, addr) state" where
  "gneiss_dlopen K file = do {
     handle \<leftarrow> k_dlopen K file;
     _ \<leftarrow> whenM (handle = null) (k_fputs K ''gneiss_dlopen: dlopen'');
     ret handle
   }"

definition gneiss_dlsym :: "'w posix \<Rightarrow> addr \<Rightarrow> string \<Rightarrow> ('w, addr) state" where
  "gneiss_dlsym K handle name = k_dlsym K handle name"

subsection \<open>The Ada view of an event\<close>

datatype event_type = Epoll_Ev | Epoll_Er

record event =
  Epoll_In :: bool
  Epoll_Pri :: bool
  Epoll_Out :: bool
  Epoll_Rdnorm :: bool
  Epoll_Rdband :: bool
  Epoll_Wrnorm :: bool
  Epoll_Wrband :: bool
  Epoll_Msg :: bool
  Epoll_Err :: bool
  Epoll_Hup :: bool
  Epoll_Rdhup :: bool
  Epoll_Exclusive :: bool
  Epoll_Wakeup :: bool
  Epoll_Oneshot :: bool
  Epoll_Et :: bool

text \<open>The representation clause: which bit of the 32-bit mask each component reads.\<close>

definition event_of_mask :: "u32 \<Rightarrow> event" where
  "event_of_mask m = \<lparr>
     Epoll_In = bit m 0, Epoll_Pri = bit m 1, Epoll_Out = bit m 2,
     Epoll_Rdnorm = bit m 6, Epoll_Rdband = bit m 7, Epoll_Wrnorm = bit m 8,
     Epoll_Wrband = bit m 9, Epoll_Msg = bit m 10, Epoll_Err = bit m 3,
     Epoll_Hup = bit m 4, Epoll_Rdhup = bit m 13, Epoll_Exclusive = bit m 28,
     Epoll_Wakeup = bit m 29, Epoll_Oneshot = bit m 30, Epoll_Et = bit m 31 \<rparr>"

definition Get_Type :: "event \<Rightarrow> event_type" where
  "Get_Type e = (if Epoll_Hup e \<or> Epoll_Err e \<or> Epoll_Rdhup e then Epoll_Er else Epoll_Ev)"

text \<open>\<open>Gneiss_Internal.Epoll.Add\<close>, \<open>Remove\<close> and \<open>Wait\<close>: the C results read as Booleans and events.\<close>

definition Epoll_Add :: "'w posix \<Rightarrow> fd \<Rightarrow> fd \<Rightarrow> int \<Rightarrow> ('w, bool) state" where
  "Epoll_Add K efd d index = do { r \<leftarrow> gneiss_epoll_add_fd K efd d index; ret (r = 0) }"

definition Epoll_Add_Ptr :: "'w posix \<Rightarrow> fd \<Rightarrow> fd \<Rightarrow> addr \<Rightarrow> ('w, bool) state" where
  "Epoll_Add_Ptr K efd d ptr = do { r \<leftarrow> gneiss_epoll_add_ptr K efd d ptr; ret (r = 0) }"

definition Epoll_Remove :: "'w posix \<Rightarrow> fd \<Rightarrow> fd \<Rightarrow> ('w, bool) state" where
  "Epoll_Remove K efd d = do { r \<leftarrow> gneiss_epoll_remove K efd d; ret (r = 0) }"

definition Epoll_Wait :: "'w posix \<Rightarrow> fd \<Rightarrow> ('w, event \<times> int) state" where
  "Epoll_Wait K efd = do { (ev, index) \<leftarrow> gneiss_epoll_wait_fd K efd; ret (event_of_mask ev, index) }"

definition Epoll_Wait_Ptr :: "'w posix \<Rightarrow> fd \<Rightarrow> ('w, event \<times> addr) state" where
  "Epoll_Wait_Ptr K efd = do { (ev, ptr) \<leftarrow> gneiss_epoll_wait_ptr K efd; ret (event_of_mask ev, ptr) }"

subsection \<open>Properties\<close>

lemma ucast_ucast_u32: "(ucast (ucast (x :: u32) :: u64) :: u32) = x"
  by (rule bit_word_eqI) (simp add: bit_unsigned_iff)

lemma fd_of_data_of_fd: "- (2 ^ 31) \<le> d \<Longrightarrow> d < 2 ^ 31 \<Longrightarrow> fd_of_data (data_of_fd d) = d"
proof -
  assume "- (2 ^ 31) \<le> d" "d < 2 ^ 31"
  then have "sint (word_of_int d :: u32) = d"
    by (simp add: signed_of_int signed_take_bit_int_eq_self_iff)
  then show ?thesis
    by (simp add: fd_of_data_def data_of_fd_def ucast_ucast_u32)
qed

text \<open>The mask that \<open>gneiss_epoll_add\<close> registers, seen through the Ada record.\<close>

lemma registered_mask:
  "event_of_mask (EPOLLRDHUP OR EPOLLIN) =
   (event_of_mask 0)\<lparr> Epoll_In := True, Epoll_Rdhup := True \<rparr>"
  by (simp add: event_of_mask_def posix_constants bit_numeral_rec)

context linux_fds
begin

lemma gneiss_epoll_create_opens: "opens_one fds (gneiss_epoll_create K)"
  unfolding gneiss_epoll_create_def by (rule warned_open [OF epoll_opens])

lemma Epoll_Add_keeps [keeps_intros]: "keeps fds (Epoll_Add K efd d index)"
  unfolding Epoll_Add_def gneiss_epoll_add_fd_def gneiss_epoll_add_def by (intro keeps_intros)

lemma Epoll_Remove_keeps [keeps_intros]: "keeps fds (Epoll_Remove K efd d)"
  unfolding Epoll_Remove_def gneiss_epoll_remove_def by (intro keeps_intros)

end

text \<open>
  The component event loop treats a mask as an error exactly when the kernel set
  \<open>EPOLLERR\<close> (0x8), \<open>EPOLLHUP\<close> (0x10) or \<open>EPOLLRDHUP\<close> (0x2000): the Ada representation
  clause and \<open>Get_Type\<close> agree with the bits of the Linux headers.
\<close>

theorem Get_Type_mask:
  "Get_Type (event_of_mask m) = (if m AND 0x2018 = 0 then Epoll_Ev else Epoll_Er)"
proof -
  have split: "m AND 0x2018 = m AND push_bit 3 1 OR m AND push_bit 4 1 OR m AND push_bit 13 1"
    by (simp flip: bit.conj_disj_distrib)
  have "m AND 0x2018 = 0 \<longleftrightarrow> \<not> bit m 3 \<and> \<not> bit m 4 \<and> \<not> bit m 13"
    unfolding split or_eq_0_iff bit_iff_and_push_bit_not_eq_0 [of m] by blast
  then show ?thesis
    by (simp add: Get_Type_def event_of_mask_def)
qed

text \<open>
  A descriptor registered with \<open>gneiss_epoll_add_fd\<close> comes back from
  \<open>gneiss_epoll_wait_fd\<close>: if the kernel returns the data word that was registered for
  \<open>priv\<close> with the mask \<open>ev\<close>, the broker sees the event \<open>ev\<close> and the index \<open>priv\<close>.
\<close>

theorem epoll_wait_returns_registered:
  assumes "run_state (k_epoll_wait K efd \<lparr> ev_events = 0, ev_data = 0 \<rparr>) w =
      ((rc, \<lparr> ev_events = ev, ev_data = data_of_fd priv \<rparr>), w')"
    and "0 \<le> rc" and "- (2 ^ 31) \<le> priv" and "priv < 2 ^ 31"
  shows "run_state (Epoll_Wait K efd) w = ((event_of_mask ev, priv), w')"
  using assms
  by (simp add: Epoll_Wait_def gneiss_epoll_wait_fd_def gneiss_epoll_wait_def fd_of_data_of_fd)

theorem epoll_wait_returns_registered_witness:
  "result (Epoll_Wait sim_posix 3)
     (sim_init\<lparr>sim_events := [\<lparr>ev_events = 1, ev_data = data_of_fd 7\<rparr>]\<rparr>) = (event_of_mask 1, 7)"
proof -
  have "run_state (k_epoll_wait sim_posix 3 \<lparr> ev_events = 0, ev_data = 0 \<rparr>)
      (sim_init\<lparr>sim_events := [\<lparr>ev_events = 1, ev_data = data_of_fd 7\<rparr>]\<rparr>) =
      ((1, \<lparr> ev_events = 1, ev_data = data_of_fd 7 \<rparr>), sim_init)"
    by (simp add: sim_posix_def sim_init_def)
  from epoll_wait_returns_registered [OF this] show ?thesis by simp
qed

end
