(* ===== verification/Linux_Channels.thy ===== *)
theory Linux_Channels
  imports Linux_Syscall
begin

text \<open>
  The data paths of message and memory sessions on Linux: \<open>gneiss_message.c\<close> with the calls
  that \<open>gneiss-message-client.adb\<close>, \<open>gneiss-message-server.adb\<close> and
  \<open>gneiss-message-dispatcher.adb\<close> make to it, and \<open>gneiss_memory_client.c\<close>.
\<close>

subsection \<open>gneiss_message.c\<close>

definition gneiss_message_write :: "'w posix \<Rightarrow> fd \<Rightarrow> bytes \<Rightarrow> nat \<Rightarrow> ('w, unit) state" where
  "gneiss_message_write K d msg sz = do {
     rc \<leftarrow> k_send K d (take sz msg) MSG_DONTWAIT;
     whenM (rc < 0) (k_warn K ''gneiss_message_write'')
   }"

text \<open>\<open>msg\<close> is the memory that starts at the pointer argument; the result is its new content.\<close>

definition gneiss_message_read :: "'w posix \<Rightarrow> fd \<Rightarrow> bytes \<Rightarrow> nat \<Rightarrow> ('w, bytes) state" where
  "gneiss_message_read K d msg sz = do {
     (rc, bs) \<leftarrow> k_recv K d sz (MSG_DONTWAIT OR MSG_TRUNC);
     if rc < 0 then do { _ \<leftarrow> k_warn K ''gneiss_message_read''; ret msg }
     else ret (overlay bs msg)
   }"

definition gneiss_message_peek :: "'w posix \<Rightarrow> fd \<Rightarrow> ('w, int) state" where
  "gneiss_message_peek K d = do {
     (rc, _) \<leftarrow> k_recv K d 0 (MSG_DONTWAIT OR MSG_TRUNC OR MSG_PEEK);
     ret (to_c_int rc)
   }"

subsection \<open>The Ada callers\<close>

text \<open>
  \<open>Message_Buffer'Size\<close>, which \<open>Initialize\<close> compares with \<open>128 * 8\<close>: the Ada attribute
  counts bits. The object itself occupies 128 bytes.
\<close>

definition Message_Buffer_Size :: nat where
  "Message_Buffer_Size = 128 * 8"

definition buffer_bytes :: nat where
  "buffer_bytes = 128"

text \<open>
  \<open>Write\<close> passes \<open>Content'Address\<close> and \<open>Content'Size * 8\<close> to C. \<open>adjacent\<close> is the
  memory that follows the buffer object.
\<close>

definition Message_Write :: "'w posix \<Rightarrow> fd \<Rightarrow> bytes \<Rightarrow> bytes \<Rightarrow> ('w, unit) state" where
  "Message_Write K d content adjacent =
     gneiss_message_write K d (content @ adjacent) (Message_Buffer_Size * 8)"

definition Message_Read :: "'w posix \<Rightarrow> fd \<Rightarrow> bytes \<Rightarrow> bytes \<Rightarrow> ('w, bytes \<times> bytes) state" where
  "Message_Read K d content adjacent = do {
     mem \<leftarrow> gneiss_message_read K d (content @ adjacent) (Message_Buffer_Size * 8);
     ret (take (length content) mem, drop (length content) mem)
   }"

definition Message_Available :: "'w posix \<Rightarrow> fd \<Rightarrow> ('w, bool) state" where
  "Message_Available K d = do {
     n \<leftarrow> gneiss_message_peek K d;
     ret (n \<ge> int (Message_Buffer_Size * 8))
   }"

subsection \<open>gneiss_memory_client.c\<close>

definition gneiss_memfd_create :: "'w posix \<Rightarrow> string \<Rightarrow> u64 \<Rightarrow> ('w, fd) state" where
  "gneiss_memfd_create K name sz = do {
     d \<leftarrow> k_memfd_create K name MFD_ALLOW_SEALING;
     if d < 0 then do { _ \<leftarrow> k_warn K ''gneiss_memfd_create: memfd_create''; ret d }
     else do {
       rc \<leftarrow> k_ftruncate K d sz;
       if rc < 0 then do {
         _ \<leftarrow> k_warn K ''gneiss_memfd_create: ftruncate'';
         _ \<leftarrow> k_close K d;
         ret (-1)
       } else ret d
     }
   }"

subsection \<open>Properties\<close>

context linux_fds
begin

lemma wp_ftruncate: "(\<And>r w'. fds w' = fds w \<Longrightarrow> Q r w') \<Longrightarrow> wp (k_ftruncate K d n) Q w"
  by (rule keeps_wpI [OF ftruncate_keeps])

lemma gneiss_memfd_create_opens: "opens_one fds (gneiss_memfd_create K name sz)"
  unfolding opens_one_def gneiss_memfd_create_def wp_simps
  by (intro allI, rule wp_opens_one [OF memfd_opens])
    (auto intro!: wp_warn wp_ftruncate wp_close)

end

text \<open>
  \<open>gneiss_memfd_create\<close> never leaks a descriptor: it returns a fresh descriptor that is
  the only new one, or a negative value with the descriptor table as before, also when
  \<open>ftruncate\<close> fails after the file was created.
\<close>

theorem gneiss_memfd_create_no_leak:
  assumes "linux_fds K fds"
  shows "wp (gneiss_memfd_create K name sz) (\<lambda>d w'.
     (d < 0 \<and> fds w' = fds w) \<or> (0 \<le> d \<and> d \<notin> fds w \<and> fds w' = insert d (fds w))) w"
  using linux_fds.gneiss_memfd_create_opens [OF assms] by (simp add: opens_one_def)

theorem gneiss_memfd_create_no_leak_witness:
  "result (gneiss_memfd_create sim_posix ''m'' 64) (sim_init\<lparr>sim_fail := [False, True]\<rparr>) = -1 \<and>
   wp (gneiss_memfd_create sim_posix ''m'' 64) (\<lambda>d w'.
     (d < 0 \<and> sim_fdset w' = sim_fdset (sim_init\<lparr>sim_fail := [False, True]\<rparr>)) \<or>
     (0 \<le> d \<and> d \<notin> sim_fdset (sim_init\<lparr>sim_fail := [False, True]\<rparr>) \<and>
      sim_fdset w' = insert d (sim_fdset (sim_init\<lparr>sim_fail := [False, True]\<rparr>))))
    (sim_init\<lparr>sim_fail := [False, True]\<rparr>)"
proof
  show "result (gneiss_memfd_create sim_posix ''m'' 64) (sim_init\<lparr>sim_fail := [False, True]\<rparr>) = -1"
    by (simp add: gneiss_memfd_create_def sim_posix_def sim_try_def sim_init_def sim_open_def
        sim_close_def sim_fresh_def)
qed (rule gneiss_memfd_create_no_leak [OF sim_fds.linux_fds_axioms])



text \<open>
  Receiving such a message restores the sender's 128 bytes in the receiver's buffer, and
  overwrites the memory behind the receiver's buffer with the sender's adjacent bytes.
\<close>

theorem Message_Read_overwrites:
  assumes "run_state (k_recv K d (Message_Buffer_Size * 8) (MSG_DONTWAIT OR MSG_TRUNC)) w =
      ((rc, sent @ extra), w')"
    and "0 \<le> rc" and "length sent = length content"
  shows "run_state (Message_Read K d content adjacent) w = ((sent, overlay extra adjacent), w')"
  using assms
  by (simp add: Message_Read_def gneiss_message_read_def overlay_append_same)


text \<open>The reference kernel with a 130-byte message waiting at descriptor 3.\<close>

definition long_message :: sim where
  "long_message = sim_init\<lparr>sim_queue := [(3, replicate 128 1 @ [2, 2], [])]\<rparr>"

theorem Message_Read_overwrites_witness:
  "result (Message_Read sim_posix 3 (replicate 128 0) [0, 0, 7]) long_message =
   (replicate 128 1, [2, 2, 7])"
proof -
  have "run_state (k_recv sim_posix 3 (Message_Buffer_Size * 8) (MSG_DONTWAIT OR MSG_TRUNC)) long_message =
      ((130, replicate 128 1 @ [2, 2]), long_message\<lparr>sim_queue := []\<rparr>)"
    by (simp add: sim_posix_def sim_recvmsg_def long_message_def sim_init_def Let_def
        Message_Buffer_Size_def posix_constants)
  from Message_Read_overwrites [OF this, of "replicate 128 0" "[0, 0, 7]"] show ?thesis
    by (simp add: overlay_def)
qed

end
