(* ===== verification/Linux_Block.thy ===== *)
theory Linux_Block
  imports Gneiss_Prelude
begin

text \<open>
  Model of the Linux block client: \<open>src/src/block/client/linux/block_client.h\<close> and
  \<open>block_client.c\<close>, with the Ada wrapper \<open>gneiss-block-client.adb\<close> and \<open>gneiss-block.adb\<close>
  (Linux). The C library (memory, POSIX asynchronous I/O, files) is the parameter \<open>aio\<close>.
  A pointer to a \<open>struct aiocb\<close> is modelled as the structure together with its address:
  every control block belongs to exactly one request (requests are limited in Ada and
  cannot be copied). Dereferencing a null control block is undefined behaviour in C and
  \<open>None\<close> here.
\<close>

subsection \<open>block_client.h\<close>

definition CAI_BLOCK_NONE :: u32 where "CAI_BLOCK_NONE = 0"
definition CAI_BLOCK_READ :: u32 where "CAI_BLOCK_READ = 1"
definition CAI_BLOCK_WRITE :: u32 where "CAI_BLOCK_WRITE = 2"
definition CAI_BLOCK_SYNC :: u32 where "CAI_BLOCK_SYNC = 3"
definition CAI_BLOCK_TRIM :: u32 where "CAI_BLOCK_TRIM = 4"

definition CAI_BLOCK_RAW :: u32 where "CAI_BLOCK_RAW = 0"
definition CAI_BLOCK_ALLOCATED :: u32 where "CAI_BLOCK_ALLOCATED = 1"
definition CAI_BLOCK_PENDING :: u32 where "CAI_BLOCK_PENDING = 2"
definition CAI_BLOCK_OK :: u32 where "CAI_BLOCK_OK = 3"
definition CAI_BLOCK_ERROR :: u32 where "CAI_BLOCK_ERROR = 4"

lemmas block_constants =
  CAI_BLOCK_NONE_def CAI_BLOCK_READ_def CAI_BLOCK_WRITE_def CAI_BLOCK_SYNC_def CAI_BLOCK_TRIM_def
  CAI_BLOCK_RAW_def CAI_BLOCK_ALLOCATED_def CAI_BLOCK_PENDING_def CAI_BLOCK_OK_def
  CAI_BLOCK_ERROR_def

datatype lio_opcode = LIO_READ | LIO_WRITE

record aiocb =
  cb_self :: addr
  aio_fildes :: fd
  aio_offset :: int
  aio_nbytes :: u64
  aio_lio_opcode :: lio_opcode
  aio_buf :: addr

record request =
  r_kind :: u32
  r_tag :: u32
  r_start :: u64
  r_length :: u64
  r_status :: u32
  r_aio_cb :: "aiocb option"
  r_session :: u32

record block_client =
  c_event :: addr
  c_rw :: addr
  c_fd :: fd
  c_writable :: int
  c_block_size :: u64
  c_block_count :: u64
  c_tag :: u32

subsection \<open>The C library calls of block_client.c\<close>

definition EINPROGRESS :: int where "EINPROGRESS = 115"
definition sizeof_aiocb :: u64 where "sizeof_aiocb = 168"
definition O_RDWR_NOFOLLOW :: u32 where "O_RDWR_NOFOLLOW = 0x20002"
definition O_RDONLY_NOFOLLOW :: u32 where "O_RDONLY_NOFOLLOW = 0x20000"

datatype file_kind = S_REG | S_BLK | S_OTHER

record stat =
  st_kind :: file_kind
  st_size :: int
  st_blksize :: int

text \<open>
  The three \<open>ioctl\<close> requests: the sector size is written as a C \<open>int\<close> (32 bits), the device
  size as 64 bits, the read-only flag as an \<open>int\<close>; \<open>None\<close> when the call fails and writes
  nothing.
\<close>

record 'w aio =
  a_malloc :: "u64 \<Rightarrow> ('w, addr) state"
  a_free :: "addr \<Rightarrow> ('w, unit) state"
  a_memset0 :: "addr \<Rightarrow> u64 \<Rightarrow> ('w, unit) state"
  a_error :: "aiocb \<Rightarrow> ('w, int) state"
  a_return :: "aiocb \<Rightarrow> ('w, int) state"
  a_read :: "aiocb \<Rightarrow> ('w, int) state"
  a_write :: "aiocb \<Rightarrow> ('w, int) state"
  a_cancel :: "fd \<Rightarrow> addr \<Rightarrow> ('w, int) state"
  a_open :: "string \<Rightarrow> u32 \<Rightarrow> ('w, fd) state"
  a_close :: "fd \<Rightarrow> ('w, int) state"
  a_fstat :: "fd \<Rightarrow> ('w, int \<times> stat) state"
  a_ioctl_ssz :: "fd \<Rightarrow> ('w, u32 option) state"
  a_ioctl_size64 :: "fd \<Rightarrow> ('w, u64 option) state"
  a_ioctl_ro :: "fd \<Rightarrow> ('w, u32 option) state"
  a_perror :: "string \<Rightarrow> ('w, unit) state"

subsection \<open>block_client.c\<close>

text \<open>The \<open>switch(request->kind)\<close> of \<open>block_client_allocate_request\<close>.\<close>

definition opcode_of_kind :: "u32 \<Rightarrow> lio_opcode option" where
  "opcode_of_kind k = (if k = 1 then Some LIO_READ else if k = 2 then Some LIO_WRITE else None)"

definition block_client_allocate_request ::
  "'w aio \<Rightarrow> block_client \<Rightarrow> request \<Rightarrow> ('w, request \<times> int) state" where
  "block_client_allocate_request A client request0 = do {
     let request = request0\<lparr>r_status := CAI_BLOCK_RAW\<rparr>;
     case opcode_of_kind (r_kind request) of
       None \<Rightarrow> ret (request, 0)
     | Some aio_opcode \<Rightarrow> do {
         let nbytes = r_length request * c_block_size client;
         cb \<leftarrow> a_malloc A sizeof_aiocb;
         buffer \<leftarrow> a_malloc A nbytes;
         if cb = null \<or> buffer = null then do {
           _ \<leftarrow> a_free A cb;
           _ \<leftarrow> a_free A buffer;
           ret (request, 2)
         } else do {
           _ \<leftarrow> a_memset0 A cb sizeof_aiocb;
           _ \<leftarrow> a_memset0 A buffer nbytes;
           ret (request\<lparr>r_aio_cb := Some \<lparr> cb_self = cb, aio_fildes = c_fd client,
                          aio_offset = sint (r_start request * c_block_size client),
                          aio_nbytes = nbytes, aio_lio_opcode = aio_opcode, aio_buf = buffer \<rparr>,
                        r_status := CAI_BLOCK_ALLOCATED\<rparr>, 0)
         }
       }
   }"

definition block_client_update_request ::
  "'w aio \<Rightarrow> block_client \<Rightarrow> request \<Rightarrow> ('w, request option) state" where
  "block_client_update_request A client request = (case r_aio_cb request of
       None \<Rightarrow> ret None
     | Some cb \<Rightarrow> do {
         e \<leftarrow> a_error A cb;
         if e \<noteq> EINPROGRESS then do {
           n \<leftarrow> a_return A cb;
           ret (Some (request\<lparr>r_status := (if word_of_int n = aio_nbytes cb then CAI_BLOCK_OK
                                           else CAI_BLOCK_ERROR)\<rparr>))
         } else ret (Some request)
       })"

definition block_client_finalize :: "'w aio \<Rightarrow> block_client \<Rightarrow> ('w, block_client) state" where
  "block_client_finalize A client = do {
     _ \<leftarrow> a_cancel A (c_fd client) null;
     _ \<leftarrow> a_close A (c_fd client);
     ret client
   }"

text \<open>The low 32 bits of a 64-bit field, as written through an \<open>int\<close> pointer (little endian).\<close>

definition store_low32 :: "u64 \<Rightarrow> u32 \<Rightarrow> u64" where
  "store_low32 old v = (old AND NOT (mask 32)) OR ucast v"

text \<open>
  The metadata part of \<open>block_client_initialize\<close> for an open descriptor. \<open>bytes0\<close> and
  \<open>ro0\<close> are the indeterminate values of the locals \<open>bytes\<close> and \<open>ro\<close>.
\<close>

definition block_client_metadata ::
  "'w aio \<Rightarrow> u64 \<Rightarrow> u32 \<Rightarrow> block_client \<Rightarrow> ('w, block_client) state" where
  "block_client_metadata A bytes0 ro0 client = do {
     (rc, st) \<leftarrow> a_fstat A (c_fd client);
     if rc = 0 then
       (case st_kind st of
          S_REG \<Rightarrow> ret (client\<lparr>c_block_size := word_of_int (st_blksize st),
                              c_block_count := word_of_int (st_size st div st_blksize st)\<rparr>)
        | S_BLK \<Rightarrow> do {
            ssz \<leftarrow> a_ioctl_ssz A (c_fd client);
            let block_size = (case ssz of None \<Rightarrow> c_block_size client
                              | Some v \<Rightarrow> store_low32 (c_block_size client) v);
            sz \<leftarrow> a_ioctl_size64 A (c_fd client);
            let bytes = (case sz of None \<Rightarrow> bytes0 | Some v \<Rightarrow> v);
            rov \<leftarrow> a_ioctl_ro A (c_fd client);
            let ro = (case rov of None \<Rightarrow> ro0 | Some v \<Rightarrow> v);
            ret (client\<lparr>c_block_size := block_size, c_block_count := bytes div block_size,
                        c_writable := (if ro = 0 then 1 else 0)\<rparr>)
          }
        | S_OTHER \<Rightarrow> do {
            _ \<leftarrow> a_perror A ''Unsupported file type'';
            block_client_finalize A client
          })
     else do {
       _ \<leftarrow> a_perror A ''failed to get device meta data'';
       block_client_finalize A client
     }
   }"

definition block_client_initialize ::
  "'w aio \<Rightarrow> u64 \<Rightarrow> u32 \<Rightarrow> block_client \<Rightarrow> string \<Rightarrow> addr \<Rightarrow> addr \<Rightarrow> ('w, block_client) state" where
  "block_client_initialize A bytes0 ro0 client0 path event rw = do {
     d1 \<leftarrow> a_open A path O_RDWR_NOFOLLOW;
     client \<leftarrow> (if d1 < 0 then do {
         d2 \<leftarrow> a_open A path O_RDONLY_NOFOLLOW;
         ret (client0\<lparr>c_fd := d2, c_writable := 0\<rparr>)
       } else ret (client0\<lparr>c_fd := d1, c_writable := 1\<rparr>));
     if 0 \<le> c_fd client then do {
       client' \<leftarrow> block_client_metadata A bytes0 ro0 client;
       ret (client'\<lparr>c_event := event, c_rw := rw\<rparr>)
     } else do {
       _ \<leftarrow> a_perror A path;
       block_client_finalize A client
     }
   }"

definition block_client_enqueue ::
  "'w aio \<Rightarrow> block_client \<Rightarrow> request \<Rightarrow> ('w, request option) state" where
  "block_client_enqueue A client request = do {
     status \<leftarrow>
       (if r_kind request = CAI_BLOCK_WRITE then
          (case r_aio_cb request of None \<Rightarrow> ret None
           | Some cb \<Rightarrow> do { s \<leftarrow> a_write A cb; ret (Some s) })
        else if r_kind request = CAI_BLOCK_READ then
          (case r_aio_cb request of None \<Rightarrow> ret None
           | Some cb \<Rightarrow> do { s \<leftarrow> a_read A cb; ret (Some s) })
        else ret (Some 1));
     case status of
       None \<Rightarrow> ret None
     | Some s \<Rightarrow>
         if s = 0 then ret (Some (request\<lparr>r_status := CAI_BLOCK_PENDING\<rparr>))
         else do {
           _ \<leftarrow> whenM (s < 0) (a_perror A ''aio_read|aio_write failed'');
           ret (Some request)
         }
   }"

definition block_client_submit :: "block_client \<Rightarrow> ('w, unit) state" where
  "block_client_submit client = ret ()"

text \<open>\<open>client->rw\<close> is the callback that the Ada side installed; here it is the argument \<open>rw\<close>.\<close>

definition block_client_read_write ::
  "(block_client \<Rightarrow> request \<Rightarrow> addr \<Rightarrow> ('w, unit) state) \<Rightarrow> block_client \<Rightarrow> request \<Rightarrow>
   ('w, unit option) state" where
  "block_client_read_write rw client request = (case r_aio_cb request of
       None \<Rightarrow> ret None
     | Some cb \<Rightarrow> do { _ \<leftarrow> rw client request (aio_buf cb); ret (Some ()) })"

definition zero_request :: request where
  "zero_request = \<lparr> r_kind = 0, r_tag = 0, r_start = 0, r_length = 0, r_status = 0,
                    r_aio_cb = None, r_session = 0 \<rparr>"

definition block_client_release ::
  "'w aio \<Rightarrow> block_client \<Rightarrow> request \<Rightarrow> ('w, request) state" where
  "block_client_release A client request = do {
     _ \<leftarrow> (case r_aio_cb request of
            None \<Rightarrow> a_free A null
          | Some cb \<Rightarrow> do {
              _ \<leftarrow> a_cancel A (c_fd client) (cb_self cb);
              _ \<leftarrow> a_free A (aio_buf cb);
              a_free A (cb_self cb)
            });
     ret zero_request
   }"

definition block_client_writable :: "block_client \<Rightarrow> int" where
  "block_client_writable client = c_writable client"

definition block_client_block_count :: "block_client \<Rightarrow> u64" where
  "block_client_block_count client = c_block_count client"

definition block_client_block_size :: "block_client \<Rightarrow> u64" where
  "block_client_block_size client = c_block_size client"


subsection \<open>The Ada wrapper\<close>

datatype request_kind = K_None | K_Read | K_Write | K_Sync | K_Trim | K_Undefined

datatype request_status = Raw | Allocated | Pending | Ok | Error

datatype block_result = Success | Retry | Out_Of_Memory | Unsupported

text \<open>\<open>Count'Last\<close> and the positions of \<open>Request_Id\<close> are parameters of the generic package.\<close>

record block_generic =
  Count_Last :: u64
  Id_First :: u32
  Id_Last :: u32

definition kind_code :: "request_kind \<Rightarrow> u32" where
  "kind_code k = (case k of K_None \<Rightarrow> CAI_BLOCK_NONE | K_Read \<Rightarrow> CAI_BLOCK_READ
     | K_Write \<Rightarrow> CAI_BLOCK_WRITE | K_Sync \<Rightarrow> CAI_BLOCK_SYNC | K_Trim \<Rightarrow> CAI_BLOCK_TRIM
     | K_Undefined \<Rightarrow> CAI_BLOCK_NONE)"

definition Kind :: "request \<Rightarrow> request_kind" where
  "Kind r = (if r_kind r = CAI_BLOCK_READ then K_Read else if r_kind r = CAI_BLOCK_WRITE then K_Write
     else if r_kind r = CAI_BLOCK_SYNC then K_Sync else if r_kind r = CAI_BLOCK_TRIM then K_Trim
     else K_None)"

definition Status :: "block_generic \<Rightarrow> request \<Rightarrow> request_status" where
  "Status G r =
     (if r_status r = CAI_BLOCK_RAW then Raw
      else if r_length r \<le> Count_Last G \<and> Id_First G \<le> r_tag r \<and> r_tag r \<le> Id_Last G then
        (if r_status r = CAI_BLOCK_ALLOCATED then Allocated
         else if r_status r = CAI_BLOCK_PENDING then Pending
         else if r_status r = CAI_BLOCK_OK then Ok
         else if r_status r = CAI_BLOCK_ERROR then Error else Raw)
      else Error)"

definition Assigned :: "block_client \<Rightarrow> request \<Rightarrow> bool" where
  "Assigned c r \<longleftrightarrow> r_session r = c_tag c"

definition Block_Initialized :: "block_client \<Rightarrow> bool" where
  "Block_Initialized c \<longleftrightarrow> c_event c \<noteq> null \<and> c_rw c \<noteq> null \<and> c_fd c > -1"

definition Allocate_Request ::
  "'w aio \<Rightarrow> block_generic \<Rightarrow> block_client \<Rightarrow> request \<Rightarrow> request_kind \<Rightarrow> u64 \<Rightarrow> u64 \<Rightarrow> u32 \<Rightarrow>
   ('w, request \<times> block_result) state" where
  "Allocate_Request A G c r0 k start len i = do {
     let r = r0\<lparr>r_kind := kind_code k, r_start := start, r_length := len, r_tag := i,
                r_session := c_tag c\<rparr>;
     (r1, retr) \<leftarrow> block_client_allocate_request A c r;
     if Status G r1 = Allocated then ret (r1\<lparr>r_tag := i\<rparr>, Success)
     else ret (r1\<lparr>r_status := CAI_BLOCK_RAW\<rparr>,
               if retr = 1 then Retry else if retr = 2 then Out_Of_Memory else Unsupported)
   }"

definition Update_Request :: "'w aio \<Rightarrow> block_client \<Rightarrow> request \<Rightarrow> ('w, request option) state" where
  "Update_Request A c r = block_client_update_request A c r"

definition Enqueue :: "'w aio \<Rightarrow> block_client \<Rightarrow> request \<Rightarrow> ('w, request option) state" where
  "Enqueue A c r = block_client_enqueue A c r"

definition Release :: "'w aio \<Rightarrow> block_client \<Rightarrow> request \<Rightarrow> ('w, request) state" where
  "Release A c r = block_client_release A c r"

definition Block_Initialize ::
  "'w aio \<Rightarrow> u64 \<Rightarrow> u32 \<Rightarrow> block_client \<Rightarrow> string \<Rightarrow> u32 \<Rightarrow> addr \<Rightarrow> addr \<Rightarrow> ('w, block_client) state" where
  "Block_Initialize A bytes0 ro0 c path tag event rw =
     (if Block_Initialized c then ret c
      else do {
        c' \<leftarrow> block_client_initialize A bytes0 ro0 c path event rw;
        ret (c'\<lparr>c_tag := tag\<rparr>)
      })"

definition Block_Finalize :: "'w aio \<Rightarrow> block_client \<Rightarrow> ('w, block_client) state" where
  "Block_Finalize A c = (if \<not> Block_Initialized c then ret c else block_client_finalize A c)"

subsection \<open>Memory ownership\<close>

text \<open>
  \<open>malloc\<close> returns null or a block that was free, \<open>free\<close> releases a block and ignores null
  (C standard), the asynchronous I/O calls allocate nothing the program can see.
\<close>

locale aio_heap =
  fixes A :: "'w aio"
    and heap :: "'w \<Rightarrow> addr set"
  assumes malloc_law: "wp (a_malloc A n) (\<lambda>p w'.
      (p = null \<and> heap w' = heap w) \<or> (p \<noteq> null \<and> p \<notin> heap w \<and> heap w' = insert p (heap w))) w"
    and free_law: "wp (a_free A p) (\<lambda>_ w'. heap w' = (if p = null then heap w else heap w - {p})) w"
    and memset_keeps: "keeps heap (a_memset0 A p n)"
    and error_keeps: "keeps heap (a_error A cb)"
    and return_keeps: "keeps heap (a_return A cb)"
    and read_keeps: "keeps heap (a_read A cb)"
    and write_keeps: "keeps heap (a_write A cb)"
    and cancel_keeps: "keeps heap (a_cancel A d p)"
    and perror_keeps: "keeps heap (a_perror A msg)"
begin

lemma wp_malloc:
  "(\<And>w'. heap w' = heap w \<Longrightarrow> Q null w') \<Longrightarrow>
   (\<And>p w'. p \<noteq> null \<Longrightarrow> p \<notin> heap w \<Longrightarrow> heap w' = insert p (heap w) \<Longrightarrow> Q p w') \<Longrightarrow>
   wp (a_malloc A n) Q w"
  by (rule wp_mono [OF malloc_law]) blast

lemma wp_free:
  "(\<And>w'. heap w' = (if p = null then heap w else heap w - {p}) \<Longrightarrow> Q () w') \<Longrightarrow> wp (a_free A p) Q w"
  by (rule wp_mono [OF free_law]) simp

lemmas wp_keeps =
  keeps_wpI [OF memset_keeps] keeps_wpI [OF error_keeps] keeps_wpI [OF return_keeps]
  keeps_wpI [OF read_keeps] keeps_wpI [OF write_keeps] keeps_wpI [OF cancel_keeps]
  keeps_wpI [OF perror_keeps]

end

text \<open>The blocks that a request owns.\<close>

definition owns :: "request \<Rightarrow> addr set" where
  "owns r = (case r_aio_cb r of None \<Rightarrow> {} | Some cb \<Rightarrow> {cb_self cb, aio_buf cb})"

context aio_heap
begin

lemma allocate_owns:
  assumes "r_aio_cb r = None"
  shows "wp (block_client_allocate_request A c r) (\<lambda>(r', retr) w'.
      heap w' = heap w \<union> owns r' \<and> owns r' \<inter> heap w = {} \<and> null \<notin> owns r' \<and>
      (r_aio_cb r' = None \<longrightarrow> r_status r' = CAI_BLOCK_RAW)) w"
proof -
  have step: "wp (a_malloc A sizeof_aiocb) (\<lambda>cb. wp (a_malloc A n) (\<lambda>b x.
        if cb = null \<or> b = null then wp (a_free A cb) (\<lambda>_. wp (a_free A b) (\<lambda>_. P)) x
        else wp (a_memset0 A cb sizeof_aiocb) (\<lambda>_. wp (a_memset0 A b n) (\<lambda>_. Q cb b)) x)) w"
    if P: "\<And>w'. heap w' = heap w \<Longrightarrow> P w'"
      and Q: "\<And>cb b w'. cb \<noteq> null \<Longrightarrow> b \<noteq> null \<Longrightarrow> cb \<notin> heap w \<Longrightarrow> b \<notin> heap w \<Longrightarrow>
        heap w' = insert cb (insert b (heap w)) \<Longrightarrow> Q cb b w'" for n P Q
    by (rule wp_malloc; rule wp_malloc; simp; ((rule wp_free | rule wp_keeps)+; auto intro!: P Q))
  show ?thesis
  proof (cases "opcode_of_kind (r_kind r)")
    case None
    with assms show ?thesis
      by (simp add: block_client_allocate_request_def wp_simps owns_def)
  next
    case (Some op)
    have k: "r_kind (r\<lparr>r_status := CAI_BLOCK_RAW\<rparr>) = r_kind r" by simp
    show ?thesis
      unfolding block_client_allocate_request_def Let_def wp_simps k Some option.case
      by (rule step) (simp_all add: owns_def assms)
  qed
qed

lemma release_frees:
  assumes "null \<notin> owns r"
  shows "wp (block_client_release A c r) (\<lambda>r' w'. r' = zero_request \<and> heap w' = heap w - owns r) w"
proof (cases "r_aio_cb r")
  case None
  then show ?thesis
    unfolding block_client_release_def owns_def wp_simps
    by (simp add: wp_simps) (rule wp_free, simp)
next
  case (Some cb)
  with assms have nn: "aio_buf cb \<noteq> null" "cb_self cb \<noteq> null"
    by (auto simp: owns_def)
  have "wp (a_cancel A (c_fd c) (cb_self cb)) (\<lambda>_. wp (a_free A (aio_buf cb)) (\<lambda>_.
          wp (a_free A (cb_self cb)) (\<lambda>_ w'. heap w' = heap w - {cb_self cb, aio_buf cb}))) w"
    by (rule keeps_wpI [OF cancel_keeps], rule wp_free, rule wp_free) (auto simp: nn)
  with Some show ?thesis
    unfolding block_client_release_def owns_def wp_simps by (simp add: wp_simps)
qed

lemma enqueue_keeps: "keeps heap (block_client_enqueue A c r)"
  unfolding block_client_enqueue_def
  by (auto split: option.splits intro!: keeps_intros read_keeps write_keeps perror_keeps)

lemma update_keeps: "keeps heap (block_client_update_request A c r)"
  unfolding block_client_update_request_def
  by (auto split: option.splits intro!: keeps_intros error_keeps return_keeps)

end


subsection \<open>Sequences of operations on one request\<close>

datatype block_op = Op_Enqueue | Op_Update

fun run_block_ops ::
  "'w aio \<Rightarrow> block_client \<Rightarrow> request \<Rightarrow> block_op list \<Rightarrow> ('w, request option) state" where
  "run_block_ops A c r [] = ret (Some r)"
| "run_block_ops A c r (op # ops) = do {
     res \<leftarrow> (case op of Op_Enqueue \<Rightarrow> block_client_enqueue A c r
                   | Op_Update \<Rightarrow> block_client_update_request A c r);
     case res of None \<Rightarrow> ret None | Some r' \<Rightarrow> run_block_ops A c r' ops
   }"

lemma enqueue_same_cb:
  "r_aio_cb r = Some cb \<Longrightarrow>
   wp (block_client_enqueue A c r) (\<lambda>res _. \<exists>r'. res = Some r' \<and> r_aio_cb r' = Some cb) w"
  by (simp add: block_client_enqueue_def wp_run split: prod.splits option.splits)

lemma update_same_cb:
  "r_aio_cb r = Some cb \<Longrightarrow>
   wp (block_client_update_request A c r) (\<lambda>res _. \<exists>r'. res = Some r' \<and> r_aio_cb r' = Some cb) w"
  by (simp add: block_client_update_request_def wp_run split: prod.splits option.splits)

context aio_heap
begin

lemma op_step:
  assumes "r_aio_cb r = Some cb"
  shows "wp (case op of Op_Enqueue \<Rightarrow> block_client_enqueue A c r
                      | Op_Update \<Rightarrow> block_client_update_request A c r)
     (\<lambda>res w'. (\<exists>r'. res = Some r' \<and> r_aio_cb r' = Some cb) \<and> heap w' = heap w) w"
  using enqueue_same_cb [OF assms] update_same_cb [OF assms]
    keeps_wp [OF enqueue_keeps] keeps_wp [OF update_keeps]
  by (cases op) (simp_all add: wp_conj)

lemma run_block_ops_keeps:
  "r_aio_cb r = Some cb \<Longrightarrow>
   wp (run_block_ops A c r ops)
     (\<lambda>res w'. (\<exists>r'. res = Some r' \<and> r_aio_cb r' = Some cb) \<and> heap w' = heap w) w"
proof (induction ops arbitrary: r w)
  case (Cons op ops)
  show ?case
    unfolding run_block_ops.simps wp_simps
  proof (rule wp_mono [OF op_step [OF Cons.prems]], clarsimp)
    fix w' and r' :: request
    assume "heap w' = heap w" "r_aio_cb r' = Some cb"
    with Cons.IH [of r' w']
    show "wp (run_block_ops A c r' ops)
       (\<lambda>res w'. (\<exists>r'. res = Some r' \<and> r_aio_cb r' = Some cb) \<and> heap w' = heap w) w'"
      by simp
  qed
qed (simp add: wp_simps)

end



subsection \<open>An executable C library for the block client\<close>

text \<open>
  Blocks in use, a script for \<open>malloc\<close> and \<open>open\<close> (\<open>True\<close> means failure), the type of
  the file, the error code and return value of the asynchronous operation, and the
  descriptors closed so far.
\<close>

record disk =
  dk_blocks :: "addr list"
  dk_fail :: "bool list"
  dk_kind :: file_kind
  dk_error :: int
  dk_return :: int
  dk_closed :: "fd list"

definition disk_init :: disk where
  "disk_init = \<lparr> dk_blocks = [], dk_fail = [], dk_kind = S_REG, dk_error = 0, dk_return = 0,
                 dk_closed = [] \<rparr>"

definition disk_try :: "'a \<Rightarrow> (disk \<Rightarrow> 'a \<times> disk) \<Rightarrow> (disk, 'a) state" where
  "disk_try err ok = State (\<lambda>w. case dk_fail w of
       [] \<Rightarrow> ok w
     | b # bs \<Rightarrow> if b then (err, w\<lparr>dk_fail := bs\<rparr>) else ok (w\<lparr>dk_fail := bs\<rparr>))"

definition disk_malloc :: "disk \<Rightarrow> addr \<times> disk" where
  "disk_malloc w =
     (case find (\<lambda>p. p \<noteq> null \<and> p \<notin> set (dk_blocks w))
             (map word_of_nat [1..<length (dk_blocks w) + 2]) of
        None \<Rightarrow> (null, w) | Some p \<Rightarrow> (p, w\<lparr>dk_blocks := p # dk_blocks w\<rparr>))"

definition disk_aio :: "disk aio" where
  "disk_aio = \<lparr>
     a_malloc = (\<lambda>n. disk_try null disk_malloc),
     a_free = (\<lambda>p. State (\<lambda>w. ((), if p = null then w else w\<lparr>dk_blocks := removeAll p (dk_blocks w)\<rparr>))),
     a_memset0 = (\<lambda>p n. ret ()),
     a_error = (\<lambda>cb. State (\<lambda>w. (dk_error w, w))),
     a_return = (\<lambda>cb. State (\<lambda>w. (dk_return w, w))),
     a_read = (\<lambda>cb. ret 0),
     a_write = (\<lambda>cb. ret 0),
     a_cancel = (\<lambda>d p. ret 0),
     a_open = (\<lambda>p fl. disk_try (-1) (\<lambda>w. (5, w))),
     a_close = (\<lambda>d. State (\<lambda>w. (0, w\<lparr>dk_closed := d # dk_closed w\<rparr>))),
     a_fstat = (\<lambda>d. State (\<lambda>w. ((0, \<lparr>st_kind = dk_kind w, st_size = 8192, st_blksize = 4096\<rparr>), w))),
     a_ioctl_ssz = (\<lambda>d. ret (Some 512)),
     a_ioctl_size64 = (\<lambda>d. ret (Some 4096)),
     a_ioctl_ro = (\<lambda>d. ret (Some 0)),
     a_perror = (\<lambda>m. ret ()) \<rparr>"

abbreviation disk_heap :: "disk \<Rightarrow> addr set" where
  "disk_heap w \<equiv> set (dk_blocks w)"

lemma disk_malloc_law:
  "(fst (disk_malloc w) = null \<and> disk_heap (snd (disk_malloc w)) = disk_heap w) \<or>
   (fst (disk_malloc w) \<noteq> null \<and> fst (disk_malloc w) \<notin> disk_heap w \<and>
    disk_heap (snd (disk_malloc w)) = insert (fst (disk_malloc w)) (disk_heap w))"
  by (auto simp: disk_malloc_def find_Some_iff split: option.splits)

interpretation disk: aio_heap disk_aio disk_heap
proof unfold_locales
  fix n w
  show "wp (a_malloc disk_aio n) (\<lambda>p w'. (p = null \<and> disk_heap w' = disk_heap w) \<or>
      (p \<noteq> null \<and> p \<notin> disk_heap w \<and> disk_heap w' = insert p (disk_heap w))) w"
    using disk_malloc_law [of w] disk_malloc_law [of "w\<lparr>dk_fail := tl (dk_fail w)\<rparr>"]
    by (auto simp: disk_aio_def disk_try_def wp_def split: list.splits prod.splits)
qed (auto simp: disk_aio_def wp_def keeps_def)

definition sample_client :: block_client where
  "sample_client = \<lparr>c_event = 1, c_rw = 1, c_fd = 5, c_writable = 1, c_block_size = 512,
                    c_block_count = 8, c_tag = 3\<rparr>"


text \<open>The three outcomes of the C allocation: unsupported kind, out of memory, success.\<close>

definition alloc_outcome :: "block_client \<Rightarrow> request \<Rightarrow> request \<times> int \<Rightarrow> bool" where
  "alloc_outcome c r x = (case x of (r', retr) \<Rightarrow>
     (opcode_of_kind (r_kind r) = None \<and> r' = r\<lparr>r_status := CAI_BLOCK_RAW\<rparr> \<and> retr = 0) \<or>
     (opcode_of_kind (r_kind r) \<noteq> None \<and> r' = r\<lparr>r_status := CAI_BLOCK_RAW\<rparr> \<and> retr = 2) \<or>
     (case r_aio_cb r' of None \<Rightarrow> False | Some cb \<Rightarrow>
        opcode_of_kind (r_kind r) = Some (aio_lio_opcode cb) \<and> retr = 0 \<and>
        r' = r\<lparr>r_aio_cb := Some cb, r_status := CAI_BLOCK_ALLOCATED\<rparr> \<and>
        aio_fildes cb = c_fd c \<and> cb_self cb \<noteq> null \<and> aio_buf cb \<noteq> null \<and>
        aio_nbytes cb = r_length r * c_block_size c))"

lemma allocate_outcome:
  "wp (block_client_allocate_request A c r) (\<lambda>x _. alloc_outcome c r x) w"
proof (cases "opcode_of_kind (r_kind r)")
  case None
  then show ?thesis
    by (simp add: block_client_allocate_request_def alloc_outcome_def wp_simps)
next
  case (Some op)
  then show ?thesis
    by (auto simp: block_client_allocate_request_def alloc_outcome_def wp_simps Let_def wp_run
        block_constants)
qed

lemma alloc_outcomeE:
  assumes "alloc_outcome c r x"
  obtains (unsupported) "opcode_of_kind (r_kind r) = None" "x = (r\<lparr>r_status := CAI_BLOCK_RAW\<rparr>, 0)"
  | (oom) "opcode_of_kind (r_kind r) \<noteq> None" "x = (r\<lparr>r_status := CAI_BLOCK_RAW\<rparr>, 2)"
  | (ok) cb where "opcode_of_kind (r_kind r) = Some (aio_lio_opcode cb)"
      "x = (r\<lparr>r_aio_cb := Some cb, r_status := CAI_BLOCK_ALLOCATED\<rparr>, 0)"
      "aio_fildes cb = c_fd c" "cb_self cb \<noteq> null" "aio_buf cb \<noteq> null"
      "aio_nbytes cb = r_length r * c_block_size c"
  using assms by (cases x) (auto simp: alloc_outcome_def split: option.splits)

lemma opcode_of_kind_code: "opcode_of_kind (kind_code k) = None \<longleftrightarrow> k \<noteq> K_Read \<and> k \<noteq> K_Write"
  by (cases k) (simp_all add: opcode_of_kind_def kind_code_def block_constants)

lemma Kind_kind_code: "r_kind r = kind_code k \<Longrightarrow> k \<noteq> K_Undefined \<Longrightarrow> Kind r = k"
  by (cases k) (simp_all add: Kind_def kind_code_def block_constants)

text \<open>
  C31. \<open>Allocate_Request\<close> meets its SPARK contract: for a length and an identifier in the
  ranges of the generic parameters, the result is \<open>Success\<close> exactly when the request is
  \<open>Allocated\<close>, it is \<open>Raw\<close> otherwise; a successful request is assigned to the client and
  carries a control block for the client's descriptor whose transfer size is the size of
  its buffer; kinds other than read and write are answered \<open>Unsupported\<close>.
\<close>

theorem Allocate_Request_contract:
  assumes "len \<le> Count_Last G" and "Id_First G \<le> i" and "i \<le> Id_Last G"
  shows "wp (Allocate_Request A G c r k start len i) (\<lambda>(r', e) _.
      (e = Success \<longleftrightarrow> Status G r' = Allocated) \<and>
      (e \<noteq> Success \<longrightarrow> Status G r' = Raw) \<and>
      (e = Success \<longrightarrow> Assigned c r' \<and> Kind r' = k \<and>
         (\<exists>cb. r_aio_cb r' = Some cb \<and> aio_fildes cb = c_fd c \<and> cb_self cb \<noteq> null \<and>
            aio_buf cb \<noteq> null \<and> aio_nbytes cb = len * c_block_size c)) \<and>
      (k \<noteq> K_Read \<and> k \<noteq> K_Write \<longrightarrow> e = Unsupported)) w"
proof -
  define r0 where "r0 = r\<lparr>r_kind := kind_code k, r_start := start, r_length := len, r_tag := i,
      r_session := c_tag c\<rparr>"
  have fields: "r_kind r0 = kind_code k" "r_length r0 = len" "r_tag r0 = i" "r_session r0 = c_tag c"
    by (simp_all add: r0_def)
  show ?thesis
    unfolding Allocate_Request_def Let_def wp_simps r0_def [symmetric]
  proof (rule wp_mono [OF allocate_outcome], goal_cases)
    case (1 x w')
    then show ?case
    proof (cases rule: alloc_outcomeE)
      case unsupported
      then show ?thesis
        using fields opcode_of_kind_code [of k] by (simp add: Status_def block_constants)
    next
      case oom
      then show ?thesis
        using fields opcode_of_kind_code [of k] by (simp add: Status_def block_constants)
    next
      case (ok cb)
      moreover from ok have "k = K_Read \<or> k = K_Write"
        using fields opcode_of_kind_code [of k] by auto
      moreover from this have "Kind (r0\<lparr>r_aio_cb := Some cb, r_status := CAI_BLOCK_ALLOCATED\<rparr>) = k"
        using fields by (intro Kind_kind_code) auto
      ultimately show ?thesis
        using assms fields by (auto simp: Status_def Assigned_def block_constants)
    qed
  qed
qed

theorem Allocate_Request_contract_witness:
  "wp (Allocate_Request disk_aio \<lparr>Count_Last = 100, Id_First = 0, Id_Last = 9\<rparr>
        sample_client zero_request K_Write 4 2 7) (\<lambda>(r', e) _. e = Success \<longrightarrow> r_session r' = 3) disk_init"
  using Allocate_Request_contract [of 2 "\<lparr>Count_Last = 100, Id_First = 0, Id_Last = 9\<rparr>" 7 disk_aio
      sample_client
      zero_request K_Write 4 disk_init]
  by (auto elim!: wp_mono simp: Assigned_def sample_client_def)

lemma enqueue_status:
  "Status G r = Allocated \<Longrightarrow> wp (block_client_enqueue A c r) (\<lambda>res _. \<forall>r'. res = Some r' \<longrightarrow>
     Status G r' \<in> {Allocated, Pending} \<and> Assigned c r' = Assigned c r) w"
proof -
  assume s: "Status G r = Allocated"
  then have "Status G (r\<lparr>r_status := CAI_BLOCK_PENDING\<rparr>) = Pending"
    by (simp add: Status_def block_constants split: if_splits)
  moreover have "wp (block_client_enqueue A c r) (\<lambda>res _. \<forall>r'. res = Some r' \<longrightarrow>
      r' = r \<or> r' = r\<lparr>r_status := CAI_BLOCK_PENDING\<rparr>) w"
    by (simp add: block_client_enqueue_def wp_run split: prod.splits option.splits)
  ultimately show ?thesis
    using s by (elim wp_mono) (auto simp: Assigned_def)
qed

lemma update_status:
  "Status G r = Pending \<Longrightarrow> wp (block_client_update_request A c r) (\<lambda>res _. \<forall>r'. res = Some r' \<longrightarrow>
     Status G r' \<in> {Pending, Ok, Error} \<and> Assigned c r' = Assigned c r) w"
proof -
  assume s: "Status G r = Pending"
  then have "Status G (r\<lparr>r_status := CAI_BLOCK_OK\<rparr>) = Ok" "Status G (r\<lparr>r_status := CAI_BLOCK_ERROR\<rparr>) = Error"
    by (simp_all add: Status_def block_constants split: if_splits)
  moreover have "wp (block_client_update_request A c r) (\<lambda>res _. \<forall>r'. res = Some r' \<longrightarrow>
      r' = r \<or> r' = r\<lparr>r_status := CAI_BLOCK_OK\<rparr> \<or> r' = r\<lparr>r_status := CAI_BLOCK_ERROR\<rparr>) w"
    by (simp add: block_client_update_request_def wp_run split: prod.splits option.splits)
  ultimately show ?thesis
    using s by (elim wp_mono) (auto simp: Assigned_def)
qed

lemma release_status: "wp (block_client_release A c r) (\<lambda>r' _. Status G r' = Raw \<and> owns r' = {}) w"
  by (simp add: block_client_release_def wp_run zero_request_def Status_def owns_def block_constants
      split: prod.splits)

text \<open>
  The status of a request moves as the SPARK contracts of \<open>Enqueue\<close>, \<open>Update_Request\<close>
  and \<open>Release\<close> say: an allocated request becomes pending or stays allocated, a pending one
  becomes \<open>Ok\<close> (all bytes transferred), \<open>Error\<close> or stays pending, its assignment to the
  session is kept, and a released request is raw and owns nothing.
\<close>

theorem block_status_contract:
  "(Status G r = Allocated \<longrightarrow> wp (Enqueue A c r) (\<lambda>res _. \<forall>r'. res = Some r' \<longrightarrow>
      Status G r' \<in> {Allocated, Pending} \<and> Assigned c r' = Assigned c r) w) \<and>
   (Status G r = Pending \<longrightarrow> wp (Update_Request A c r) (\<lambda>res _. \<forall>r'. res = Some r' \<longrightarrow>
      Status G r' \<in> {Pending, Ok, Error} \<and> Assigned c r' = Assigned c r) w) \<and>
   wp (Release A c r) (\<lambda>r' _. Status G r' = Raw \<and> owns r' = {}) w"
  using enqueue_status [of G r A c w] update_status [of G r A c w] release_status [of A c r G w]
  by (simp add: Enqueue_def Update_Request_def Release_def)

text \<open>A pending request in the ranges of a small instance, and an allocated one.\<close>

definition sample_request :: "u32 \<Rightarrow> request" where
  "sample_request st = \<lparr> r_kind = 1, r_tag = 4, r_start = 0, r_length = 2, r_status = st,
     r_aio_cb = Some \<lparr>cb_self = 1, aio_fildes = 5, aio_offset = 0, aio_nbytes = 1024,
                      aio_lio_opcode = LIO_READ, aio_buf = 2\<rparr>, r_session = 3 \<rparr>"

theorem block_status_contract_witness:
  "wp (Update_Request disk_aio sample_client (sample_request 2)) (\<lambda>res _. \<forall>r'. res = Some r' \<longrightarrow>
      Status \<lparr>Count_Last = 100, Id_First = 0, Id_Last = 9\<rparr> r' \<in> {Pending, Ok, Error} \<and>
      Assigned sample_client r' = Assigned sample_client (sample_request 2)) disk_init"
proof -
  have "Status \<lparr>Count_Last = 100, Id_First = 0, Id_Last = 9\<rparr> (sample_request 2) = Pending"
    by (simp add: Status_def sample_request_def block_constants)
  with block_status_contract [of "\<lparr>Count_Last = 100, Id_First = 0, Id_Last = 9\<rparr>" "sample_request 2"
      disk_aio sample_client disk_init]
  show ?thesis by blast
qed

text \<open>
  Finalizing an initialized block client closes its descriptor but leaves the client
  structure as it was, so it still counts as initialized, against the contract
  \<open>Post => not Initialized (C)\<close>; and opening a file that is neither regular nor a block
  device yields a client that counts as initialized although its descriptor was closed.
\<close>

theorem block_finalize_stays_initialized:
  assumes "Block_Initialized c"
  shows "wp (Block_Finalize A c) (\<lambda>c' _. c' = c \<and> Block_Initialized c') w"
  using assms by (simp add: Block_Finalize_def block_client_finalize_def wp_run split: prod.splits)

theorem block_finalize_stays_initialized_witness:
  "Block_Initialized sample_client \<and>
   wp (Block_Finalize disk_aio sample_client) (\<lambda>c' _. c' = sample_client \<and> Block_Initialized c') disk_init \<and>
   (let c = result (Block_Initialize disk_aio 0 0 (sample_client\<lparr>c_fd := -1\<rparr>) ''dir'' 0 1 1)
              (disk_init\<lparr>dk_kind := S_OTHER\<rparr>)
    in Block_Initialized c \<and> c_fd c \<in> set (dk_closed (final
         (Block_Initialize disk_aio 0 0 (sample_client\<lparr>c_fd := -1\<rparr>) ''dir'' 0 1 1)
         (disk_init\<lparr>dk_kind := S_OTHER\<rparr>))))"
proof -
  have i: "Block_Initialized sample_client"
    by (simp add: Block_Initialized_def sample_client_def)
  show ?thesis
    using i block_finalize_stays_initialized [OF i, of disk_aio disk_init]
    by (simp add: Block_Initialize_def Block_Initialized_def sample_client_def block_client_initialize_def
        block_client_metadata_def block_client_finalize_def disk_aio_def disk_try_def disk_init_def)
qed

end
