(* ===== verification/Linux_Protocol.thy ===== *)
theory Linux_Protocol
  imports Linux_Epoll
begin

text \<open>
  The protocol between components and the broker on Linux: the message format of
  \<open>session.rflx\<close>, \<open>Gneiss_Internal.Packet\<close> and \<open>Gneiss_Internal.Client\<close>. The Ada code that
  reads and writes the fields of a message is generated from \<open>session.rflx\<close> at build time; it
  is the parameter \<open>codec\<close>, and the locale \<open>rflx_packet\<close> says that it implements the format.
\<close>

subsection \<open>The message format\<close>

datatype action_type = Request | Confirm | Reject | Register

datatype kind_type = Message | Log | Memory | Rom | Timer

text \<open>The fields of \<open>Packet\<close>; the two lengths are those of the payloads.\<close>

record packet_fields =
  p_Action :: action_type
  p_Kind :: kind_type
  p_Name :: bytes
  p_Label :: bytes

definition action_code :: "action_type \<Rightarrow> u8" where
  "action_code a = (case a of Request \<Rightarrow> 0 | Confirm \<Rightarrow> 1 | Reject \<Rightarrow> 2 | Register \<Rightarrow> 3)"

definition kind_code :: "kind_type \<Rightarrow> u8" where
  "kind_code k = (case k of Message \<Rightarrow> 0 | Log \<Rightarrow> 1 | Memory \<Rightarrow> 2 | Rom \<Rightarrow> 3 | Timer \<Rightarrow> 4)"

definition action_of :: "u8 \<Rightarrow> action_type option" where
  "action_of b = (if b = 0 then Some Request else if b = 1 then Some Confirm else if b = 2 then Some Reject
     else if b = 3 then Some Register else None)"

definition kind_of :: "u8 \<Rightarrow> kind_type option" where
  "kind_of b = (if b = 0 then Some Message else if b = 1 then Some Log else if b = 2 then Some Memory
     else if b = 3 then Some Rom else if b = 4 then Some Timer else None)"

definition packet_bytes :: "packet_fields \<Rightarrow> bytes" where
  "packet_bytes p = action_code (p_Action p) # kind_code (p_Kind p) # of_nat (length (p_Name p)) # p_Name p @
     of_nat (length (p_Label p)) # p_Label p"

text \<open>A payload: its length in one byte, then that many bytes; the rest is returned.\<close>

definition parse_payload :: "bytes \<Rightarrow> (bytes \<times> bytes) option" where
  "parse_payload bs = (case bs of [] \<Rightarrow> None
     | n # rest \<Rightarrow> if unat n \<le> length rest then Some (take (unat n) rest, drop (unat n) rest) else None)"

definition parse_packet :: "bytes \<Rightarrow> packet_fields option" where
  "parse_packet bs = (case bs of
       a # k # rest \<Rightarrow>
         Option.bind (action_of a) (\<lambda>action.
         Option.bind (kind_of k) (\<lambda>kind.
         Option.bind (parse_payload rest) (\<lambda>(name, rest).
         Option.bind (parse_payload rest) (\<lambda>(label, _).
         Some \<lparr>p_Action = action, p_Kind = kind, p_Name = name, p_Label = label\<rparr>))))
     | _ \<Rightarrow> None)"

lemma action_of_code [simp]: "action_of (action_code a) = Some a"
  by (cases a) (simp_all add: action_of_def action_code_def)

lemma kind_of_code [simp]: "kind_of (kind_code k) = Some k"
  by (cases k) (simp_all add: kind_of_def kind_code_def)

lemma action_of_Some: "action_of b = Some a \<longleftrightarrow> b = action_code a"
  by (cases a) (auto simp: action_of_def action_code_def split: if_splits)

lemma kind_of_Some: "kind_of b = Some k \<longleftrightarrow> b = kind_code k"
  by (cases k) (auto simp: kind_of_def kind_code_def split: if_splits)

lemma unat_length_u8: "n < 256 \<Longrightarrow> unat (of_nat n :: u8) = n"
  by (simp add: unat_of_nat)

lemma parse_payload_bytes:
  "length d < 256 \<Longrightarrow> parse_payload (of_nat (length d) # d @ rest) = Some (d, rest)"
  by (simp add: parse_payload_def unat_length_u8)

lemma parse_payload_Some:
  "parse_payload bs = Some (d, rest) \<longleftrightarrow> length d < 256 \<and> bs = of_nat (length d) # d @ rest"
proof
  assume p: "parse_payload bs = Some (d, rest)"
  then obtain n bs' where b: "bs = n # bs'" "unat n \<le> length bs'" "d = take (unat n) bs'" "rest = drop (unat n) bs'"
    by (auto simp: parse_payload_def split: list.splits if_splits)
  have "unat n < 256" using unsigned_less [of n, where ?'a = nat] by simp
  with b show "length d < 256 \<and> bs = of_nat (length d) # d @ rest" by simp
next
  assume "length d < 256 \<and> bs = of_nat (length d) # d @ rest"
  then show "parse_payload bs = Some (d, rest)" using parse_payload_bytes by blast
qed

text \<open>The parser inverts the printer, and accepts nothing else than a printed message with a tail.\<close>

lemma parse_packet_bytes:
  assumes "length (p_Name p) < 256" and "length (p_Label p) < 256"
  shows "parse_packet (packet_bytes p @ rest) = Some p"
  using assms by (simp add: parse_packet_def packet_bytes_def parse_payload_bytes)

lemma parse_packet_Some:
  "parse_packet bs = Some p \<longleftrightarrow>
     length (p_Name p) < 256 \<and> length (p_Label p) < 256 \<and> (\<exists>rest. bs = packet_bytes p @ rest)"
proof
  assume "parse_packet bs = Some p"
  then show "length (p_Name p) < 256 \<and> length (p_Label p) < 256 \<and> (\<exists>rest. bs = packet_bytes p @ rest)"
    by (auto simp: parse_packet_def packet_bytes_def parse_payload_Some action_of_Some kind_of_Some bind_eq_Some_conv
        split: list.splits)
qed (use parse_packet_bytes in auto)

lemma length_packet_bytes: "length (packet_bytes p) = 4 + length (p_Name p) + length (p_Label p)"
  by (simp add: packet_bytes_def)

subsection \<open>\<open>Gneiss_Internal.Packet\<close>\<close>

text \<open>\<open>Session_Label\<close>: a string of 255 characters of which the first \<open>Last\<close> count.\<close>

record session_label =
  sl_Last :: nat
  sl_Value :: string

definition empty_label :: session_label where
  "empty_label = \<lparr>sl_Last = 0, sl_Value = replicate 255 (CHR 0x00)\<rparr>"

definition label_text :: "session_label \<Rightarrow> string" where
  "label_text l = take (sl_Last l) (sl_Value l)"

text \<open>The two assignments \<open>Last := First + S'Length - 1; Value (First .. Last) := S\<close>.\<close>

definition to_label :: "string \<Rightarrow> session_label" where
  "to_label s = \<lparr>sl_Last = length s, sl_Value = s @ drop (length s) (sl_Value empty_label)\<rparr>"

text \<open>The predicate of the type; outside it Ada raises.\<close>

definition label_ok :: "session_label \<Rightarrow> bool" where
  "label_ok l \<longleftrightarrow> length (sl_Value l) = 255 \<and> sl_Last l \<le> 255"

lemma label_ok_simps [simp]: "label_ok empty_label" "length s < 256 \<Longrightarrow> label_ok (to_label s)"
  by (auto simp: label_ok_def empty_label_def to_label_def)

lemma label_text_simps [simp]: "label_text empty_label = []" "label_text (to_label s) = s"
  by (simp_all add: label_text_def empty_label_def to_label_def)

lemma length_label_text: "label_ok l \<Longrightarrow> length (label_text l) = sl_Last l"
  by (simp add: label_ok_def label_text_def)

definition byte_of_char :: "char \<Rightarrow> u8" where
  "byte_of_char c = of_nat (of_char c)"

definition char_of_byte :: "u8 \<Rightarrow> char" where
  "char_of_byte b = char_of (unat b)"

lemma char_of_byte_of_char [simp]: "char_of_byte (byte_of_char c) = c"
  by (simp add: char_of_byte_def byte_of_char_def unat_of_nat char_of_mod_256)

text \<open>The loops of \<open>Get\<close> and \<open>Set\<close>; \<open>Get\<close> on an empty payload would leave \<open>Last = 1\<close>.\<close>

fun Get_loop :: "bytes \<Rightarrow> nat \<Rightarrow> string \<Rightarrow> nat \<times> string" where
  "Get_loop [] i fld = (i, fld)"
| "Get_loop (b # bs) i fld = (let fld = fld[i - 1 := char_of_byte b] in
     if i = length fld \<or> bs = [] then (i, fld) else Get_loop bs (i + 1) fld)"

definition Get :: "bytes \<Rightarrow> session_label \<Rightarrow> session_label" where
  "Get data l = (case Get_loop data 1 (sl_Value l) of (i, fld) \<Rightarrow> \<lparr>sl_Last = i, sl_Value = fld\<rparr>)"

fun Set_loop :: "string \<Rightarrow> bytes \<Rightarrow> bytes" where
  "Set_loop (c # cs) (b # bs) = byte_of_char c # (if cs = [] then bs else Set_loop cs bs)"
| "Set_loop cs bs = bs"

definition Set :: "string \<Rightarrow> nat \<Rightarrow> bytes" where
  "Set field n = Set_loop field (replicate n 0)"

lemma Get_loop_data:
  "data \<noteq> [] \<Longrightarrow> pre @ fld = whole \<Longrightarrow> length data \<le> length fld \<Longrightarrow>
   Get_loop data (length pre + 1) whole =
     (length pre + length data, pre @ map char_of_byte data @ drop (length data) fld)"
proof (induction data arbitrary: pre fld whole)
  case (Cons b bs)
  then obtain c cs where f: "fld = c # cs" by (cases fld) auto
  show ?case
  proof (cases "bs = []")
    case True
    with Cons.prems f show ?thesis by (auto simp: Let_def list_update_append)
  next
    case False
    have "Get_loop bs (length (pre @ [char_of_byte b]) + 1) ((pre @ [char_of_byte b]) @ cs) =
      (length (pre @ [char_of_byte b]) + length bs, (pre @ [char_of_byte b]) @ map char_of_byte bs @ drop (length bs) cs)"
      using False Cons.prems f by (intro Cons.IH) auto
    moreover have "length pre + 1 \<noteq> length (pre @ fld)"
      using False Cons.prems(3) f by (cases bs) auto
    ultimately show ?thesis
      using False Cons.prems f by (auto simp: Let_def list_update_append)
  qed
qed simp

lemma Get_text:
  "data \<noteq> [] \<Longrightarrow> length data < 256 \<Longrightarrow> label_ok l \<Longrightarrow>
   label_ok (Get data l) \<and> label_text (Get data l) = map char_of_byte data"
  using Get_loop_data [of data "[]" "sl_Value l" "sl_Value l"]
  by (simp add: Get_def label_ok_def label_text_def)

lemma Set_bytes: "Set cs (length cs) = map byte_of_char cs"
  unfolding Set_def by (induction cs) auto

text \<open>The code generated from \<open>session.rflx\<close>: writing a message into a buffer, and verifying and reading one.\<close>

record codec =
  cd_write :: "action_type \<Rightarrow> kind_type \<Rightarrow> u8 \<Rightarrow> (nat \<Rightarrow> bytes) \<Rightarrow> u8 \<Rightarrow> (nat \<Rightarrow> bytes) \<Rightarrow> bytes \<Rightarrow> bytes"
  cd_read :: "bytes \<Rightarrow> packet_fields option"

text \<open>
  What the code calls on Linux: the system calls, the generated code, \<open>Basalt.Strings.Image\<close>,
  and what the uninitialized packet buffer (1024 bytes), control buffer and exit status on the
  stack hold.
\<close>

record 'w linux_env =
  le_posix :: "'w posix"
  le_codec :: codec
  le_stack :: bytes
  le_control :: "int list"
  le_status :: u32
  le_image :: "int \<Rightarrow> string"

definition Packet_Send ::
  "'w linux_env \<Rightarrow> fd \<Rightarrow> action_type \<Rightarrow> kind_type \<Rightarrow> session_label \<Rightarrow> session_label \<Rightarrow> fd list \<Rightarrow> ('w, unit) state" where
  "Packet_Send E d action kind name label ds =
     gneiss_write_message (le_posix E) d
       (cd_write (le_codec E) action kind (of_nat (sl_Last name)) (Set (label_text name))
          (of_nat (sl_Last label)) (Set (label_text label)) (le_stack E))
       (4 + sl_Last name + sl_Last label) ds (length ds)"

record broker_message =
  bm_Action :: action_type
  bm_Kind :: kind_type
  bm_Name :: session_label
  bm_Label :: session_label

text \<open>\<open>Recv\<close>; \<open>n\<close> is the length of the descriptor array.\<close>

definition Packet_Recv :: "'w linux_env \<Rightarrow> fd \<Rightarrow> nat \<Rightarrow> bool \<Rightarrow> ('w, bytes \<times> nat \<times> fd list) state" where
  "Packet_Recv E d n block = do {
     (buf, ds, len, _) \<leftarrow> gneiss_read_message (le_posix E) (le_control E) d (le_stack E) 1024 (replicate n 0) n 0
        (if block then 1 else 0);
     ret (buf, if len > 0 then nat len else 0, ds)
   }"

definition Packet_Receive :: "'w linux_env \<Rightarrow> fd \<Rightarrow> nat \<Rightarrow> bool \<Rightarrow> ('w, broker_message option \<times> fd list) state" where
  "Packet_Receive E d n block = do {
     (buf, len, ds) \<leftarrow> Packet_Recv E d n block;
     if len = 0 then ret (None, ds)
     else ret (case cd_read (le_codec E) buf of None \<Rightarrow> (None, ds)
       | Some p \<Rightarrow> (Some \<lparr>bm_Action = p_Action p, bm_Kind = p_Kind p,
            bm_Name = (if p_Name p \<noteq> [] then Get (p_Name p) empty_label else empty_label),
            bm_Label = (if p_Label p \<noteq> [] then Get (p_Label p) empty_label else empty_label)\<rparr>, ds))
   }"

subsection \<open>\<open>Gneiss_Internal.Client\<close>\<close>

abbreviation Valid :: "fd \<Rightarrow> bool" where
  "Valid d \<equiv> d > -1"

definition Client_Register :: "'w linux_env \<Rightarrow> fd \<Rightarrow> kind_type \<Rightarrow> ('w, fd) state" where
  "Client_Register E broker_fd kind = do {
     Packet_Send E broker_fd Register kind empty_label empty_label [];
     (msg, ds) \<leftarrow> Packet_Receive E broker_fd 1 True;
     ret (case msg of None \<Rightarrow> -1 | Some m \<Rightarrow> if ds ! 0 < 0 \<or> bm_Kind m \<noteq> kind then -1 else ds ! 0)
   }"

definition Client_Initialize :: "'w linux_env \<Rightarrow> fd \<Rightarrow> kind_type \<Rightarrow> fd list \<Rightarrow> string \<Rightarrow> ('w, fd list) state" where
  "Client_Initialize E broker_fd kind ds label = do {
     Packet_Send E broker_fd Request kind empty_label (to_label label) (takeWhile (\<lambda>d. 0 \<le> d) ds);
     (msg, ds) \<leftarrow> Packet_Receive E broker_fd (length ds) True;
     ret (case msg of None \<Rightarrow> replicate (length ds) (-1)
          | Some m \<Rightarrow> if bm_Kind m \<noteq> kind then replicate (length ds) (-1) else ds)
   }"

text \<open>\<open>Dispatch\<close> reads the fields of the message even if it is not valid, which raises.\<close>

definition Client_Dispatch ::
  "'w linux_env \<Rightarrow> fd \<Rightarrow> kind_type \<Rightarrow> nat \<Rightarrow> ('w, ada_error + session_label \<times> session_label \<times> fd list) state" where
  "Client_Dispatch E d kind n = do {
     (msg, ds) \<leftarrow> Packet_Receive E d n False;
     ret (case msg of None \<Rightarrow> Inl Constraint_Error
          | Some m \<Rightarrow> Inr (bm_Name m, bm_Label m, if bm_Kind m \<noteq> kind then replicate n (-1) else ds))
   }"

text \<open>
  \<open>Confirm\<close> and \<open>Reject\<close> compute the length of the label from \<open>Label'Last\<close>, which is only the
  length for a string that starts at 1; \<open>lo\<close> is its first index.
\<close>

definition label_from_last :: "nat \<Rightarrow> string \<Rightarrow> ada_error + session_label" where
  "label_from_last lo s = (if lo + length s - 1 = length s then Inr (to_label s) else Inl Constraint_Error)"

definition Client_Confirm ::
  "'w linux_env \<Rightarrow> fd \<Rightarrow> kind_type \<Rightarrow> string \<Rightarrow> nat \<Rightarrow> string \<Rightarrow> fd list \<Rightarrow> ('w, ada_error + unit) state" where
  "Client_Confirm E d kind name lo label ds = (case label_from_last lo label of
       Inl e \<Rightarrow> ret (Inl e)
     | Inr l \<Rightarrow> do { Packet_Send E d Confirm kind (to_label name) l ds; ret (Inr ()) })"

definition Client_Reject ::
  "'w linux_env \<Rightarrow> fd \<Rightarrow> kind_type \<Rightarrow> string \<Rightarrow> nat \<Rightarrow> string \<Rightarrow> ('w, ada_error + unit) state" where
  "Client_Reject E d kind name lo label = (case label_from_last lo label of
       Inl e \<Rightarrow> ret (Inl e)
     | Inr l \<Rightarrow> do { Packet_Send E d Reject kind (to_label name) l []; ret (Inr ()) })"

subsection \<open>Received descriptors\<close>

text \<open>
  A process that receives descriptors: the kernel manages the table as documented, and the
  control buffer of \<open>recvmsg\<close> holds no number of a descriptor by accident.
\<close>

locale linux_receiver = linux_fds "le_posix E" fds
  for E :: "'w linux_env" and fds :: "'w \<Rightarrow> fd set" +
  assumes control_clean: "\<forall>x \<in> set (le_control E). \<not> Valid x"
begin

lemma Packet_Send_keeps [keeps_intros]: "keeps fds (Packet_Send E d a k name label ds)"
  unfolding Packet_Send_def by (intro keeps_intros)

lemma Packet_Receive_fds:
  "wp (Packet_Receive E d n block) (\<lambda>(_, ds) w'. length ds = n \<and> fds w \<subseteq> fds w' \<and>
     (\<forall>e \<in> set ds. Valid e \<longrightarrow> e \<in> fds w' - fds w)) w"
proof -
  have new: "\<forall>e \<in> set (copy_rights n (le_control E) h (replicate n (-1) @ drop n (replicate n 0))).
      Valid e \<longrightarrow> e \<in> set (cmsg_ints h)" for h
    using control_clean set_overlay [of "take (min (4 * n) (cmsg_len h) div 4) (overlay (cmsg_ints h) (le_control E))"]
      set_overlay [of "cmsg_ints h" "le_control E"]
    by (fastforce simp: copy_rights_def dest: in_set_takeD)
  have len: "length (copy_rights n (le_control E) h (replicate n (-1) @ drop n (replicate n 0))) = n" for h
    by (simp add: copy_rights_def)
  show ?thesis
    unfolding Packet_Receive_def Packet_Recv_def gneiss_read_message_def read_message_def Let_def wp_simps
    by (rule wp_mono [OF recvmsg_installs [unfolded installs_def, rule_format]])
      (use new in \<open>auto simp: wp_simps len split: option.splits intro!: wp_warn\<close>)
qed

end

subsection \<open>The generated code\<close>

text \<open>
  The code generated from the message specification writes the bytes of a message to the
  front of the buffer, and accepts a buffer exactly if it starts with a message.
\<close>

locale rflx_packet =
  fixes C :: codec
  assumes write_law: "length (nm (unat nl)) = unat nl \<Longrightarrow> length (lb (unat ll)) = unat ll \<Longrightarrow> length buf = 1024 \<Longrightarrow>
      cd_write C a k nl nm ll lb buf =
        overlay (packet_bytes \<lparr>p_Action = a, p_Kind = k, p_Name = nm (unat nl), p_Label = lb (unat ll)\<rparr>) buf"
    and read_law: "cd_read C buf = parse_packet buf"

definition rflx_codec :: codec where
  "rflx_codec = \<lparr> cd_write = (\<lambda>a k nl nm ll lb. overlay (packet_bytes
       \<lparr>p_Action = a, p_Kind = k, p_Name = nm (unat nl), p_Label = lb (unat ll)\<rparr>)),
     cd_read = parse_packet \<rparr>"

interpretation rflx: rflx_packet rflx_codec
  by unfold_locales (simp_all add: rflx_codec_def)

text \<open>A received message with a given content.\<close>

definition same_text :: "broker_message \<Rightarrow> action_type \<Rightarrow> kind_type \<Rightarrow> string \<Rightarrow> string \<Rightarrow> bool" where
  "same_text m a k name label \<longleftrightarrow> bm_Action m = a \<and> bm_Kind m = k \<and>
     label_ok (bm_Name m) \<and> label_text (bm_Name m) = name \<and> label_ok (bm_Label m) \<and> label_text (bm_Label m) = label"

text \<open>The message that is on the wire, and its header with descriptors.\<close>

definition wire :: "action_type \<Rightarrow> kind_type \<Rightarrow> string \<Rightarrow> string \<Rightarrow> bytes" where
  "wire a k name label = packet_bytes \<lparr>p_Action = a, p_Kind = k, p_Name = map byte_of_char name,
     p_Label = map byte_of_char label\<rparr>"

definition wire_msg :: "action_type \<Rightarrow> kind_type \<Rightarrow> string \<Rightarrow> string \<Rightarrow> fd list \<Rightarrow> send_hdr" where
  "wire_msg a k name label ds = \<lparr> snd_iov = wire a k name label,
     snd_control = (if ds = [] then None else Some \<lparr> cmsg_len = CMSG_LEN (4 * length ds), cmsg_level = SOL_SOCKET,
        cmsg_type = SCM_RIGHTS, cmsg_ints = ds \<rparr>) \<rparr>"

lemma wire_msg_simps [simp]:
  "rights_of (wire_msg a k name label ds) = ds" "snd_iov (wire_msg a k name label ds) = wire a k name label"
  by (simp_all add: rights_of_def wire_msg_def)

lemma length_wire: "length (wire a k name label) = 4 + length name + length label"
  by (simp add: wire_def length_packet_bytes)

lemma take_overlay_all: "length src \<le> length dst \<Longrightarrow> take (length src) (overlay src dst) = src"
  by (simp add: overlay_def)

lemma overlay_front: "length src \<le> length dst \<Longrightarrow> overlay src dst = src @ drop (length src) dst"
  by (simp add: overlay_def)

locale linux_client = rflx_packet "le_codec E"
  for E :: "'w linux_env" +
  assumes stack_length: "length (le_stack E) = 1024"
begin

lemma Packet_Send_wire:
  assumes "label_ok name" and "label_ok label"
  shows "Packet_Send E d a k name label ds = do {
      rc \<leftarrow> k_sendmsg (le_posix E) d (wire_msg a k (label_text name) (label_text label) ds) MSG_DONTWAIT;
      whenM (rc < 0) (k_warn (le_posix E) ''gneiss_write_message: sendmsg'')
    }"
proof -
  have l: "sl_Last name < 256" "sl_Last label < 256" "length (label_text name) = sl_Last name"
    "length (label_text label) = sl_Last label"
    using assms by (auto simp: label_ok_def length_label_text)
  have set: "Set (label_text name) (sl_Last name) = map byte_of_char (label_text name)"
    "Set (label_text label) (sl_Last label) = map byte_of_char (label_text label)"
    using Set_bytes [of "label_text name"] Set_bytes [of "label_text label"] l by simp_all
  let ?b = "cd_write (le_codec E) a k (of_nat (sl_Last name)) (Set (label_text name)) (of_nat (sl_Last label))
    (Set (label_text label)) (le_stack E)"
  have "?b = overlay (wire a k (label_text name) (label_text label)) (le_stack E)"
    using l set stack_length by (subst write_law) (simp_all add: unat_length_u8 wire_def)
  then have "take (4 + sl_Last name + sl_Last label) ?b = wire a k (label_text name) (label_text label)"
    using l stack_length take_overlay_all [of "wire a k (label_text name) (label_text label)" "le_stack E"]
    by (simp add: length_wire)
  then show ?thesis
    by (simp add: Packet_Send_def gneiss_write_message_def wire_msg_def Let_def cong: if_cong)
qed

lemma read_wire:
  assumes "length name < 256" and "length label < 256"
  shows "cd_read (le_codec E) (wire a k name label @ rest) = Some \<lparr>p_Action = a, p_Kind = k,
    p_Name = map byte_of_char name, p_Label = map byte_of_char label\<rparr>"
  using assms by (simp add: read_law wire_def parse_packet_bytes)

lemma Packet_Receive_labels:
  "wp (Packet_Receive E d n block) (\<lambda>(m, _) _. case m of None \<Rightarrow> True | Some msg \<Rightarrow> label_ok (bm_Name msg) \<and> label_ok (bm_Label msg)) w"
proof -
  have "label_ok (if data \<noteq> [] then Get data empty_label else empty_label)" if "length data < 256" for data
    using Get_text [OF _ that, of empty_label] by simp
  moreover have "length (p_Name p) < 256 \<and> length (p_Label p) < 256" if "cd_read (le_codec E) buf = Some p" for buf p
    using that by (auto simp: read_law parse_packet_Some)
  ultimately show ?thesis
    unfolding Packet_Receive_def wp_simps
    by (intro wp_mono [OF wp_True]) (auto simp: wp_simps split: option.splits)
qed

lemma Get_chars:
  assumes "s \<noteq> []" and "length s < 256"
  shows "label_text (Get (map byte_of_char s) empty_label) = s" "label_ok (Get (map byte_of_char s) empty_label)"
  using Get_text [of "map byte_of_char s" empty_label] assms by (simp_all add: comp_def)

end

subsection \<open>Messages that a process sends\<close>

locale linux_speaker = linux_client E + linux_calls "le_posix E" sent
  for E :: "'w linux_env" and sent :: "'w \<Rightarrow> (fd \<times> send_hdr) list"
begin

lemma syscall_sent [keeps_intros]:
  "keeps sent (gneiss_socketpair (le_posix E))" "keeps sent (gneiss_close (le_posix E) d)"
  "keeps sent (gneiss_open (le_posix E) path wr)" "keeps sent (gneiss_timerfd_create (le_posix E))"
  "keeps sent (gneiss_memfd_seal (le_posix E) d)" "keeps sent (Epoll_Add (le_posix E) efd d x)"
  "keeps sent (Epoll_Add_Ptr (le_posix E) efd d ptr)" "keeps sent (Epoll_Remove (le_posix E) efd d)"
  "keeps sent (gneiss_mmap (le_posix E) d wr)"
  unfolding gneiss_socketpair_def gneiss_close_def gneiss_open_def gneiss_timerfd_create_def gneiss_memfd_seal_def
    Epoll_Add_def gneiss_epoll_add_fd_def gneiss_epoll_add_def Epoll_Add_Ptr_def gneiss_epoll_add_ptr_def
    Epoll_Remove_def gneiss_epoll_remove_def gneiss_mmap_def gneiss_fstat_size_def
  by (intro keeps_intros)+

lemma Packet_Send_sent:
  "label_ok name \<Longrightarrow> label_ok label \<Longrightarrow> wp (Packet_Send E d a k name label ds) (\<lambda>_ w'.
     sent w' = sent w @ [(d, wire_msg a k (label_text name) (label_text label) ds)]) w"
  unfolding Packet_Send_wire wp_simps
  by (rule wp_mono [OF sendmsg_sent]) (auto intro: keeps_wpI [OF warn_sent])

lemma Packet_Receive_sent [keeps_intros]: "keeps sent (Packet_Receive E d n block)"
  unfolding Packet_Receive_def Packet_Recv_def gneiss_read_message_def read_message_def Let_def by (intro keeps_intros)

lemma Client_reply_sent:
  assumes "length name < 256" and "length label < 256"
  shows "wp (Client_Confirm E d k name 1 label ds) (\<lambda>r w'. r = Inr () \<and> sent w' = sent w @ [(d, wire_msg Confirm k name label ds)]) w"
    and "wp (Client_Reject E d k name 1 label) (\<lambda>r w'. r = Inr () \<and> sent w' = sent w @ [(d, wire_msg Reject k name label [])]) w"
  using assms Packet_Send_sent [of "to_label name" "to_label label"]
  by (simp_all add: Client_Confirm_def Client_Reject_def label_from_last_def wp_simps)

lemma Client_Dispatch_labels:
  "wp (Client_Dispatch E d kind n) (\<lambda>r w'. sent w' = sent w \<and>
     (case r of Inl _ \<Rightarrow> True | Inr (name, label, ds) \<Rightarrow> label_ok name \<and> label_ok label)) w"
  unfolding Client_Dispatch_def wp_simps
  by (rule wp_mono [OF wp_and [OF keeps_wp [OF Packet_Receive_sent] Packet_Receive_labels]]) (auto split: option.splits)

end

subsection \<open>Messages over a socket\<close>

locale linux_connection = linux_client E + linux_sockets "le_posix E" peer queue
  for E :: "'w linux_env" and peer :: "'w \<Rightarrow> fd \<Rightarrow> fd option" and queue :: "'w \<Rightarrow> fd \<Rightarrow> (bytes \<times> fd list) list"
begin

lemma Packet_Send_queues:
  assumes "peer w d = Some p" and "label_ok name" and "label_ok label"
  shows "wp (Packet_Send E d a k name label ds) (\<lambda>_ w'. queue w' = queue w \<or>
    queue w' = (queue w)(p := queue w p @ [(wire a k (label_text name) (label_text label), ds)])) w"
  unfolding Packet_Send_wire [OF assms(2,3)] wp_simps
proof (rule wp_mono [OF send_law [OF assms(1)]], goal_cases)
  case (1 rc w')
  then show ?case
    by (auto intro!: keeps_wpI [OF warn_keeps_queue])
qed

lemma Packet_Receive_wire:
  assumes "queue w d = (wire a k name label, rs) # rest" and "length name < 256" and "length label < 256"
    and "length rs \<le> n" and "n \<le> length (le_control E)"
  shows "wp (Packet_Receive E d n block) (\<lambda>(m, ds) w'. (\<exists>msg. m = Some msg \<and> same_text msg a k name label) \<and>
     length ds = n \<and> (\<forall>i < length rs. 0 \<le> ds ! i) \<and> queue w' = (queue w)(d := rest)) w"
proof -
  define fl where "fl = (MSG_TRUNC OR (if (if block then 1 else 0 :: int) \<noteq> 0 then 0 else MSG_DONTWAIT))"
  have fl: "fl AND MSG_PEEK = 0"
    by (simp add: fl_def posix_constants)
  have space: "16 + 4 * length rs \<le> CMSG_SPACE (4 * n)"
    using CMSG_SPACE_bound [of "4 * n"] assms(4) by simp
  have len: "length (wire a k name label) < 2 ^ 31" "0 < length (wire a k name label)"
    "length (wire a k name label) \<le> 1024"
    using assms(2,3) by (simp_all add: length_wire)
  have buf: "overlay (wire a k name label) (le_stack E) = wire a k name label @ drop (length (wire a k name label)) (le_stack E)"
    using len stack_length by (intro overlay_front) simp
  show ?thesis
    unfolding Packet_Receive_def Packet_Recv_def gneiss_read_message_def read_message_def fl_def [symmetric] Let_def wp_simps
  proof (rule wp_mono [OF recv_law [OF assms(1) space fl]], goal_cases)
    case (1 r w')
    then have ret: "rcv_ret r = int (length (wire a k name label))" "rcv_data r = wire a k name label"
      using len by simp_all
    have c: "to_c_int (rcv_ret r) = int (length (wire a k name label))"
      using len ret by (simp add: to_c_int_small)
    have rights: "length ds = n \<and> (\<forall>i < length rs. 0 \<le> ds ! i)"
      if "ds = (case rcv_cmsg r of Some h \<Rightarrow> if is_rights h then copy_rights n (le_control E) h (replicate n (- 1) @ drop n (replicate n 0))
           else replicate n (- 1) @ drop n (replicate n 0) | None \<Rightarrow> replicate n (- 1) @ drop n (replicate n 0))" for ds
      using 1 that assms(4,5)
      by (auto simp: is_rights_def nth_copy_rights split: option.splits)
    show ?case
      using c ret len 1 rights
      by (simp add: wp_simps buf read_wire [OF assms(2,3)] same_text_def Get_chars assms(2,3))
  qed
qed

end

text \<open>
  C16. A protocol message survives the way from \<open>Send\<close> to \<open>Receive\<close>: for every action, kind,
  name and label that a \<open>Session_Label\<close> can hold and every list of descriptors that fits
  the receiver's array, either the socket refuses the message, or \<open>Receive\<close> at the peer
  returns exactly this action, kind, name and label with one valid descriptor for each
  descriptor that was sent, whatever the packet buffer and the control buffer held before.
\<close>

theorem protocol_roundtrip:
  assumes "linux_connection E peer queue" and "peer w d = Some p" and "queue w p = []"
    and "label_ok name" and "label_ok label" and "length ds \<le> n" and "n \<le> length (le_control E)"
  shows "wp (Packet_Send E d a k name label ds) (\<lambda>_ w1. queue w1 p = [] \<or>
    wp (Packet_Receive E p n block) (\<lambda>(m, ds') w2.
      (\<exists>msg. m = Some msg \<and> same_text msg a k (label_text name) (label_text label)) \<and>
      length ds' = n \<and> (\<forall>i < length ds. 0 \<le> ds' ! i) \<and> queue w2 p = []) w1) w"
proof -
  have len: "length (label_text name) < 256" "length (label_text label) < 256"
    using assms(4,5) by (auto simp: length_label_text label_ok_def)
  show ?thesis
  proof (rule wp_mono [OF linux_connection.Packet_Send_queues [OF assms(1,2,4,5)]], goal_cases)
    case (1 _ w1)
    then show ?case
    proof
      assume "queue w1 = (queue w)(p := queue w p @ [(wire a k (label_text name) (label_text label), ds)])"
      then have "queue w1 p = [(wire a k (label_text name) (label_text label), ds)]"
        using assms(3) by simp
      then show ?thesis
        by (intro disjI2, rule wp_mono [OF linux_connection.Packet_Receive_wire [OF assms(1) _ len assms(6,7)]]) auto
    qed (use assms(3) in simp)
  qed
qed

text \<open>The reference kernel with two connected sockets.\<close>

definition sim_env :: "sim linux_env" where
  "sim_env = \<lparr> le_posix = sim_posix, le_codec = rflx_codec, le_stack = replicate 1024 7, le_control = [7, 7, 7, 7],
     le_status = 7, le_image = (\<lambda>i. ''int'') \<rparr>"

definition sim_pair :: sim where
  "sim_pair = sim_init\<lparr>sim_fds := [4, 3, 2, 1, 0], sim_peer := [(3, 4), (4, 3)]\<rparr>"

lemma sim_env_simps [simp]:
  "le_posix sim_env = sim_posix" "le_codec sim_env = rflx_codec" "length (le_stack sim_env) = 1024"
  "length (le_control sim_env) = 4"
  by (simp_all add: sim_env_def)

text \<open>The same kernel for a process whose control buffer happens to hold no descriptor.\<close>

definition clean_env :: "sim linux_env" where
  "clean_env = sim_env\<lparr>le_control := [-1, -1, -1, -1]\<rparr>"

interpretation sim_conn: linux_connection sim_env sim_peer_of sim_waiting
  by unfold_locales
    (simp_all add: rflx.write_law rflx.read_law sim_sockets.send_law sim_sockets.recv_law sim_sockets.warn_keeps_queue)

interpretation sim_speaker: linux_speaker sim_env sim_sent
  using sim_conn.linux_client_axioms sim_calls.linux_calls_axioms by (simp add: linux_speaker_def)

theorem protocol_roundtrip_witness:
  "wp (Packet_Send sim_env 3 Request Log empty_label (to_label ''a'') [0, 1]) (\<lambda>_ w1. sim_waiting w1 4 = [] \<or>
    wp (Packet_Receive sim_env 4 4 True) (\<lambda>(m, ds') w2.
      (\<exists>msg. m = Some msg \<and> same_text msg Request Log [] ''a'') \<and>
      length ds' = 4 \<and> (\<forall>i < Suc (Suc 0). 0 \<le> ds' ! i) \<and> sim_waiting w2 4 = []) w1) sim_pair"
proof -
  have "sim_peer_of sim_pair 3 = Some 4" "sim_waiting sim_pair 4 = []"
    by (simp_all add: sim_pair_def sim_init_def sim_peer_of_def sim_waiting_def)
  from protocol_roundtrip [OF sim_conn.linux_connection_axioms this, of empty_label "to_label ''a''" "[0, 1]" 4]
  show ?thesis by simp
qed

text \<open>
  A finding: \<open>Receive\<close> verifies the whole 1024-byte buffer and not the bytes that arrived. A
  datagram of one byte is accepted as any message that a previous call left on the stack.
\<close>

theorem Packet_Receive_trusts_stack:
  assumes "linux_client E" and "length name < 256" and "length label < 256"
    and "le_stack E = wire a k name label @ rest"
    and "run_state (k_recvmsg (le_posix E) d 1024 (CMSG_SPACE (4 * n)) (MSG_TRUNC OR 0)) w =
       (\<lparr>rcv_ret = 1, rcv_data = [action_code a], rcv_flags = 0, rcv_cmsg = None\<rparr>, w')"
  shows "\<exists>msg. fst (result (Packet_Receive E d n True) w) = Some msg \<and> same_text msg a k name label"
proof -
  have w: "wire a k name label = action_code a # tl (wire a k name label)"
    by (simp add: wire_def packet_bytes_def)
  have buf: "overlay [action_code a] (le_stack E) = wire a k name label @ rest"
    unfolding assms(4) by (subst (1 2) w) (simp add: overlay_def)
  have one: "to_c_int 1 = 1" by (simp add: to_c_int_small)
  show ?thesis
    using assms(5) one
    by (simp add: Packet_Receive_def Packet_Recv_def gneiss_read_message_def read_message_def Let_def buf
        linux_client.read_wire [OF assms(1-3)] same_text_def linux_client.Get_chars [OF assms(1)] assms(2,3))
qed

end
