(* ===== verification/Linux_Main.thy ===== *)
theory Linux_Main
  imports Linux_Protocol "HOL-Library.While_Combinator"
begin

text \<open>
  A component process on Linux: \<open>gneiss-main.adb\<close>, \<open>gneiss_internal.adb\<close>,
  \<open>gneiss_internal-linker.adb\<close>, \<open>gneiss_internal-print.adb\<close> and \<open>gneiss-component.adb\<close>. The
  component itself is a shared object that is loaded at run time; its code is the parameter
  \<open>L\<close>. It can end the process only by calling \<open>Set_Status\<close> through its capability, so a run of
  component code returns the arguments of these calls in order.
\<close>

subsection \<open>Output\<close>

definition print_blue :: string where "print_blue = CHR 0x1B # ''[34m''"
definition print_red :: string where "print_red = CHR 0x1B # ''[31m''"
definition print_reset :: string where "print_reset = CHR 0x1B # ''[0m''"

definition Print_Info :: "'w linux_env \<Rightarrow> string \<Rightarrow> ('w, unit) state" where
  "Print_Info E s = gneiss_fputs (le_posix E) (''I: '' @ s @ [CHR 0x0A])"

definition Print_Warning :: "'w linux_env \<Rightarrow> string \<Rightarrow> ('w, unit) state" where
  "Print_Warning E s = gneiss_fputs (le_posix E) (print_blue @ ''W: '' @ s @ print_reset @ [CHR 0x0A])"

definition Print_Error :: "'w linux_env \<Rightarrow> string \<Rightarrow> ('w, unit) state" where
  "Print_Error E s = gneiss_fputs (le_posix E) (print_red @ ''E: '' @ s @ print_reset @ [CHR 0x0A])"

subsection \<open>Capabilities\<close>

text \<open>
  The descriptors of a \<open>Capability\<close>. Its \<open>Set_Status\<close> is the address of the procedure below; the
  calls that a component makes through it are the list that its code returns.
\<close>

record capability =
  cap_Broker_Fd :: fd
  cap_Efd :: fd

record event_cap =
  Event_Adr :: addr
  Event_Ctx :: addr
  Error_Adr :: addr
  Error_Ctx :: addr
  ec_Fd :: fd

definition Valid_Event_Cap :: "event_cap \<Rightarrow> bool" where
  "Valid_Event_Cap c \<longleftrightarrow> Event_Adr c \<noteq> null \<and> Event_Ctx c \<noteq> null \<and> Error_Adr c \<noteq> null \<and> Error_Ctx c \<noteq> null"

definition Invalidate :: "event_cap \<Rightarrow> event_cap" where
  "Invalidate c = c\<lparr>Event_Adr := null, Event_Ctx := null, Error_Adr := null, Error_Ctx := null, ec_Fd := -1\<rparr>"

definition Create_Event_Cap :: "addr \<Rightarrow> addr \<Rightarrow> addr \<Rightarrow> addr \<Rightarrow> fd \<Rightarrow> event_cap" where
  "Create_Event_Cap event error ev_ctx er_ctx d =
     \<lparr>Event_Adr = event, Event_Ctx = ev_ctx, Error_Adr = error, Error_Ctx = er_ctx, ec_Fd = d\<rparr>"

text \<open>
  The loaded component: its two entry points, the procedures it registered for events, and
  the \<open>Event_Cap\<close> that its memory holds at an address.
\<close>

record 'w loaded =
  ld_construct :: "addr \<Rightarrow> capability \<Rightarrow> ('w, int list) state"
  ld_destruct :: "addr \<Rightarrow> ('w, int list) state"
  ld_handler :: "addr \<Rightarrow> addr \<Rightarrow> fd \<Rightarrow> ('w, int list) state"
  ld_event_cap :: "'w \<Rightarrow> addr \<Rightarrow> event_cap"

definition Call_Cap :: "'w loaded \<Rightarrow> event_cap \<Rightarrow> event_type \<Rightarrow> ('w, int list) state" where
  "Call_Cap L cap ev = (case ev of
       Epoll_Ev \<Rightarrow> ld_handler L (Event_Adr cap) (Event_Ctx cap) (ec_Fd cap)
     | Epoll_Er \<Rightarrow> ld_handler L (Error_Adr cap) (Error_Ctx cap) (ec_Fd cap))"

definition Call_Event :: "'w loaded \<Rightarrow> addr \<Rightarrow> event_type \<Rightarrow> ('w, int list) state" where
  "Call_Event L fp ev = do { w \<leftarrow> State_Monad.get; Call_Cap L (ld_event_cap L w fp) ev }"

subsection \<open>The main program\<close>

definition Running :: int where "Running = -1"
definition Success :: int where "Success = 0"
definition Failure :: int where "Failure = 1"

definition Set_Status :: "int \<Rightarrow> int \<Rightarrow> int" where
  "Set_Status s component_status = (if s = 0 then Success else Failure)"

datatype component_status = Status_Success | Status_Failure

definition Vacate :: "component_status \<Rightarrow> int \<Rightarrow> int" where
  "Vacate status = (case status of Status_Success \<Rightarrow> Set_Status 0 | Status_Failure \<Rightarrow> Set_Status 1)"

definition Create_Cap :: "fd \<Rightarrow> fd \<Rightarrow> capability" where
  "Create_Cap epoll_fd d = \<lparr>cap_Broker_Fd = d, cap_Efd = epoll_fd\<rparr>"

definition Linker_Open :: "'w linux_env \<Rightarrow> string \<Rightarrow> ('w, addr) state" where
  "Linker_Open E file = gneiss_dlopen (le_posix E) (takeWhile (\<lambda>c. c \<noteq> CHR 0x00) file)"

definition Linker_Symbol :: "'w linux_env \<Rightarrow> addr \<Rightarrow> string \<Rightarrow> ('w, addr) state" where
  "Linker_Symbol E handle name = gneiss_dlsym (le_posix E) handle (takeWhile (\<lambda>c. c \<noteq> CHR 0x00) name)"

text \<open>One event; the component status is passed through.\<close>

definition Event_Handler :: "'w linux_env \<Rightarrow> 'w loaded \<Rightarrow> fd \<Rightarrow> int \<Rightarrow> ('w, int) state" where
  "Event_Handler E L epoll_fd status = do {
     (event, event_ptr) \<leftarrow> Epoll_Wait_Ptr (le_posix E) epoll_fd;
     if event_ptr \<noteq> null then do {
       calls \<leftarrow> Call_Event L event_ptr (Get_Type event);
       ret (fold Set_Status calls status)
     } else ret status
   }"

text \<open>The part of \<open>Run\<close> before the component runs: the two symbols and the epoll descriptor, or the exit with 1.\<close>

definition Run_prepare :: "'w linux_env \<Rightarrow> string \<Rightarrow> ('w, (addr \<times> addr \<times> fd) option) state" where
  "Run_prepare E name = do {
     handle \<leftarrow> Linker_Open E name;
     if handle = null then do { Print_Error E ''Linker handle failed''; ret None }
     else do {
       construct_sym \<leftarrow> Linker_Symbol E handle ''component__construct'';
       destruct_sym \<leftarrow> Linker_Symbol E handle ''component__destruct'';
       if construct_sym = null \<or> destruct_sym = null then do { Print_Error E ''Linker symbols failed''; ret None }
       else do {
         epoll_fd \<leftarrow> gneiss_epoll_create (le_posix E);
         if \<not> 0 \<le> epoll_fd then do { Print_Error E ''Epoll creation failed''; ret None }
         else ret (Some (construct_sym, destruct_sym, epoll_fd))
       }
     }
   }"

text \<open>The event loop; \<open>None\<close> if it does not end.\<close>

definition Run_loop :: "'w linux_env \<Rightarrow> 'w loaded \<Rightarrow> fd \<Rightarrow> int \<times> 'w \<Rightarrow> (int \<times> 'w) option" where
  "Run_loop E L epoll_fd =
     while_option (\<lambda>(status, w). status = Running) (\<lambda>(status, w). run_state (Event_Handler E L epoll_fd status) w)"

definition Run :: "'w linux_env \<Rightarrow> 'w loaded \<Rightarrow> string \<Rightarrow> fd \<Rightarrow> 'w \<Rightarrow> (int \<times> 'w) option" where
  "Run E L name d w = (case run_state (Run_prepare E name) w of
       (None, w) \<Rightarrow> Some (1, w)
     | (Some (construct_sym, destruct_sym, epoll_fd), w) \<Rightarrow>
         (case run_state (ld_construct L construct_sym (Create_Cap epoll_fd d)) w of (calls, w) \<Rightarrow>
            (case Run_loop E L epoll_fd (fold Set_Status calls Running, w) of
               None \<Rightarrow> None
             | Some (status, w) \<Rightarrow>
                 (case run_state (ld_destruct L destruct_sym) w of (calls, w) \<Rightarrow> Some (fold Set_Status calls status, w)))))"

subsection \<open>Facts about the loop\<close>

lemma fold_Set_Status: "fold Set_Status calls st = (if calls = [] then st else if last calls = 0 then 0 else 1)"
  by (induction calls arbitrary: st) (auto simp: Set_Status_def Success_def Failure_def)

text \<open>The status and the world after \<open>n\<close> events.\<close>

definition after_events :: "'w linux_env \<Rightarrow> 'w loaded \<Rightarrow> fd \<Rightarrow> nat \<Rightarrow> int \<times> 'w \<Rightarrow> int \<times> 'w" where
  "after_events E L epoll_fd n = (\<lambda>(status, w). run_state (Event_Handler E L epoll_fd status) w) ^^ n"

lemma Event_Handler_status: "st \<in> {Running, 0, 1} \<Longrightarrow> result (Event_Handler E L efd st) w \<in> {Running, 0, 1}"
  by (auto simp: Event_Handler_def fold_Set_Status split: prod.splits)

lemma while_option_Some_iff:
  "while_option b c x = Some y \<longleftrightarrow> (\<exists>n. y = (c ^^ n) x \<and> \<not> b y \<and> (\<forall>k < n. b ((c ^^ k) x)))"
proof
  assume w: "while_option b c x = Some y"
  have ex: "\<exists>k. \<not> b ((c ^^ k) x)"
    using w unfolding while_option_def by (metis option.distinct(1))
  then have "\<not> b ((c ^^ (LEAST k. \<not> b ((c ^^ k) x))) x)" by (rule LeastI_ex)
  moreover have "y = (c ^^ (LEAST k. \<not> b ((c ^^ k) x))) x"
    using w ex unfolding while_option_def by simp
  moreover have "b ((c ^^ k) x)" if "k < (LEAST k. \<not> b ((c ^^ k) x))" for k
    using not_less_Least [OF that] by blast
  ultimately show "\<exists>n. y = (c ^^ n) x \<and> \<not> b y \<and> (\<forall>k < n. b ((c ^^ k) x))" by blast
next
  assume "\<exists>n. y = (c ^^ n) x \<and> \<not> b y \<and> (\<forall>k < n. b ((c ^^ k) x))"
  then obtain n where n: "y = (c ^^ n) x" "\<not> b ((c ^^ n) x)" "\<forall>k < n. b ((c ^^ k) x)" by auto
  then have "(LEAST k. \<not> b ((c ^^ k) x)) = n"
    by (intro Least_equality) (auto simp: not_less [symmetric])
  with n show "while_option b c x = Some y" unfolding while_option_def by auto
qed

lemma while_option_None_iff: "while_option b c x = None \<longleftrightarrow> (\<forall>n. b ((c ^^ n) x))"
  by (simp add: while_option_def)

lemma Run_loop_Some:
  "Run_loop E L efd x = Some y \<longleftrightarrow> (\<exists>n. y = after_events E L efd n x \<and> fst y \<noteq> Running \<and>
     (\<forall>k < n. fst (after_events E L efd k x) = Running))"
  unfolding Run_loop_def after_events_def while_option_Some_iff by (simp add: case_prod_unfold)

lemma Run_loop_None: "Run_loop E L efd x = None \<longleftrightarrow> (\<forall>n. fst (after_events E L efd n x) = Running)"
  unfolding Run_loop_def after_events_def while_option_None_iff by (simp add: case_prod_unfold)

lemma Run_loop_returned: "Run_loop E L efd x = Some y \<Longrightarrow> \<exists>n. fst (after_events E L efd n x) \<noteq> Running"
  by (metis Run_loop_None option.distinct(1))

lemma after_events_status: "fst x \<in> {Running, 0, 1} \<Longrightarrow> fst (after_events E L efd n x) \<in> {Running, 0, 1}"
  using Event_Handler_status [of _ E L efd]
  by (induction n) (simp_all add: after_events_def case_prod_unfold)

lemma after_events_Suc:
  "after_events E L efd (Suc n) x = (case after_events E L efd n x of (status, w) \<Rightarrow> run_state (Event_Handler E L efd status) w)"
  by (simp add: after_events_def)

subsection \<open>Properties\<close>


text \<open>
  C30. The final assignment of \<open>Run\<close> stays in the subtype \<open>Return_Code\<close>: the status of a component
  is \<open>Running\<close> (-1), 0 or 1 at every moment, and whenever \<open>Run\<close> returns it is 0 or 1, whatever
  integers the component passes to \<open>Set_Status\<close>, at construction, in events or in the destructor.
\<close>

theorem Run_status_type:
  assumes "Run E L name d w = Some (status, w')"
  shows "status \<in> {0, 1}"
proof -
  have range: "fold Set_Status calls st \<in> {0, 1}" if "st \<in> {Running, 0, 1}" "st \<noteq> Running" for calls st
    using that by (auto simp: fold_Set_Status)
  have loop: "fold Set_Status late st \<in> {0, 1}"
    if "Run_loop E L efd (fold Set_Status calls Running, w2) = Some (st, w3)" for efd calls w2 w3 st late
  proof (rule range)
    have "fold Set_Status calls Running \<in> {Running, 0, 1}" by (simp add: fold_Set_Status)
    with that show "st \<in> {Running, 0, 1}" "st \<noteq> Running"
      using after_events_status [of "(fold Set_Status calls Running, w2)" E L efd]
      unfolding Run_loop_Some by (metis fst_conv)+
  qed
  show ?thesis
    using assms by (auto simp: Run_def split: prod.splits option.splits simp del: insert_iff dest!: loop)
qed


text \<open>A component that registers one event and succeeds at the second one.\<close>

definition sample_component_code :: "sim loaded" where
  "sample_component_code = \<lparr>
     ld_construct = (\<lambda>a c. State (\<lambda>w. ([], w\<lparr>sim_log := ''construct'' # sim_log w\<rparr>))),
     ld_destruct = (\<lambda>a. State (\<lambda>w. ([], w\<lparr>sim_log := ''destruct'' # sim_log w\<rparr>))),
     ld_handler = (\<lambda>a c d. State (\<lambda>w. (if sim_events w = [] then [0] else [], w\<lparr>sim_log := ''event'' # sim_log w\<rparr>))),
     ld_event_cap = (\<lambda>w a. \<lparr>Event_Adr = 1, Event_Ctx = 1, Error_Adr = 2, Error_Ctx = 1, ec_Fd = 4\<rparr>) \<rparr>"

definition sample_events :: sim where
  "sample_events = sim_init\<lparr>sim_events := [\<lparr>ev_events = 1, ev_data = 16\<rparr>, \<lparr>ev_events = 1, ev_data = 16\<rparr>]\<rparr>"



theorem Run_status_type_witness:
  "(case Run sim_env sample_component_code ''lib.so'' 3 sample_events of None \<Rightarrow> False | Some (st, _) \<Rightarrow> st \<in> {0, 1})"
proof -
  define r where "r = Run sim_env sample_component_code ''lib.so'' 3 sample_events"
  have "r \<noteq> None" unfolding r_def by code_simp
  then obtain st w' where r: "r = Some (st, w')" by (cases r) auto
  from Run_status_type [OF this [unfolded r_def]] r show ?thesis unfolding r_def [symmetric] by simp
qed

end
