(* ===== verification/Linux_Log.thy ===== *)
theory Linux_Log
  imports Linux_Channels Linux_Main
begin

text \<open>
  Log output on Linux: the buffering client \<open>log/client/linux/gneiss-log-client.adb\<close> and the part of
  \<open>log/server/linux/gneiss-log-dispatcher.adb\<close> that receives what the client sends. The client
  collects characters in a buffer of 128 and sends the whole buffer, with a NUL behind the
  text, when a line ends or the buffer is full; the server hands the text in front of the NUL to
  the component.
\<close>

subsection \<open>The client\<close>

record llog_client =
  llc_Fd :: fd
  llc_Label :: session_label
  llc_Buffer :: string
  llc_Cursor :: nat
  llc_Newline :: bool

definition llog_client_new :: llog_client where
  "llog_client_new = \<lparr> llc_Fd = -1, llc_Label = empty_label, llc_Buffer = replicate 128 (CHR 0x00),
     llc_Cursor = 0, llc_Newline = True \<rparr>"

definition LLog_Client_Initialized :: "llog_client \<Rightarrow> bool" where
  "LLog_Client_Initialized s \<longleftrightarrow> Valid (llc_Fd s)"

text \<open>The buffer is an array from 1, \<open>Buffer (Cursor + 1)\<close> is the element at the position \<open>Cursor\<close>.\<close>

definition LLog_Flush_Buffer :: "'w posix \<Rightarrow> llog_client \<Rightarrow> ('w, llog_client) state" where
  "LLog_Flush_Buffer K s = do {
     let s = (if llc_Cursor s < 128 then s\<lparr>llc_Buffer := (llc_Buffer s)[llc_Cursor s := CHR 0x00]\<rparr> else s);
     gneiss_message_write K (llc_Fd s) (map byte_of_char (llc_Buffer s)) 128;
     ret (s\<lparr>llc_Cursor := 0\<rparr>)
   }"

fun LLog_Print_loop :: "'w posix \<Rightarrow> string \<Rightarrow> llog_client \<Rightarrow> ('w, llog_client) state" where
  "LLog_Print_loop K [] s = ret s"
| "LLog_Print_loop K (c # cs) s = do {
     let s = s\<lparr>llc_Cursor := llc_Cursor s + 1, llc_Buffer := (llc_Buffer s)[llc_Cursor s := c]\<rparr>;
     s \<leftarrow> (if c = CHR 0x0A \<and> llc_Cursor s < 128 \<or> llc_Cursor s \<ge> 128 then LLog_Flush_Buffer K s else ret s);
     LLog_Print_loop K cs s
   }"

definition LLog_Print :: "'w posix \<Rightarrow> string \<Rightarrow> llog_client \<Rightarrow> ('w, llog_client) state" where
  "LLog_Print K msg s = do {
     s \<leftarrow> (if llc_Cursor s \<ge> 128 then LLog_Flush_Buffer K s else ret s);
     LLog_Print_loop K msg s
   }"

definition LLog_Prefix_Message :: "'w posix \<Rightarrow> string \<Rightarrow> string \<Rightarrow> bool \<Rightarrow> llog_client \<Rightarrow> ('w, llog_client) state" where
  "LLog_Prefix_Message K prefix msg newline s = do {
     s \<leftarrow> LLog_Print K prefix s;
     s \<leftarrow> LLog_Print K msg s;
     if newline then LLog_Print K [CHR 0x0A] s else ret s
   }"

definition LLog_Info :: "'w posix \<Rightarrow> string \<Rightarrow> bool \<Rightarrow> llog_client \<Rightarrow> ('w, llog_client) state" where
  "LLog_Info K msg newline s = LLog_Prefix_Message K ''Info: '' msg newline s"

definition LLog_Warning :: "'w posix \<Rightarrow> string \<Rightarrow> bool \<Rightarrow> llog_client \<Rightarrow> ('w, llog_client) state" where
  "LLog_Warning K msg newline s = LLog_Prefix_Message K ''Warning: '' msg newline s"

definition LLog_Error :: "'w posix \<Rightarrow> string \<Rightarrow> bool \<Rightarrow> llog_client \<Rightarrow> ('w, llog_client) state" where
  "LLog_Error K msg newline s = LLog_Prefix_Message K ''Error: '' msg newline s"

definition LLog_Flush :: "'w posix \<Rightarrow> llog_client \<Rightarrow> ('w, llog_client) state" where
  "LLog_Flush K s = LLog_Flush_Buffer K s"

text \<open>A component's calls.\<close>

datatype llog_op = L_Print string | L_Info string bool | L_Warning string bool | L_Error string bool | L_Flush

fun run_llog_op :: "'w posix \<Rightarrow> llog_op \<Rightarrow> llog_client \<Rightarrow> ('w, llog_client) state" where
  "run_llog_op K (L_Print m) = LLog_Print K m"
| "run_llog_op K (L_Info m nl) = LLog_Info K m nl"
| "run_llog_op K (L_Warning m nl) = LLog_Warning K m nl"
| "run_llog_op K (L_Error m nl) = LLog_Error K m nl"
| "run_llog_op K L_Flush = LLog_Flush K"

fun run_llog :: "'w posix \<Rightarrow> llog_op list \<Rightarrow> llog_client \<Rightarrow> ('w, llog_client) state" where
  "run_llog K [] s = ret s"
| "run_llog K (x # xs) s = do { s \<leftarrow> run_llog_op K x s; run_llog K xs s }"

fun op_text :: "llog_op \<Rightarrow> string" where
  "op_text (L_Print m) = m"
| "op_text (L_Info m nl) = ''Info: '' @ m @ (if nl then [CHR 0x0A] else [])"
| "op_text (L_Warning m nl) = ''Warning: '' @ m @ (if nl then [CHR 0x0A] else [])"
| "op_text (L_Error m nl) = ''Error: '' @ m @ (if nl then [CHR 0x0A] else [])"
| "op_text L_Flush = []"

subsection \<open>The server\<close>

record llog_server =
  lls_Fd :: fd
  lls_Index :: "nat option"
  lls_Buffer :: string
  lls_Cursor :: nat
  lls_E_Cap :: event_cap

definition LLog_Server_Initialized :: "llog_server \<Rightarrow> bool" where
  "LLog_Server_Initialized s \<longleftrightarrow> Valid (lls_Fd s) \<and> Valid_Event_Cap (lls_E_Cap s) \<and> lls_Index s \<noteq> None"

definition LLog_Read_Buffer :: "'w posix \<Rightarrow> llog_server \<Rightarrow> ('w, llog_server) state" where
  "LLog_Read_Buffer K s = do {
     bs \<leftarrow> gneiss_message_read K (lls_Fd s) (map byte_of_char (lls_Buffer s)) 128;
     ret (s\<lparr>lls_Buffer := map char_of_byte bs, lls_Cursor := 1\<rparr>)
   }"

text \<open>The loop: \<open>i\<close> is the index of the first remaining element, the result the last value of \<open>Cursor\<close>.\<close>

fun cursor_loop :: "string \<Rightarrow> nat \<Rightarrow> nat \<Rightarrow> nat" where
  "cursor_loop [] i cursor = cursor"
| "cursor_loop (c # cs) i cursor = (if c = CHR 0x00 then cursor else cursor_loop cs (i + 1) i)"

text \<open>\<open>W\<close> is \<open>Server_Instance.Write\<close>, the component's code.\<close>

definition LLog_Session_Event :: "'w posix \<Rightarrow> (string \<Rightarrow> ('w, unit) state) \<Rightarrow> llog_server \<Rightarrow> ('w, llog_server) state" where
  "LLog_Session_Event K W s = (if \<not> LLog_Server_Initialized s then ret s
     else do {
       s \<leftarrow> LLog_Read_Buffer K s;
       let s = s\<lparr>lls_Cursor := cursor_loop (lls_Buffer s) 1 (lls_Cursor s)\<rparr>;
       whenM (lls_Cursor s > 1) (W (take (lls_Cursor s) (lls_Buffer s)));
       ret s
     })"

subsection \<open>What the client sends\<close>

text \<open>The text that is buffered, the text in a sent buffer, and the invariant between calls.\<close>

definition pending :: "llog_client \<Rightarrow> string" where
  "pending s = take (llc_Cursor s) (llc_Buffer s)"

definition framed :: "bytes \<Rightarrow> string" where
  "framed b = takeWhile (\<lambda>c. c \<noteq> CHR 0x00) (map char_of_byte b)"

definition llc_ok :: "llog_client \<Rightarrow> bool" where
  "llc_ok s \<longleftrightarrow> length (llc_Buffer s) = 128 \<and> llc_Cursor s < 128 \<and> CHR 0x00 \<notin> set (pending s) \<and> CHR 0x0A \<notin> set (pending s)"

lemma map_char_of_bytes [simp]: "map char_of_byte (map byte_of_char cs) = cs"
  by (induction cs) simp_all

lemma takeWhile_cut:
  "k < length xs \<Longrightarrow> x \<notin> set (take k xs) \<Longrightarrow> takeWhile (\<lambda>c. c \<noteq> x) (xs[k := x]) = take k xs"
  by (auto simp: upd_conv_take_nth_drop takeWhile_append takeWhile_eq_all_conv)

context linux_sends
begin

lemma gneiss_message_write_written:
  "length bs = sz \<Longrightarrow> wp (gneiss_message_write K d bs sz) (\<lambda>_ w'. written w' = written w @ [(d, bs)]) w"
  unfolding gneiss_message_write_def wp_simps
  by (rule wp_mono [OF send_written]) (auto intro: keeps_wpI [OF warn_written])

lemma wp_Flush_Buffer:
  assumes "length (llc_Buffer s) = 128" and "llc_Cursor s \<le> 128" and "CHR 0x00 \<notin> set (pending s)"
    and "\<And>s' b w'. llc_ok s' \<Longrightarrow> llc_Fd s' = llc_Fd s \<Longrightarrow> pending s' = [] \<Longrightarrow> length b = 128 \<Longrightarrow> framed b = pending s \<Longrightarrow>
      written w' = written w @ [(llc_Fd s, b)] \<Longrightarrow> Q s' w'"
  shows "wp (LLog_Flush_Buffer K s) Q w"
proof -
  define b where "b = (if llc_Cursor s < 128 then (llc_Buffer s)[llc_Cursor s := CHR 0x00] else llc_Buffer s)"
  have b: "length b = 128" "takeWhile (\<lambda>c. c \<noteq> CHR 0x00) b = pending s"
    using assms(1-3) takeWhile_cut [of "llc_Cursor s" "llc_Buffer s" "CHR 0x00"]
    by (auto simp: b_def pending_def takeWhile_eq_all_conv)
  have flush: "LLog_Flush_Buffer K s = do {
      gneiss_message_write K (llc_Fd s) (map byte_of_char b) 128; ret (s\<lparr>llc_Buffer := b, llc_Cursor := 0\<rparr>) }"
    by (simp add: LLog_Flush_Buffer_def b_def)
  show ?thesis
    unfolding flush wp_simps
    by (rule wp_mono [OF gneiss_message_write_written])
      (use b assms(4) [of "s\<lparr>llc_Buffer := b, llc_Cursor := 0\<rparr>" "map byte_of_char b"] in
        \<open>auto simp: llc_ok_def pending_def framed_def simp del: map_map\<close>)
qed

text \<open>Code that sends whole buffers whose texts continue the output with \<open>t\<close>.\<close>

definition emits :: "string \<Rightarrow> llog_client \<Rightarrow> ('w, llog_client) state \<Rightarrow> bool" where
  "emits t s m \<longleftrightarrow> (\<forall>w. wp m (\<lambda>s' w'. llc_ok s' \<and> llc_Fd s' = llc_Fd s \<and>
     (\<exists>bs. written w' = written w @ map (Pair (llc_Fd s)) bs \<and> (\<forall>b \<in> set bs. length b = 128) \<and>
        concat (map framed bs) @ pending s' = pending s @ t)) w)"

lemma emits_return: "llc_ok s \<Longrightarrow> emits [] s (ret s)"
  unfolding emits_def wp_simps by (auto intro: exI [of _ "[]"])

lemma emits_bind:
  assumes "emits t s m" and "\<And>s'. llc_ok s' \<Longrightarrow> emits u s' (f s')"
  shows "emits (t @ u) s (State_Monad.bind m f)"
  unfolding emits_def wp_simps
proof (intro allI, rule wp_mono [OF assms(1) [unfolded emits_def, rule_format]], goal_cases)
  case (1 w s1 w1)
  then obtain bs where bs: "llc_ok s1" "llc_Fd s1 = llc_Fd s" "written w1 = written w @ map (Pair (llc_Fd s)) bs"
    "\<forall>b \<in> set bs. length b = 128" "concat (map framed bs) @ pending s1 = pending s @ t" by blast
  show ?case
  proof (rule wp_mono [OF assms(2) [OF bs(1), unfolded emits_def, rule_format]], goal_cases)
    case (1 s2 w2)
    then obtain cs where "written w2 = written w1 @ map (Pair (llc_Fd s1)) cs" "\<forall>b \<in> set cs. length b = 128"
      "concat (map framed cs) @ pending s2 = pending s1 @ u" "llc_ok s2" "llc_Fd s2 = llc_Fd s1" by blast
    moreover from this(3) bs(5) have "concat (map framed (bs @ cs)) @ pending s2 = pending s @ t @ u"
      by (metis append_assoc concat_append map_append)
    ultimately show ?case using bs by (intro conjI exI [of _ "bs @ cs"]) auto
  qed
qed

lemma emits_flush: "llc_ok s \<Longrightarrow> emits [] s (LLog_Flush_Buffer K s)"
  unfolding emits_def by (intro allI wp_Flush_Buffer) (auto simp: llc_ok_def intro: exI [of _ "[_]"])

text \<open>One round of the loop.\<close>

lemma emits_char:
  assumes "llc_ok s" and "c \<noteq> CHR 0x00"
  defines "s1 \<equiv> s\<lparr>llc_Cursor := llc_Cursor s + 1, llc_Buffer := (llc_Buffer s)[llc_Cursor s := c]\<rparr>"
  shows "emits [c] s (if c = CHR 0x0A \<and> llc_Cursor s1 < 128 \<or> llc_Cursor s1 \<ge> 128 then LLog_Flush_Buffer K s1 else ret s1)"
proof -
  have p: "pending s1 = pending s @ [c]" "length (llc_Buffer s1) = 128" "llc_Cursor s1 \<le> 128" "llc_Fd s1 = llc_Fd s"
    using assms(1) by (auto simp: s1_def pending_def llc_ok_def take_Suc_conv_app_nth)
  moreover from p assms have "CHR 0x00 \<notin> set (pending s1)" by (simp add: llc_ok_def)
  ultimately have flush: "emits [c] s (LLog_Flush_Buffer K s1)"
    unfolding emits_def by (intro allI wp_Flush_Buffer) (auto intro: exI [of _ "[_]"])
  moreover have "emits [c] s (ret s1)" if "c \<noteq> CHR 0x0A" "llc_Cursor s1 < 128"
    using that p assms(1,2) by (auto simp: emits_def wp_simps llc_ok_def intro!: exI [of _ "[]"])
  ultimately show ?thesis by auto
qed

lemma emits_Print_loop: "llc_ok s \<Longrightarrow> CHR 0x00 \<notin> set msg \<Longrightarrow> emits msg s (LLog_Print_loop K msg s)"
proof (induction msg arbitrary: s)
  case (Cons c cs)
  have "emits ([c] @ cs) s (LLog_Print_loop K (c # cs) s)"
    unfolding LLog_Print_loop.simps Let_def
    by (rule emits_bind [OF emits_char]) (use Cons in auto)
  then show ?case by simp
qed (simp add: emits_return)

lemma emits_Print: "llc_ok s \<Longrightarrow> CHR 0x00 \<notin> set msg \<Longrightarrow> emits msg s (LLog_Print K msg s)"
  using emits_Print_loop by (auto simp: LLog_Print_def llc_ok_def)

lemma emits_Prefix_Message:
  assumes "llc_ok s" and "CHR 0x00 \<notin> set msg" and "CHR 0x00 \<notin> set prefix"
  shows "emits (prefix @ msg @ (if nl then [CHR 0x0A] else [])) s (LLog_Prefix_Message K prefix msg nl s)"
  unfolding LLog_Prefix_Message_def
  by (intro emits_bind emits_Print assms) (auto simp: emits_return intro: emits_Print)

lemma emits_op:
  assumes "llc_ok s" and "CHR 0x00 \<notin> set (op_text x)"
  shows "emits (op_text x) s (run_llog_op K x s)"
proof (cases x)
  case (L_Info m nl)
  with assms show ?thesis using emits_Prefix_Message [of s m "''Info: ''" nl] by (simp add: LLog_Info_def)
next
  case (L_Warning m nl)
  with assms show ?thesis using emits_Prefix_Message [of s m "''Warning: ''" nl] by (simp add: LLog_Warning_def)
next
  case (L_Error m nl)
  with assms show ?thesis using emits_Prefix_Message [of s m "''Error: ''" nl] by (simp add: LLog_Error_def)
qed (use assms in \<open>simp_all add: emits_Print LLog_Flush_def emits_flush\<close>)

lemma emits_run:
  "llc_ok s \<Longrightarrow> CHR 0x00 \<notin> set (concat (map op_text ops)) \<Longrightarrow> emits (concat (map op_text ops)) s (run_llog K ops s)"
  by (induction ops arbitrary: s) (auto simp: emits_return intro: emits_bind emits_op)

end

subsection \<open>What the server hands on\<close>

lemma cursor_loop_takeWhile:
  "cursor_loop cs i k = (if takeWhile (\<lambda>c. c \<noteq> CHR 0x00) cs = [] then k
     else i + length (takeWhile (\<lambda>c. c \<noteq> CHR 0x00) cs) - 1)"
  by (induction cs arbitrary: i k) auto

lemma cursor_loop_framed: "cursor_loop (map char_of_byte b) 1 1 = max 1 (length (framed b))"
  by (auto simp: cursor_loop_takeWhile framed_def max_def not_le Suc_le_eq)

lemma take_framed: "0 < length (framed b) \<Longrightarrow> take (max 1 (length (framed b))) (map char_of_byte b) = framed b"
  by (simp add: framed_def max_absorb2 Suc_leI takeWhile_eq_take [symmetric])

subsection \<open>Properties\<close>

text \<open>
  C13. Nothing that a component prints is lost or reordered on its way to the socket. After any
  sequence of \<open>Print\<close>, \<open>Info\<close>, \<open>Warning\<close>, \<open>Error\<close> and \<open>Flush\<close> calls with texts without NUL, the client has sent
  whole buffers of 128 bytes whose NUL-terminated texts, one after the other and followed by
  the text that is still buffered, are exactly the prefixes, messages and line feeds in order; the buffered
  text has no line feed, that is, every completed line has been sent, and a final \<open>Flush\<close>
  leaves nothing behind.
\<close>

theorem linux_log_framing:
  assumes "linux_sends K written" and "llc_ok s" and "CHR 0x00 \<notin> set (concat (map op_text ops))"
  shows "wp (run_llog K ops s) (\<lambda>s' w'. llc_ok s' \<and> llc_Fd s' = llc_Fd s \<and> CHR 0x0A \<notin> set (pending s') \<and>
     (\<exists>bs. written w' = written w @ map (Pair (llc_Fd s)) bs \<and> (\<forall>b \<in> set bs. length b = 128) \<and>
        concat (map framed bs) @ pending s' = pending s @ concat (map op_text ops)) \<and>
     wp (LLog_Flush K s') (\<lambda>s'' w''. pending s'' = [] \<and>
        (\<exists>b. written w'' = written w' @ [(llc_Fd s, b)] \<and> length b = 128 \<and> framed b = pending s')) w') w"
proof (rule wp_mono [OF linux_sends.emits_run
      [OF assms, unfolded linux_sends.emits_def [OF assms(1)], rule_format]], goal_cases)
  case (1 s1 w1)
  moreover have "wp (LLog_Flush K s1) (\<lambda>s'' w''. pending s'' = [] \<and>
        (\<exists>b. written w'' = written w1 @ [(llc_Fd s, b)] \<and> length b = 128 \<and> framed b = pending s1)) w1"
    unfolding LLog_Flush_def
    by (rule linux_sends.wp_Flush_Buffer [OF assms(1)]) (use 1 in \<open>auto simp: llc_ok_def\<close>)
  ultimately show ?case by (simp add: llc_ok_def)
qed

text \<open>A new session is in the state that the theorem asks for.\<close>

lemma llc_ok_new: "llc_ok llog_client_new" "pending llog_client_new = []"
  by (simp_all add: llc_ok_def llog_client_new_def pending_def)

theorem linux_log_framing_witness:
  "wp (run_llog sim_posix [L_Print ''ab'', L_Info ''started'' True, L_Print ''x''] (llog_client_new\<lparr>llc_Fd := 5\<rparr>))
     (\<lambda>s' w'. pending s' = ''x'' \<and>
        (\<exists>bs. sim_written w' = map (Pair 5) bs \<and> concat (map framed bs) = ''abInfo: started'' @ [CHR 0x0A])) sim_init"
proof -
  let ?s = "llog_client_new\<lparr>llc_Fd := 5\<rparr>"
  let ?ops = "[L_Print ''ab'', L_Info ''started'' True, L_Print ''x'']"
  have s: "llc_ok ?s" "pending ?s = []" by (simp_all add: llc_ok_def llog_client_new_def pending_def)
  have p: "wp (run_llog sim_posix ?ops ?s) (\<lambda>s' w'. pending s' = ''x'') sim_init"
    unfolding wp_run pending_def by code_simp
  have n: "CHR 0x00 \<notin> set (concat (map op_text ?ops))" by simp
  have "wp (run_llog sim_posix ?ops ?s) (\<lambda>s' w'. pending s' = ''x'' \<and>
      (\<exists>bs. sim_written w' = map (Pair 5) bs \<and> concat (map framed bs) @ pending s' = ''abInfo: started'' @ CHR 0x0A # ''x'')) sim_init"
    by (rule wp_mono [OF wp_and [OF p linux_log_framing [OF sim_sends.linux_sends_axioms s(1) n]]])
      (auto simp: s sim_init_def)
  then show ?thesis by (rule wp_mono) auto
qed

text \<open>
  The server hands a received buffer on exactly once and as the client meant it: when
  \<open>recv\<close> delivers a buffer of 128 bytes, \<open>Session_Event\<close> calls the component's \<open>Write\<close> with the text in front of
  the first NUL, or with the whole buffer if there is none, and with nothing else. The exception is
  a text of one character, which is dropped just like an empty one, since the cursor starts at the first
  index.
\<close>

theorem linux_log_session_event:
  assumes "LLog_Server_Initialized s" and "length (lls_Buffer s) = 128" and "length b = 128"
    and "run_state (k_recv K (lls_Fd s) 128 (MSG_DONTWAIT OR MSG_TRUNC)) w = ((128, b), w1)"
  shows "run_state (LLog_Session_Event K W s) w =
    (s\<lparr>lls_Buffer := map char_of_byte b, lls_Cursor := max 1 (length (framed b))\<rparr>,
     if 1 < length (framed b) then final (W (framed b)) w1 else w1)"
proof -
  have "run_state (LLog_Read_Buffer K s) w = (s\<lparr>lls_Buffer := map char_of_byte b, lls_Cursor := 1\<rparr>, w1)"
    using assms(2-4) by (simp add: LLog_Read_Buffer_def gneiss_message_read_def overlay_same_length)
  with assms(1) show ?thesis
    using take_framed [of b] cursor_loop_framed [of b]
    by (auto simp: LLog_Session_Event_def max_def Suc_le_eq split: prod.splits if_splits)
qed

text \<open>A server whose component writes to the console, and a client connected to it.\<close>

definition sample_llog_server :: llog_server where
  "sample_llog_server = \<lparr> lls_Fd = 4, lls_Index = Some 1, lls_Buffer = replicate 128 (CHR 0x00), lls_Cursor = 1,
     lls_E_Cap = Create_Event_Cap 1 2 1 1 4 \<rparr>"

definition sample_logged :: "string \<Rightarrow> sim" where
  "sample_logged msg = final (run_llog sim_posix [L_Print msg, L_Flush] (llog_client_new\<lparr>llc_Fd := 3\<rparr>)) sim_pair"

theorem linux_log_session_event_witness:
  "sim_log (final (LLog_Session_Event sim_posix (k_fputs sim_posix) sample_llog_server) (sample_logged ''ab'')) = [''ab'']"
proof -
  define b where "b = map byte_of_char ''ab'' @ replicate 126 0"
  have r: "run_state (k_recv sim_posix (lls_Fd sample_llog_server) 128 (MSG_DONTWAIT OR MSG_TRUNC)) (sample_logged ''ab'') =
      ((128, b), (sample_logged ''ab'')\<lparr>sim_queue := []\<rparr>)"
    unfolding b_def by code_simp
  have i: "LLog_Server_Initialized sample_llog_server" "length (lls_Buffer sample_llog_server) = 128" "length b = 128"
    "framed b = ''ab''" "sim_log (sample_logged ''ab'') = []"
    unfolding b_def by code_simp+
  from linux_log_session_event [OF i(1-3) r, of "k_fputs sim_posix"] i(4,5) show ?thesis
    by (simp add: sim_posix_def)
qed

text \<open>A finding: a line that consists of the line feed only never reaches the server's component.\<close>

theorem linux_log_loses_character:
  "map framed (map snd (sim_written (sample_logged [CHR 0x0A]))) = [[CHR 0x0A], []] \<and>
   sim_log (final (LLog_Session_Event sim_posix (k_fputs sim_posix) sample_llog_server) (sample_logged [CHR 0x0A])) = []"
  by code_simp

end
