(* ===== verification/Linux_Sessions.thy ===== *)
theory Linux_Sessions
  imports Linux_Log Linux_Timer
begin

text \<open>
  The client sessions on Linux: the Ada bodies of the Log, Memory, Message, Rom and Timer clients,
  which ask the broker for a descriptor and keep it together with a mapping or an
  event capability.
\<close>

subsection \<open>Labels and event capabilities\<close>

text \<open>The assignments to \<open>Label.Last\<close> and to the slice of \<open>Label.Value\<close>.\<close>

definition store_label :: "string \<Rightarrow> session_label \<Rightarrow> session_label" where
  "store_label text l = l\<lparr>sl_Last := length text, sl_Value := text @ drop (length text) (sl_Value l)\<rparr>"

text \<open>The addresses an \<open>Event_Cap\<close> is made of, and the address of the capability in the session.\<close>

record event_site =
  es_Event :: addr
  es_Error :: addr
  es_Session :: addr
  es_Cap :: addr

definition site_ok :: "event_site \<Rightarrow> bool" where
  "site_ok a \<longleftrightarrow> es_Event a \<noteq> null \<and> es_Error a \<noteq> null \<and> es_Session a \<noteq> null"

definition Event_Cap :: "event_site \<Rightarrow> fd \<Rightarrow> event_cap" where
  "Event_Cap a d = Create_Event_Cap (es_Event a) (es_Error a) (es_Session a) (es_Session a) d"

definition Invalid_Event_Cap :: event_cap where
  "Invalid_Event_Cap = \<lparr>Event_Adr = null, Event_Ctx = null, Error_Adr = null, Error_Ctx = null, ec_Fd = -1\<rparr>"

subsection \<open>Log\<close>

definition LLog_Client_Initialize :: "'w linux_env \<Rightarrow> capability \<Rightarrow> string \<Rightarrow> llog_client \<Rightarrow> ('w, llog_client) state" where
  "LLog_Client_Initialize E cap label s =
     (if LLog_Client_Initialized s \<or> length label > 255 then ret s
      else do {
        ds \<leftarrow> Client_Initialize E (cap_Broker_Fd cap) Log [-1] label;
        ret (if ds ! 0 < 0 then s else s\<lparr>llc_Label := store_label label (llc_Label s), llc_Fd := ds ! 0\<rparr>)
      })"

definition LLog_Client_Finalize :: "'w linux_env \<Rightarrow> llog_client \<Rightarrow> ('w, llog_client) state" where
  "LLog_Client_Finalize E s = do {
     d \<leftarrow> gneiss_close (le_posix E) (llc_Fd s);
     ret (s\<lparr>llc_Fd := d, llc_Label := (llc_Label s)\<lparr>sl_Last := 0\<rparr>\<rparr>)
   }"

subsection \<open>Memory\<close>

record lmem_client =
  lmc_Index :: "nat option"
  lmc_Fd :: fd
  lmc_Sigfd :: fd
  lmc_Map :: addr

definition lmem_client_new :: lmem_client where
  "lmem_client_new = \<lparr> lmc_Index = None, lmc_Fd = -1, lmc_Sigfd = -1, lmc_Map = null \<rparr>"

definition LMemory_Client_Initialized :: "lmem_client \<Rightarrow> bool" where
  "LMemory_Client_Initialized s \<longleftrightarrow> lmc_Index s \<noteq> None \<and> Valid (lmc_Fd s) \<and> lmc_Map s \<noteq> null"

text \<open>\<open>lo\<close> is \<open>Label'First\<close>; the name of the memory file ends at the first NUL of \<open>Label & ASCII.NUL\<close>.\<close>

definition LMemory_Client_Initialize ::
  "'w linux_env \<Rightarrow> capability \<Rightarrow> int \<Rightarrow> string \<Rightarrow> int \<Rightarrow> nat \<Rightarrow> lmem_client \<Rightarrow> ('w, lmem_client) state" where
  "LMemory_Client_Initialize E cap lo label sz idx s =
     (if LMemory_Client_Initialized s \<or> length label > 255 \<or> lo > 2147483647 - 255 then ret s
      else do {
        d \<leftarrow> gneiss_memfd_create (le_posix E) (takeWhile (\<lambda>c. c \<noteq> CHR 0x00) label) (of_int sz);
        let s = s\<lparr>lmc_Fd := d\<rparr>;
        if \<not> Valid (lmc_Fd s) then ret s
        else do {
          m \<leftarrow> gneiss_mmap (le_posix E) (lmc_Fd s) 1;
          let s = s\<lparr>lmc_Map := m\<rparr>;
          if lmc_Map s = null then do {
            d \<leftarrow> gneiss_close (le_posix E) (lmc_Fd s);
            ret (s\<lparr>lmc_Fd := d\<rparr>)
          } else do {
            ds \<leftarrow> Client_Initialize E (cap_Broker_Fd cap) Memory [lmc_Fd s] label;
            if ds ! 0 < 0 then do {
              m \<leftarrow> gneiss_munmap (le_posix E) (lmc_Fd s) (lmc_Map s);
              d \<leftarrow> gneiss_close (le_posix E) (lmc_Fd s);
              ret (s\<lparr>lmc_Map := m, lmc_Fd := d\<rparr>)
            } else ret (s\<lparr>lmc_Sigfd := ds ! 0, lmc_Index := Some idx\<rparr>)
          }
        }
      })"

definition LMemory_Client_Finalize :: "'w linux_env \<Rightarrow> lmem_client \<Rightarrow> ('w, lmem_client) state" where
  "LMemory_Client_Finalize E s =
     (if \<not> LMemory_Client_Initialized s then ret s
      else do {
        m \<leftarrow> gneiss_munmap (le_posix E) (lmc_Fd s) (lmc_Map s);
        sg \<leftarrow> gneiss_close (le_posix E) (lmc_Sigfd s);
        d \<leftarrow> gneiss_close (le_posix E) (lmc_Fd s);
        ret (s\<lparr>lmc_Map := m, lmc_Sigfd := sg, lmc_Fd := d, lmc_Index := None\<rparr>)
      })"

subsection \<open>Message\<close>

record lmsg_client =
  lgc_Fd :: fd
  lgc_Efd :: fd
  lgc_Label :: session_label
  lgc_Index :: "nat option"
  lgc_E_Cap :: event_cap

definition lmsg_client_new :: lmsg_client where
  "lmsg_client_new = \<lparr> lgc_Fd = -1, lgc_Efd = -1, lgc_Label = empty_label, lgc_Index = None, lgc_E_Cap = Invalid_Event_Cap \<rparr>"

text \<open>\<open>bits\<close> is \<open>Message_Buffer'Size\<close> of the instance.\<close>

definition LMessage_Client_Initialized :: "nat \<Rightarrow> lmsg_client \<Rightarrow> bool" where
  "LMessage_Client_Initialized bits s \<longleftrightarrow> Valid (lgc_Fd s) \<and> lgc_Index s \<noteq> None \<and> 0 \<le> lgc_Efd s \<and>
     Valid_Event_Cap (lgc_E_Cap s) \<and> bits = 128 * 8"

definition LMessage_Client_Initialize ::
  "'w linux_env \<Rightarrow> nat \<Rightarrow> event_site \<Rightarrow> capability \<Rightarrow> string \<Rightarrow> nat \<Rightarrow> lmsg_client \<Rightarrow> ('w, lmsg_client) state" where
  "LMessage_Client_Initialize E bits a cap label idx s =
     (if LMessage_Client_Initialized bits s \<or> length (sl_Value (lgc_Label s)) < length label \<or> bits \<noteq> 128 * 8 then ret s
      else do {
        ds \<leftarrow> Client_Initialize E (cap_Broker_Fd cap) Message [-1] label;
        if \<not> Valid (ds ! 0) then ret s
        else do {
          let s = s\<lparr>lgc_E_Cap := Event_Cap a (ds ! 0)\<rparr>;
          ok \<leftarrow> Epoll_Add_Ptr (le_posix E) (cap_Efd cap) (ds ! 0) (es_Cap a);
          if \<not> ok then do {
            _ \<leftarrow> gneiss_close (le_posix E) (ds ! 0);
            ret (s\<lparr>lgc_E_Cap := Invalidate (lgc_E_Cap s)\<rparr>)
          } else ret (s\<lparr>lgc_Fd := ds ! 0, lgc_Efd := cap_Efd cap, lgc_Index := Some idx,
              lgc_Label := store_label label (lgc_Label s)\<rparr>)
        }
      })"

definition LMessage_Client_Finalize :: "'w linux_env \<Rightarrow> nat \<Rightarrow> lmsg_client \<Rightarrow> ('w, lmsg_client) state" where
  "LMessage_Client_Finalize E bits s =
     (if \<not> LMessage_Client_Initialized bits s then ret s
      else do {
        _ \<leftarrow> Epoll_Remove (le_posix E) (lgc_Efd s) (lgc_Fd s);
        d \<leftarrow> gneiss_close (le_posix E) (lgc_Fd s);
        ret (s\<lparr>lgc_Fd := d, lgc_E_Cap := Invalidate (lgc_E_Cap s), lgc_Label := (lgc_Label s)\<lparr>sl_Last := 0\<rparr>, lgc_Index := None\<rparr>)
      })"

subsection \<open>Rom\<close>

record lrom_client =
  lrc_Fd :: fd
  lrc_Index :: "nat option"
  lrc_Label :: session_label
  lrc_Map :: addr

definition lrom_client_new :: lrom_client where
  "lrom_client_new = \<lparr> lrc_Fd = -1, lrc_Index = None, lrc_Label = empty_label, lrc_Map = null \<rparr>"

definition LRom_Client_Initialized :: "lrom_client \<Rightarrow> bool" where
  "LRom_Client_Initialized s \<longleftrightarrow> lrc_Index s \<noteq> None \<and> Valid (lrc_Fd s) \<and> lrc_Map s \<noteq> null"

definition LRom_Client_Initialize :: "'w linux_env \<Rightarrow> capability \<Rightarrow> string \<Rightarrow> nat \<Rightarrow> lrom_client \<Rightarrow> ('w, lrom_client) state" where
  "LRom_Client_Initialize E cap label idx s =
     (if LRom_Client_Initialized s \<or> length label > 255 then ret s
      else do {
        ds \<leftarrow> Client_Initialize E (cap_Broker_Fd cap) Rom [-1] label;
        if \<not> Valid (ds ! 0) then ret s
        else do {
          let s = s\<lparr>lrc_Fd := ds ! 0\<rparr>;
          m \<leftarrow> gneiss_mmap (le_posix E) (lrc_Fd s) 0;
          let s = s\<lparr>lrc_Map := m\<rparr>;
          if lrc_Map s = null then do {
            d \<leftarrow> gneiss_close (le_posix E) (lrc_Fd s);
            ret (s\<lparr>lrc_Fd := d\<rparr>)
          } else ret (s\<lparr>lrc_Index := Some idx, lrc_Label := store_label label (lrc_Label s)\<rparr>)
        }
      })"

definition LRom_Client_Finalize :: "'w linux_env \<Rightarrow> lrom_client \<Rightarrow> ('w, lrom_client) state" where
  "LRom_Client_Finalize E s =
     (if \<not> LRom_Client_Initialized s then ret s
      else do {
        m \<leftarrow> gneiss_munmap (le_posix E) (lrc_Fd s) (lrc_Map s);
        d \<leftarrow> gneiss_close (le_posix E) (lrc_Fd s);
        ret (s\<lparr>lrc_Map := m, lrc_Fd := d, lrc_Index := None\<rparr>)
      })"

subsection \<open>Timer\<close>

record ltim_client =
  ltc_Fd :: fd
  ltc_Index :: "nat option"
  ltc_E_Cap :: event_cap
  ltc_Epoll :: fd

definition ltim_client_new :: ltim_client where
  "ltim_client_new = \<lparr> ltc_Fd = -1, ltc_Index = None, ltc_E_Cap = Invalid_Event_Cap, ltc_Epoll = -1 \<rparr>"

definition LTimer_Client_Initialized :: "ltim_client \<Rightarrow> bool" where
  "LTimer_Client_Initialized s \<longleftrightarrow> Valid (ltc_Fd s) \<and> ltc_Index s \<noteq> None \<and> Valid_Event_Cap (ltc_E_Cap s) \<and> 0 \<le> ltc_Epoll s"

definition LTimer_Client_Initialize ::
  "'w linux_env \<Rightarrow> event_site \<Rightarrow> capability \<Rightarrow> string \<Rightarrow> nat \<Rightarrow> ltim_client \<Rightarrow> ('w, ltim_client) state" where
  "LTimer_Client_Initialize E a cap label idx c =
     (if LTimer_Client_Initialized c then ret c
      else do {
        ds \<leftarrow> Client_Initialize E (cap_Broker_Fd cap) Timer [-1] label;
        if \<not> Valid (ds ! 0) then ret c
        else do {
          let c = c\<lparr>ltc_E_Cap := Event_Cap a (ds ! 0)\<rparr>;
          ok \<leftarrow> Epoll_Add_Ptr (le_posix E) (cap_Efd cap) (ds ! 0) (es_Cap a);
          if \<not> ok then do {
            _ \<leftarrow> gneiss_close (le_posix E) (ds ! 0);
            ret (c\<lparr>ltc_E_Cap := Invalidate (ltc_E_Cap c)\<rparr>)
          } else ret (c\<lparr>ltc_Fd := ds ! 0, ltc_Epoll := cap_Efd cap, ltc_Index := Some idx\<rparr>)
        }
      })"

definition LTimer_Clock :: "'w linux_env \<Rightarrow> ltim_client \<Rightarrow> ('w, u64) state" where
  "LTimer_Clock E c = gneiss_timer_get (le_posix E) (ltc_Fd c)"

definition LTimer_Set_Timeout :: "'w linux_env \<Rightarrow> u64 \<Rightarrow> ltim_client \<Rightarrow> ('w, unit) state" where
  "LTimer_Set_Timeout E d c = gneiss_timer_set (le_posix E) (ltc_Fd c) d"

text \<open>\<open>ev\<close> is the procedure \<open>Event\<close> of the component.\<close>

definition LTimer_Session_Event :: "'w linux_env \<Rightarrow> ('w, unit) state \<Rightarrow> ltim_client \<Rightarrow> ('w, unit) state" where
  "LTimer_Session_Event E ev c = do { gneiss_timer_read (le_posix E) (ltc_Fd c); ev }"

definition LTimer_Client_Finalize :: "'w linux_env \<Rightarrow> ltim_client \<Rightarrow> ('w, ltim_client) state" where
  "LTimer_Client_Finalize E c =
     (if \<not> LTimer_Client_Initialized c then ret c
      else do {
        _ \<leftarrow> Epoll_Remove (le_posix E) (ltc_Epoll c) (ltc_Fd c);
        d \<leftarrow> gneiss_close (le_posix E) (ltc_Fd c);
        ret (c\<lparr>ltc_Epoll := -1, ltc_Fd := d, ltc_Index := None, ltc_E_Cap := Invalidate (ltc_E_Cap c)\<rparr>)
      })"

subsection \<open>Descriptors of a session\<close>

text \<open>
  A broker that answers a request of a kind with a message of this kind, which carries at most one
  descriptor, or without descriptors: what the broker of this repository sends.
\<close>

definition honest_reply :: "'w linux_env \<Rightarrow> ('w \<Rightarrow> fd set) \<Rightarrow> kind_type \<Rightarrow> bool" where
  "honest_reply E fds kind \<longleftrightarrow> (\<forall>d w. wp (Packet_Receive E d 1 True) (\<lambda>(msg, ds) w'.
     fds w' = fds w \<union> (case msg of None \<Rightarrow> {} | Some m \<Rightarrow> {x. bm_Kind m = kind \<and> x = ds ! 0 \<and> Valid x})) w)"

text \<open>
  \<open>gains\<close>: the descriptors \<open>D\<close> have been opened and no other one was closed; with an honest
  broker no other one was opened either.
\<close>

definition gains :: "'w linux_env \<Rightarrow> ('w \<Rightarrow> fd set) \<Rightarrow> kind_type \<Rightarrow> 'w \<Rightarrow> fd set \<Rightarrow> 'w \<Rightarrow> bool" where
  "gains E fds kind w D w' \<longleftrightarrow> fds w \<union> D \<subseteq> fds w' \<and> fds w \<inter> D = {} \<and> (honest_reply E fds kind \<longrightarrow> fds w' = fds w \<union> D)"

lemma gains_same: "fds w' = fds w \<Longrightarrow> gains E fds kind w {} w'"
  by (simp add: gains_def)

lemma gains_new: "fds w' = insert d (fds w) \<Longrightarrow> d \<notin> fds w \<Longrightarrow> gains E fds kind w {d} w'"
  by (auto simp: gains_def)

lemma gains_trans: "gains E fds kind w D w1 \<Longrightarrow> gains E fds kind w1 D' w2 \<Longrightarrow> gains E fds kind w (D \<union> D') w2"
  by (auto simp: gains_def)

lemma gains_keep: "gains E fds kind w D w1 \<Longrightarrow> fds w2 = fds w1 \<Longrightarrow> gains E fds kind w D w2"
  by (simp add: gains_def)

lemma gains_close: "gains E fds kind w {d} w1 \<Longrightarrow> fds w2 = fds w1 - {d} \<Longrightarrow> gains E fds kind w {} w2"
  by (auto simp: gains_def)

lemma gains_nothing: "gains E fds kind w {} w' \<longleftrightarrow> fds w \<subseteq> fds w' \<and> (honest_reply E fds kind \<longrightarrow> fds w' = fds w)"
  by (simp add: gains_def)

text \<open>The descriptors among the fields of a session.\<close>

definition valid_fds :: "fd list \<Rightarrow> fd set" where
  "valid_fds ds = {d \<in> set ds. Valid d}"

lemma valid_fds_simps [simp]:
  "valid_fds [] = {}" "valid_fds (d # ds) = (if Valid d then insert d (valid_fds ds) else valid_fds ds)"
  by (auto simp: valid_fds_def)

context linux_receiver
begin

lemma mapping_keeps [keeps_intros]:
  "keeps fds (gneiss_mmap (le_posix E) d wr)" "keeps fds (gneiss_munmap (le_posix E) d m)"
  "keeps fds (Epoll_Add_Ptr (le_posix E) efd d ptr)"
  unfolding gneiss_mmap_def gneiss_munmap_def gneiss_fstat_size_def Epoll_Add_Ptr_def gneiss_epoll_add_ptr_def gneiss_epoll_add_def
  by (intro keeps_intros)+

text \<open>What a request to the broker gives: no descriptor, or one that is new.\<close>

lemma wp_Client_Initialize:
  assumes none: "\<And>w' x. x < 0 \<Longrightarrow> gains E fds kind w {} w' \<Longrightarrow> Q [x] w'"
    and one: "\<And>w' x. 0 \<le> x \<Longrightarrow> gains E fds kind w {x} w' \<Longrightarrow> Q [x] w'"
  shows "wp (Client_Initialize E b kind [d] label) Q w"
proof -
  let ?new = "\<lambda>msg ds. case msg of None \<Rightarrow> {} | Some m \<Rightarrow> {x. bm_Kind m = kind \<and> x = ds ! 0 \<and> Valid x}"
  have honest: "wp (Packet_Receive E b 1 True) (\<lambda>(msg, ds) w'. honest_reply E fds kind \<longrightarrow> fds w' = fds w1 \<union> ?new msg ds) w1" for w1
    by (auto simp: honest_reply_def wp_run split: prod.splits)
  have recv: "wp (Packet_Receive E b 1 True) (\<lambda>(msg, ds). Q (case msg of None \<Rightarrow> replicate (length ds) (-1)
      | Some m \<Rightarrow> if bm_Kind m \<noteq> kind then replicate (length ds) (-1) else ds)) w1" if w1: "fds w1 = fds w" for w1
  proof (rule wp_mono [OF wp_and [OF Packet_Receive_fds honest]], goal_cases)
    case (1 r w2)
    then obtain msg x where r: "r = (msg, [x])" and sub: "fds w \<subseteq> fds w2" and new: "Valid x \<Longrightarrow> x \<in> fds w2 - fds w"
      and hon: "honest_reply E fds kind \<Longrightarrow> fds w2 = fds w \<union> ?new msg [x]"
      using w1 by (cases r) (auto simp: length_Suc_conv)
    show ?case
    proof (cases "msg \<noteq> None \<and> bm_Kind (the msg) = kind \<and> Valid x")
      case True
      then have "gains E fds kind w {x} w2" using hon new sub by (auto simp: gains_def)
      with one [of x w2] True r show ?thesis by auto
    next
      case False
      then have "gains E fds kind w {} w2" using hon sub by (auto simp: gains_def split: option.splits)
      with none False r show ?thesis by (auto split: option.splits)
    qed
  qed
  show ?thesis
    unfolding Client_Initialize_def wp_simps
    by (rule keeps_wpI [OF Packet_Send_keeps]) (use recv in \<open>auto simp: wp_simps\<close>)
qed

end

text \<open>
  The contract of a session body: \<open>held\<close> are its descriptors. \<open>Initialize\<close> obtains new ones
  or nothing and is idempotent, \<open>Finalize\<close> closes exactly these.
\<close>

locale linux_session = linux_fds "le_posix E" fds
  for E :: "'w linux_env" and fds :: "'w \<Rightarrow> fd set" +
  fixes kind :: kind_type
    and ini :: "'c \<Rightarrow> ('w, 'c) state"
    and fin :: "'c \<Rightarrow> ('w, 'c) state"
    and initialized :: "'c \<Rightarrow> bool"
    and held :: "'c \<Rightarrow> fd set"
  assumes init_again: "initialized c \<Longrightarrow> ini c = ret c"
    and init_law: "\<not> initialized c \<Longrightarrow> held c = {} \<Longrightarrow>
      wp (ini c) (\<lambda>c' w'. (initialized c' \<or> held c' = {}) \<and> gains E fds kind w (held c') w') w"
    and fin_law: "initialized c \<or> held c = {} \<Longrightarrow>
      wp (fin c) (\<lambda>c' w'. \<not> initialized c' \<and> held c' = {} \<and> fds w' = fds w - held c) w"
begin

definition session_inv :: "'w \<Rightarrow> 'c \<Rightarrow> 'w \<Rightarrow> bool" where
  "session_inv w0 c w \<longleftrightarrow> (initialized c \<or> held c = {}) \<and> gains E fds kind w0 (held c) w"

lemma init_inv: "session_inv w0 c w \<Longrightarrow> wp (ini c) (session_inv w0) w"
proof (cases "initialized c")
  case False
  assume inv: "session_inv w0 c w"
  with False have h: "held c = {}" by (simp add: session_inv_def)
  from init_law [OF False h] show ?thesis
    by (rule wp_mono) (use inv gains_trans [of E fds kind w0 "{}"] in \<open>auto simp: session_inv_def h\<close>)
qed (simp add: init_again wp_simps)

lemma fin_inv: "session_inv w0 c w \<Longrightarrow> wp (fin c) (\<lambda>c' w'. session_inv w0 c' w' \<and> \<not> initialized c') w"
  by (rule wp_mono [OF fin_law]) (auto simp: session_inv_def gains_def)

lemma run_inv: "session_inv w0 c w \<Longrightarrow> wp (run_session ini fin ops c) (session_inv w0) w"
proof (induction ops arbitrary: c w)
  case (Cons x ops)
  then show ?case
    by (cases x) (auto simp: wp_simps intro: wp_mono [OF init_inv] wp_mono [OF fin_inv])
qed (simp add: wp_simps)

lemma run_session_append: "run_session ini fin (xs @ ys) c = State_Monad.bind (run_session ini fin xs c) (run_session ini fin ys)"
proof (induction xs arbitrary: c)
  case (Cons x xs)
  then have "run_session ini fin (xs @ ys) = (\<lambda>c. State_Monad.bind (run_session ini fin xs c) (run_session ini fin ys))" by blast
  then show ?case by (cases x) simp_all
qed simp

text \<open>Any sequence of calls that ends with \<open>Finalize\<close>.\<close>

lemma session_closed:
  assumes "\<not> initialized c" and "held c = {}"
  shows "wp (run_session ini fin (ops @ [Op_Finalize]) c) (\<lambda>c' w'. \<not> initialized c' \<and> gains E fds kind w {} w') w"
proof -
  have "session_inv w c w" using assms by (simp add: session_inv_def gains_same)
  from run_inv [OF this] show ?thesis
    unfolding run_session_append wp_bind
  proof (rule wp_mono, goal_cases)
    case (1 c1 w1)
    from fin_inv [OF 1] show ?case
      unfolding run_session.simps wp_simps by (rule wp_mono) (auto simp: session_inv_def)
  qed
qed

end

text \<open>What the clients with events also need: addresses that are not null and a valid epoll descriptor.\<close>

locale linux_component = linux_receiver E fds
  for E :: "'w linux_env" and fds :: "'w \<Rightarrow> fd set" +
  fixes a :: event_site and cap :: capability
  assumes site: "site_ok a" and efd: "0 \<le> cap_Efd cap"
begin

lemma Event_Cap_valid: "Valid_Event_Cap (Event_Cap a d)"
  using site by (simp add: site_ok_def Event_Cap_def Create_Event_Cap_def Valid_Event_Cap_def)

end

text \<open>The five clients keep the contract.\<close>

sublocale linux_receiver \<subseteq> log_ls: linux_session E fds Log "LLog_Client_Initialize E cap label" "LLog_Client_Finalize E"
  LLog_Client_Initialized "\<lambda>c. valid_fds [llc_Fd c]" for cap label
proof unfold_locales
  fix c w
  show "LLog_Client_Initialized c \<Longrightarrow> LLog_Client_Initialize E cap label c = ret c"
    by (simp add: LLog_Client_Initialize_def)
  show "wp (LLog_Client_Finalize E c) (\<lambda>c' w'. \<not> LLog_Client_Initialized c' \<and> valid_fds [llc_Fd c'] = {} \<and>
      fds w' = fds w - valid_fds [llc_Fd c]) w"
    unfolding LLog_Client_Finalize_def wp_simps by (rule pf.wp_cl) (simp add: LLog_Client_Initialized_def)
  assume "\<not> LLog_Client_Initialized c" and "valid_fds [llc_Fd c] = {}"
  then show "wp (LLog_Client_Initialize E cap label c) (\<lambda>c' w'. (LLog_Client_Initialized c' \<or> valid_fds [llc_Fd c'] = {}) \<and>
      gains E fds Log w (valid_fds [llc_Fd c']) w') w"
    by (auto simp: LLog_Client_Initialize_def LLog_Client_Initialized_def gains_same wp_simps intro!: wp_Client_Initialize)
qed

sublocale linux_receiver \<subseteq> rom_ls: linux_session E fds Rom "LRom_Client_Initialize E cap label idx" "LRom_Client_Finalize E"
  LRom_Client_Initialized "\<lambda>c. valid_fds [lrc_Fd c]" for cap label idx
  by unfold_locales
    (auto simp: LRom_Client_Initialize_def LRom_Client_Finalize_def LRom_Client_Initialized_def Let_def wp_simps
      intro!: wp_Client_Initialize pf.wp_cl keeps_wpI [OF mapping_keeps(1)] keeps_wpI [OF mapping_keeps(2)]
      split: if_splits, auto simp: gains_def)

sublocale linux_component \<subseteq> tim_ls: linux_session E fds Timer "LTimer_Client_Initialize E a cap label idx" "LTimer_Client_Finalize E"
  LTimer_Client_Initialized "\<lambda>c. valid_fds [ltc_Fd c]" for label idx
  using efd by unfold_locales
    (auto simp: LTimer_Client_Initialize_def LTimer_Client_Finalize_def LTimer_Client_Initialized_def Event_Cap_valid Let_def wp_simps
      intro!: wp_Client_Initialize pf.wp_cl keeps_wpI [OF mapping_keeps(3)] keeps_wpI [OF Epoll_Remove_keeps]
      split: if_splits, auto simp: gains_def)

sublocale linux_component \<subseteq> msg_ls: linux_session E fds Message "LMessage_Client_Initialize E bits a cap label idx"
  "LMessage_Client_Finalize E bits" "LMessage_Client_Initialized bits" "\<lambda>c. valid_fds [lgc_Fd c]" for bits label idx
  using efd by unfold_locales
    (auto simp: LMessage_Client_Initialize_def LMessage_Client_Finalize_def LMessage_Client_Initialized_def Event_Cap_valid Let_def wp_simps
      intro!: wp_Client_Initialize pf.wp_cl keeps_wpI [OF mapping_keeps(3)] keeps_wpI [OF Epoll_Remove_keeps]
      split: if_splits, auto simp: gains_def)

sublocale linux_receiver \<subseteq> mem_ls: linux_session E fds Memory "LMemory_Client_Initialize E cap lo label sz idx"
  "LMemory_Client_Finalize E" LMemory_Client_Initialized "\<lambda>c. valid_fds [lmc_Fd c, lmc_Sigfd c]" for cap lo label sz idx
proof unfold_locales
  fix c w
  show "LMemory_Client_Initialized c \<Longrightarrow> LMemory_Client_Initialize E cap lo label sz idx c = ret c"
    by (simp add: LMemory_Client_Initialize_def)
  show "LMemory_Client_Initialized c \<or> valid_fds [lmc_Fd c, lmc_Sigfd c] = {} \<Longrightarrow>
      wp (LMemory_Client_Finalize E c) (\<lambda>c' w'. \<not> LMemory_Client_Initialized c' \<and>
      valid_fds [lmc_Fd c', lmc_Sigfd c'] = {} \<and> fds w' = fds w - valid_fds [lmc_Fd c, lmc_Sigfd c]) w"
    by (auto simp: LMemory_Client_Finalize_def LMemory_Client_Initialized_def wp_simps
        intro!: pf.wp_cl keeps_wpI [OF mapping_keeps(2)] split: if_splits)
  assume c: "\<not> LMemory_Client_Initialized c" "valid_fds [lmc_Fd c, lmc_Sigfd c] = {}"
  define Q where "Q = (\<lambda>c' w'. (LMemory_Client_Initialized c' \<or> valid_fds [lmc_Fd c', lmc_Sigfd c'] = {}) \<and>
      gains E fds Memory w (valid_fds [lmc_Fd c', lmc_Sigfd c']) w')"
  have sig: "\<not> Valid (lmc_Sigfd c)" using c(2) by (simp split: if_splits)
  have opened: "Q (c\<lparr>lmc_Fd := d\<rparr>) w1" if "d < 0" "fds w1 = fds w" for d w1
    using that sig by (simp add: Q_def gains_same)
  have failed: "wp (gneiss_close (le_posix E) d) (\<lambda>d'. Q (c\<lparr>lmc_Map := m, lmc_Fd := d'\<rparr>)) w1"
    if "0 \<le> d" "gains E fds Memory w {d} w1" for d m w1
    using that sig gains_close [OF that(2)] by (auto simp: Q_def intro!: pf.wp_cl)
  have request: "wp (Client_Initialize E (cap_Broker_Fd cap) Memory [d] label) (\<lambda>ds w2.
      if ds ! 0 < 0 then wp (gneiss_munmap (le_posix E) d m) (\<lambda>m. wp (gneiss_close (le_posix E) d)
        (\<lambda>d'. Q (c\<lparr>lmc_Map := m, lmc_Fd := d'\<rparr>))) w2
      else Q (c\<lparr>lmc_Fd := d, lmc_Map := m, lmc_Sigfd := ds ! 0, lmc_Index := Some idx\<rparr>) w2) w1"
    if d: "0 \<le> d" "gains E fds Memory w {d} w1" and m: "m \<noteq> null" for d m w1
  proof (rule wp_Client_Initialize, goal_cases)
    case (1 w2 x)
    have "gains E fds Memory w {d} w3" if "fds w3 = fds w2" for w3
      using gains_keep [OF gains_trans [OF d(2) 1(2)] that] by simp
    then show ?case using 1 failed [OF d(1)] by (auto intro!: keeps_wpI [OF mapping_keeps(2)])
  next
    case (2 w2 x)
    with d m gains_trans [OF d(2) 2(2)] show ?case by (auto simp: Q_def LMemory_Client_Initialized_def insert_commute)
  qed
  have mapped: "wp (gneiss_mmap (le_posix E) d 1) (\<lambda>m w2. if m = null then wp (gneiss_close (le_posix E) d) (\<lambda>d'. Q (c\<lparr>lmc_Map := m, lmc_Fd := d'\<rparr>)) w2
      else wp (Client_Initialize E (cap_Broker_Fd cap) Memory [d] label) (\<lambda>ds w2.
        if ds ! 0 < 0 then wp (gneiss_munmap (le_posix E) d m) (\<lambda>m. wp (gneiss_close (le_posix E) d)
          (\<lambda>d'. Q (c\<lparr>lmc_Map := m, lmc_Fd := d'\<rparr>))) w2
        else Q (c\<lparr>lmc_Fd := d, lmc_Map := m, lmc_Sigfd := ds ! 0, lmc_Index := Some idx\<rparr>) w2) w2) w1"
    if d: "0 \<le> d" "gains E fds Memory w {d} w1" for d w1
    by (rule keeps_wpI [OF mapping_keeps(1)]) (use failed [OF d(1)] request [OF d(1)] gains_keep [OF d(2)] in auto)
  have "wp (LMemory_Client_Initialize E cap lo label sz idx c) Q w"
  proof (cases "LMemory_Client_Initialized c \<or> length label > 255 \<or> lo > 2147483647 - 255")
    case True
    with c show ?thesis by (auto simp: LMemory_Client_Initialize_def wp_simps gains_same Q_def)
  next
    case False
    show ?thesis
      unfolding LMemory_Client_Initialize_def if_not_P [OF False] wp_simps Let_def
    proof (rule wp_opens_one [OF gneiss_memfd_create_opens], goal_cases)
      case (1 d w1)
      then show ?case by (simp add: wp_simps opened)
    next
      case (2 d w1)
      with mapped [OF 2(1) gains_new [where fds = fds, OF 2(3,2)]] show ?case by (simp add: wp_simps cong: if_cong)
    qed
  qed
  then show "wp (LMemory_Client_Initialize E cap lo label sz idx c)
      (\<lambda>c' w'. (LMemory_Client_Initialized c' \<or> valid_fds [lmc_Fd c', lmc_Sigfd c'] = {}) \<and>
        gains E fds Memory w (valid_fds [lmc_Fd c', lmc_Sigfd c']) w') w"
    unfolding Q_def .
qed

text \<open>New sessions hold nothing; the contract for each of the five.\<close>

context linux_component
begin

lemmas new_sessions = llog_client_new_def lrom_client_new_def lmem_client_new_def lmsg_client_new_def ltim_client_new_def
  LLog_Client_Initialized_def LRom_Client_Initialized_def LMemory_Client_Initialized_def LMessage_Client_Initialized_def
  LTimer_Client_Initialized_def

lemma sessions_closed:
  "wp (run_session (LLog_Client_Initialize E cap label) (LLog_Client_Finalize E) (ops @ [Op_Finalize]) llog_client_new)
     (\<lambda>c w'. \<not> LLog_Client_Initialized c \<and> gains E fds Log w {} w') w"
  "wp (run_session (LRom_Client_Initialize E cap label idx) (LRom_Client_Finalize E) (ops @ [Op_Finalize]) lrom_client_new)
     (\<lambda>c w'. \<not> LRom_Client_Initialized c \<and> gains E fds Rom w {} w') w"
  "wp (run_session (LMemory_Client_Initialize E cap lo label sz idx) (LMemory_Client_Finalize E) (ops @ [Op_Finalize]) lmem_client_new)
     (\<lambda>c w'. \<not> LMemory_Client_Initialized c \<and> gains E fds Memory w {} w') w"
  "wp (run_session (LMessage_Client_Initialize E bits a cap label idx) (LMessage_Client_Finalize E bits) (ops @ [Op_Finalize]) lmsg_client_new)
     (\<lambda>c w'. \<not> LMessage_Client_Initialized bits c \<and> gains E fds Message w {} w') w"
  "wp (run_session (LTimer_Client_Initialize E a cap label idx) (LTimer_Client_Finalize E) (ops @ [Op_Finalize]) ltim_client_new)
     (\<lambda>c w'. \<not> LTimer_Client_Initialized c \<and> gains E fds Timer w {} w') w"
  by (intro log_ls.session_closed rom_ls.session_closed mem_ls.session_closed msg_ls.session_closed tim_ls.session_closed;
      simp add: new_sessions)+

end

subsection \<open>A broker that confirms\<close>

text \<open>The reference kernel with a broker that answers every request with a new descriptor.\<close>

definition answer_posix :: "kind_type \<Rightarrow> sim posix" where
  "answer_posix kind = sim_posix\<lparr>k_recvmsg := (\<lambda>d n c fl. State (\<lambda>w.
     (\<lparr>rcv_ret = 4, rcv_data = wire Confirm kind [] [], rcv_flags = 0,
       rcv_cmsg = Some \<lparr>cmsg_len = CMSG_LEN 4, cmsg_level = SOL_SOCKET, cmsg_type = SCM_RIGHTS, cmsg_ints = [sim_fresh w]\<rparr>\<rparr>,
      snd (sim_open w))))\<rparr>"

definition answer_env :: "kind_type \<Rightarrow> sim linux_env" where
  "answer_env kind = clean_env\<lparr>le_posix := answer_posix kind\<rparr>"

definition sample_site :: event_site where
  "sample_site = \<lparr>es_Event = 0x10, es_Error = 0x20, es_Session = 0x30, es_Cap = 0x38\<rparr>"

definition sample_cap :: capability where
  "sample_cap = \<lparr>cap_Broker_Fd = 3, cap_Efd = 4\<rparr>"

lemma answer_env_simps [simp]:
  "le_posix (answer_env kind) = answer_posix kind" "le_codec (answer_env kind) = rflx_codec"
  "le_control (answer_env kind) = [-1, -1, -1, -1]" "length (le_stack (answer_env kind)) = 1024"
  by (simp_all add: answer_env_def clean_env_def)

lemma answer_fds: "linux_fds (answer_posix kind) sim_fdset"
  using sim_fresh_new [where n = 0] sim_fds.linux_fds_axioms
  by (auto simp: answer_posix_def linux_fds_def installs_def wp_State sim_open_def)

interpretation answer: linux_component "answer_env kind" sim_fdset sample_site sample_cap for kind
  using answer_fds by (simp add: linux_component_def linux_receiver_def linux_receiver_axioms_def linux_component_axioms_def
    site_ok_def sample_site_def sample_cap_def)

lemma answer_honest: "honest_reply (answer_env kind) sim_fdset kind"
proof -
  have buf: "take 1024 (wire Confirm kind [] []) = wire Confirm kind [] []"
    by (simp add: length_wire)
  have pos: "- 1 < sim_fresh w" for w
    using sim_fresh_nonneg [of w] by simp
  have read: "parse_packet (wire Confirm kind [] [] @ rest) = Some \<lparr>p_Action = Confirm, p_Kind = kind, p_Name = [], p_Label = []\<rparr>" for rest
    by (simp add: wire_def parse_packet_bytes)
  have "to_c_int 4 = 4" by (simp add: to_c_int_small)
  then show ?thesis
    unfolding honest_reply_def Packet_Receive_def Packet_Recv_def gneiss_read_message_def read_message_def Let_def wp_simps
    by (auto simp: pos answer_posix_def wp_State wp_simps sim_open_def buf read rflx_codec_def is_rights_def copy_rights_def CMSG_LEN_def overlay_def)
qed

subsection \<open>Properties\<close>



end
