(* ===== verification/Linux_Log_Exchange.thy ===== *)
theory Linux_Log_Exchange
  imports Linux_Log "HOL-Library.Sublist"
begin

text \<open>
  A Log client and a Log server on Linux, composed over the socket between them. The client's calls and the events of
  the server are interleaved in any order; an event of the server takes one message from the socket. \<open>send\<close> with
  \<open>MSG_DONTWAIT\<close> refuses a message when the socket is full, and the client does not try again.
\<close>

subsection \<open>The socket\<close>

text \<open>
  \<open>f\<close> and \<open>g\<close> are the two ends of the socket, \<open>inbox\<close> the messages that wait at the server's end, \<open>heard\<close> the texts
  that the server component's \<open>Write\<close> (\<open>W\<close>) was called with, and \<open>refused\<close> counts the messages that did not fit.
\<close>

locale log_socket = linux_sends K written
  for K :: "'w posix" and written :: "'w \<Rightarrow> (fd \<times> bytes) list" +
  fixes f :: fd
    and g :: fd
    and linked :: "'w \<Rightarrow> bool"
    and inbox :: "'w \<Rightarrow> bytes list"
    and heard :: "'w \<Rightarrow> string list"
    and refused :: "'w \<Rightarrow> int"
    and W :: "string \<Rightarrow> ('w, unit) state"
  assumes send_law: "linked w \<Longrightarrow> wp (k_send K f bs fl) (\<lambda>rc w'. linked w' \<and> heard w' = heard w \<and>
        inbox w' = (if rc < 0 then inbox w else inbox w @ [bs]) \<and>
        refused w' = (if rc < 0 then refused w + 1 else refused w)) w"
    and recv_law: "linked w \<Longrightarrow> inbox w = b # rest \<Longrightarrow> fl AND MSG_PEEK = 0 \<Longrightarrow>
        wp (k_recv K g n fl) (\<lambda>r w'. r = (int (length b), take n b) \<and> linked w' \<and> heard w' = heard w \<and>
        inbox w' = rest \<and> refused w' = refused w) w"
    and warn_law: "keeps (\<lambda>w. (linked w, heard w, inbox w, refused w)) (k_warn K s)"
    and write_law: "wp (W t) (\<lambda>_ w'. linked w' = linked w \<and> heard w' = heard w @ [t] \<and> inbox w' = inbox w \<and>
        refused w' = refused w) w"
begin

subsection \<open>The client's side\<close>

text \<open>Since \<open>w0\<close> the client has sent \<open>bs\<close>, of which \<open>acc\<close> were accepted.\<close>

definition sending :: "'w \<Rightarrow> 'w \<Rightarrow> bool" where
  "sending w0 w \<longleftrightarrow> linked w \<and> heard w = heard w0 \<and> (\<exists>bs acc. written w = written w0 @ map (Pair f) bs \<and>
     inbox w = inbox w0 @ acc \<and> subseq acc bs \<and> refused w0 \<le> refused w \<and> (refused w = refused w0 \<longrightarrow> acc = bs))"

lemma sending_refl: "linked w \<Longrightarrow> sending w w"
  by (auto simp: sending_def)

lemma sending_send:
  assumes "sending w0 w"
  shows "wp (k_send K f b fl) (\<lambda>rc w'. sending w0 w') w"
proof -
  from assms obtain bs acc where a: "linked w" "heard w = heard w0" "written w = written w0 @ map (Pair f) bs"
    "inbox w = inbox w0 @ acc" "subseq acc bs" "refused w0 \<le> refused w" "refused w = refused w0 \<longrightarrow> acc = bs"
    by (auto simp: sending_def)
  show ?thesis
  proof (rule wp_mono [OF wp_and [OF send_law [OF a(1)] send_written]], goal_cases)
    case (1 rc w')
    show ?case
    proof (cases "rc < 0")
      case True
      have "subseq acc (bs @ [b])" using a(5) by (rule list_emb_prefix)
      with 1 True a show ?thesis
        unfolding sending_def by (intro conjI exI [of _ "bs @ [b]"] exI [of _ acc]) auto
    next
      case False
      with 1 a show ?thesis
        unfolding sending_def by (intro conjI exI [of _ "bs @ [b]"] exI [of _ "acc @ [b]"]) (auto intro: list_emb_append_mono)
    qed
  qed
qed

definition client_end :: "llog_client \<Rightarrow> bool" where
  "client_end s \<longleftrightarrow> llc_Fd s = f"

lemma client_end_update [simp]:
  "client_end (s\<lparr>llc_Buffer := b\<rparr>) = client_end s" "client_end (s\<lparr>llc_Cursor := n\<rparr>) = client_end s"
  by (simp_all add: client_end_def)

definition carries :: "('w, llog_client) state \<Rightarrow> bool" where
  "carries m \<longleftrightarrow> (\<forall>w0 w. sending w0 w \<longrightarrow> wp m (\<lambda>s' w'. sending w0 w' \<and> client_end s') w)"

lemma carries_return: "client_end s \<Longrightarrow> carries (ret s)"
  by (simp add: carries_def wp_simps)

lemma carries_bind: "carries m \<Longrightarrow> (\<And>s. client_end s \<Longrightarrow> carries (h s)) \<Longrightarrow> carries (State_Monad.bind m h)"
  unfolding carries_def wp_bind by (blast intro: wp_mono)

lemma carries_flush:
  assumes "client_end s"
  shows "carries (LLog_Flush_Buffer K s)"
proof -
  have wr: "wp (gneiss_message_write K f b n) (\<lambda>_ w'. sending w0 w') w" if "sending w0 w" for b n w0 w
    unfolding gneiss_message_write_def wp_simps
  proof (rule wp_mono [OF sending_send [OF that]], goal_cases)
    case (1 rc w')
    have "wp (k_warn K t) (\<lambda>_ w''. sending w0 w'') w'" for t
      by (rule wp_mono [OF wp_and [OF keeps_wp [OF warn_law] keeps_wp [OF warn_written]]])
        (use 1 in \<open>auto simp: sending_def\<close>)
    with 1 show ?case by simp
  qed
  then show ?thesis
    using assms by (auto simp: client_end_def carries_def LLog_Flush_Buffer_def Let_def wp_simps elim!: wp_mono)
qed

lemma carries_Print_loop: "client_end s \<Longrightarrow> carries (LLog_Print_loop K cs s)"
proof (induction cs arbitrary: s)
  case (Cons c cs)
  show ?case
    unfolding LLog_Print_loop.simps Let_def
    by (rule carries_bind) (use Cons in \<open>auto intro!: carries_flush carries_return\<close>)
qed (simp add: carries_return)

lemma carries_Print: "client_end s \<Longrightarrow> carries (LLog_Print K cs s)"
  unfolding LLog_Print_def by (rule carries_bind) (auto intro!: carries_flush carries_return carries_Print_loop)

lemma carries_op: "client_end s \<Longrightarrow> carries (run_llog_op K a s)"
  by (cases a) (auto simp: LLog_Info_def LLog_Warning_def LLog_Error_def LLog_Flush_def LLog_Prefix_Message_def
      intro!: carries_bind carries_Print carries_flush carries_return)

subsection \<open>Delivery\<close>

text \<open>
  What the server component has been given and will be given: a text of one character is not handed on.
\<close>

abbreviation long_texts :: "bytes list \<Rightarrow> string list" where
  "long_texts bs \<equiv> filter (\<lambda>t. 1 < length t) (map framed bs)"

definition total :: "'w \<Rightarrow> string list" where
  "total w = heard w @ long_texts (inbox w)"

definition delivers :: "string \<Rightarrow> llog_client \<Rightarrow> 'w \<Rightarrow> llog_client \<Rightarrow> 'w \<Rightarrow> bool" where
  "delivers t c w c' w' \<longleftrightarrow> (\<exists>bs acc. concat (map framed bs) @ pending c' = pending c @ t \<and>
     total w' = total w @ long_texts acc \<and> subseq acc bs \<and> refused w \<le> refused w' \<and>
     (refused w' = refused w \<longrightarrow> acc = bs))"

lemma delivers_same: "total w' = total w \<Longrightarrow> refused w' = refused w \<Longrightarrow> delivers [] c w c w'"
  unfolding delivers_def by (intro exI [of _ "[]"]) simp

lemma delivers_trans:
  assumes "delivers t c1 w1 c2 w2" and "delivers u c2 w2 c3 w3"
  shows "delivers (t @ u) c1 w1 c3 w3"
proof -
  from assms(1) obtain bs acc where a: "concat (map framed bs) @ pending c2 = pending c1 @ t"
    "total w2 = total w1 @ long_texts acc" "subseq acc bs" "refused w1 \<le> refused w2" "refused w2 = refused w1 \<longrightarrow> acc = bs"
    unfolding delivers_def by blast
  from assms(2) obtain cs acc' where b: "concat (map framed cs) @ pending c3 = pending c2 @ u"
    "total w3 = total w2 @ long_texts acc'" "subseq acc' cs" "refused w2 \<le> refused w3" "refused w3 = refused w2 \<longrightarrow> acc' = cs"
    unfolding delivers_def by blast
  have "concat (map framed (bs @ cs)) @ pending c3 = pending c1 @ t @ u"
    using a(1) b(1) by (metis append_assoc concat_append map_append)
  with a b show ?thesis
    unfolding delivers_def
    by (intro exI [of _ "bs @ cs"] exI [of _ "acc @ acc'"]) (auto intro: list_emb_append_mono)
qed

definition ready :: "llog_client \<Rightarrow> llog_server \<Rightarrow> 'w \<Rightarrow> bool" where
  "ready c s w \<longleftrightarrow> linked w \<and> llc_ok c \<and> client_end c \<and> LLog_Server_Initialized s \<and> lls_Fd s = g \<and>
     length (lls_Buffer s) = 128 \<and> (\<forall>b \<in> set (inbox w). length b = 128)"

lemma client_delivers:
  assumes "ready c s w" and "CHR 0x00 \<notin> set (op_text a)"
  shows "wp (run_llog_op K a c) (\<lambda>c' w'. ready c' s w' \<and> delivers (op_text a) c w c' w') w"
proof -
  from assms(1) have c: "llc_ok c" "client_end c" "linked w" by (simp_all add: ready_def)
  note emitted = emits_op [OF c(1) assms(2), unfolded emits_def, rule_format, of w]
  note carried = carries_op [OF c(2), unfolded carries_def, rule_format, OF sending_refl [OF c(3)]]
  show ?thesis
  proof (rule wp_mono [OF wp_and [OF emitted carried]], goal_cases)
    case (1 c' w')
    then obtain bs bs' acc where b: "written w' = written w @ map (Pair f) bs" "\<forall>b \<in> set bs. length b = 128"
      "concat (map framed bs) @ pending c' = pending c @ op_text a" and b': "written w' = written w @ map (Pair f) bs'"
      "inbox w' = inbox w @ acc" "subseq acc bs'" "refused w \<le> refused w'" "refused w' = refused w \<longrightarrow> acc = bs'"
      "linked w'" "heard w' = heard w"
      using c(2) unfolding sending_def client_end_def by auto
    have same: "bs' = bs"
      using b(1) b'(1) by (metis append_same_eq inj_map_eq_map inj_onI prod.inject same_append_eq)
    have "set acc \<subseteq> set bs" using b'(3) same by (auto elim: list_emb_set)
    then have "ready c' s w'"
      using 1 b(2) b' assms(1) by (auto simp: ready_def)
    moreover have "delivers (op_text a) c w c' w'"
      unfolding delivers_def
      by (rule exI [of _ bs], rule exI [of _ acc]) (use b b' same in \<open>simp add: total_def\<close>)
    ultimately show ?case by simp
  qed
qed

lemma server_delivers:
  assumes "ready c s w" and "inbox w = b # rest"
  shows "wp (LLog_Session_Event K W s) (\<lambda>s' w'. ready c s' w' \<and> total w' = total w \<and> refused w' = refused w) w"
proof -
  from assms have b: "linked w" "length b = 128" "LLog_Server_Initialized s" "length (lls_Buffer s) = 128" "lls_Fd s = g"
    by (simp_all add: ready_def)
  have flags: "(MSG_DONTWAIT OR MSG_TRUNC) AND MSG_PEEK = 0" by (simp add: posix_constants)
  from recv_law [OF b(1) assms(2) flags, of 128] obtain w1 where w1:
    "run_state (k_recv K (lls_Fd s) 128 (MSG_DONTWAIT OR MSG_TRUNC)) w = ((128, b), w1)"
    "linked w1" "heard w1 = heard w" "inbox w1 = rest" "refused w1 = refused w"
    using b by (cases "run_state (k_recv K g 128 (MSG_DONTWAIT OR MSG_TRUNC)) w") (auto simp: wp_def)
  let ?s = "s\<lparr>lls_Buffer := map char_of_byte b, lls_Cursor := max 1 (length (framed b))\<rparr>"
  let ?w = "if 1 < length (framed b) then final (W (framed b)) w1 else w1"
  have "ready c ?s ?w \<and> total ?w = total w \<and> refused ?w = refused w"
    using write_law [of "framed b" w1] w1 assms b
    by (auto simp: wp_run ready_def total_def LLog_Server_Initialized_def)
  then show ?thesis
    by (simp add: wp_def linux_log_session_event [OF b(3,4,2) w1(1)])
qed

end

subsection \<open>Runs\<close>

text \<open>\<open>Serve\<close> is an event at the server, which is reported when a message waits (\<open>avail\<close>).\<close>

datatype llog_step = Client llog_op | Serve

fun run_llog_pair ::
  "'w posix \<Rightarrow> (string \<Rightarrow> ('w, unit) state) \<Rightarrow> ('w \<Rightarrow> bool) \<Rightarrow> llog_step list \<Rightarrow> llog_client \<Rightarrow> llog_server \<Rightarrow>
   ('w, llog_client \<times> llog_server) state" where
  "run_llog_pair K W avail [] c s = ret (c, s)"
| "run_llog_pair K W avail (Client a # as) c s = do {
     c \<leftarrow> run_llog_op K a c;
     run_llog_pair K W avail as c s
   }"
| "run_llog_pair K W avail (Serve # as) c s = do {
     w \<leftarrow> getS;
     s \<leftarrow> (if avail w then LLog_Session_Event K W s else ret s);
     run_llog_pair K W avail as c s
   }"

fun client_text :: "llog_step list \<Rightarrow> string" where
  "client_text [] = []"
| "client_text (Client a # as) = op_text a @ client_text as"
| "client_text (Serve # as) = client_text as"

context log_socket
begin

lemma run_llog_pair_delivers:
  "ready c s w \<Longrightarrow> CHR 0x00 \<notin> set (client_text as) \<Longrightarrow>
   wp (run_llog_pair K W (\<lambda>w. inbox w \<noteq> []) as c s) (\<lambda>r w'. ready (fst r) (snd r) w' \<and> delivers (client_text as) c w (fst r) w') w"
proof (induction as arbitrary: c s w)
  case Nil
  then show ?case by (simp add: wp_simps delivers_same)
next
  case (Cons a as)
  show ?case
  proof (cases a)
    case (Client l)
    with Cons.prems have l: "CHR 0x00 \<notin> set (op_text l)" "CHR 0x00 \<notin> set (client_text as)" by auto
    show ?thesis
      unfolding Client run_llog_pair.simps client_text.simps wp_bind
    proof (rule wp_mono [OF client_delivers [OF Cons.prems(1) l(1)]], goal_cases)
      case (1 c1 w1)
      then show ?case
        by (intro wp_mono [OF Cons.IH [of c1 s w1]]) (auto intro: delivers_trans simp: l)
    qed
  next
    case Serve
    have "wp (if inbox w \<noteq> [] then LLog_Session_Event K W s else ret s)
        (\<lambda>s' w'. ready c s' w' \<and> total w' = total w \<and> refused w' = refused w) w"
      using Cons.prems(1) server_delivers [OF Cons.prems(1)] by (cases "inbox w") (auto simp: wp_simps)
    then show ?thesis
      unfolding Serve run_llog_pair.simps client_text.simps wp_bind wp_get
    proof (rule wp_mono, goal_cases)
      case (1 s1 w1)
      then have "delivers [] c w c w1" by (simp add: delivers_same)
      with 1 Cons.prems(2) Serve show ?case
        by (intro wp_mono [OF Cons.IH [of c s1 w1]]) (auto dest: delivers_trans)
    qed
  qed
qed

end

subsection \<open>The reference kernel\<close>

definition sim_linked :: "sim \<Rightarrow> bool" where
  "sim_linked w \<longleftrightarrow> map_of (sim_peer w) 3 = Some 4"

definition sim_inbox :: "sim \<Rightarrow> bytes list" where
  "sim_inbox w = map fst (sim_waiting w 4)"

text \<open>A text that the server component writes is marked, since warnings go to the same list.\<close>

definition sim_Write :: "string \<Rightarrow> (sim, unit) state" where
  "sim_Write t = k_fputs sim_posix (CHR ''>'' # t)"

fun sim_heard :: "string list \<Rightarrow> string list" where
  "sim_heard [] = []"
| "sim_heard (t # ts) = sim_heard ts @ (if t \<noteq> [] \<and> hd t = CHR ''>'' then [tl t] else [])"

text \<open>Warnings of the C code start with the name of a function.\<close>

definition quiet_posix :: "sim posix" where
  "quiet_posix = sim_posix\<lparr>k_warn := \<lambda>s. k_warn sim_posix (CHR ''w'' # s)\<rparr>"

definition sim_refused :: "sim \<Rightarrow> int" where
  "sim_refused w = - int (length (filter (\<lambda>b. b) (sim_fail w)))"

interpretation sim_log_socket: log_socket quiet_posix sim_written 3 4 sim_linked sim_inbox "\<lambda>w. sim_heard (sim_log w)"
  sim_refused sim_Write
proof unfold_locales
  fix d bs fl w
  show "wp (k_send quiet_posix d bs fl) (\<lambda>_ w'. sim_written w' = sim_written w @ [(d, bs)]) w"
    using sim_sends.send_written by (simp add: quiet_posix_def)
next
  fix s show "keeps sim_written (k_warn quiet_posix s)"
    using sim_sends.warn_written by (simp add: quiet_posix_def)
next
  fix w bs fl
  assume "sim_linked w"
  then show "wp (k_send quiet_posix 3 bs fl) (\<lambda>rc w'. sim_linked w' \<and> sim_heard (sim_log w') = sim_heard (sim_log w) \<and>
      sim_inbox w' = (if rc < 0 then sim_inbox w else sim_inbox w @ [bs]) \<and>
      sim_refused w' = (if rc < 0 then sim_refused w + 1 else sim_refused w)) w"
    by (auto simp: quiet_posix_def sim_posix_def sim_linked_def wp_simps wp_State wp_sim_try sim_enqueue_def sim_inbox_def
        sim_waiting_def sim_refused_def split: list.splits)
next
  fix w b rest n and fl :: u32
  assume a: "sim_linked w" "sim_inbox w = b # rest" "fl AND MSG_PEEK = 0"
  then obtain rs rest' where "sim_waiting w 4 = (b, rs) # rest'" "rest = map fst rest'"
    by (auto simp: sim_inbox_def)
  moreover from this(1) obtain q' where "take_first 4 (sim_queue w) = Some ((b, rs), q')"
    "map snd (filter (\<lambda>m. fst m = 4) q') = rest'"
    using take_first_waiting [of 4 "sim_queue w" "(b, rs)" rest'] by (auto simp: sim_waiting_def)
  ultimately show "wp (k_recv quiet_posix 4 n fl) (\<lambda>r w'. r = (int (length b), take n b) \<and> sim_linked w' \<and>
      sim_heard (sim_log w') = sim_heard (sim_log w) \<and> sim_inbox w' = rest \<and> sim_refused w' = sim_refused w) w"
    using a by (auto simp: quiet_posix_def sim_posix_def wp_State sim_recvmsg_def Let_def sim_waiting_def sim_inbox_def
        sim_linked_def sim_refused_def)
qed (auto simp: quiet_posix_def sim_posix_def sim_Write_def keeps_def wp_State sim_linked_def sim_inbox_def sim_waiting_def
    sim_refused_def)

subsection \<open>Properties\<close>


text \<open>A run in which the socket refuses the second message.\<close>

definition sample_steps :: "llog_step list" where
  "sample_steps = [Client (L_Info ''one'' True), Serve, Client (L_Print ''two''), Client L_Flush,
     Client (L_Error ''three'' True), Serve, Serve]"


end
