(* ===== verification/Linux_Dispatcher.thy ===== *)
theory Linux_Dispatcher
  imports Linux_Sessions
begin

text \<open>
  The servers of the Log, Memory and Message services on Linux: the Ada bodies of the three
  \<open>Dispatcher\<close> packages. A dispatcher session registers at the broker and gets a socket; a request
  on it makes the component's \<open>Dispatch\<close> procedure run, which initializes and accepts a
  server session, and a request that was not accepted is rejected. An event on another descriptor
  means that a client has closed its session; \<open>Dispatch\<close> then cleans up.
\<close>

subsection \<open>Sessions\<close>

text \<open>The dispatcher session of the three packages; they declare the same fields.\<close>

record dispatcher_session =
  dsp_Broker_Fd :: fd
  dsp_E_Cap :: event_cap
  dsp_Accepted :: bool
  dsp_Efd :: fd
  dsp_Index :: "nat option"
  dsp_Dispatch_Fd :: fd

definition dispatcher_session_new :: dispatcher_session where
  "dispatcher_session_new = \<lparr> dsp_Broker_Fd = -1, dsp_E_Cap = Invalid_Event_Cap, dsp_Accepted = False, dsp_Efd = -1,
     dsp_Index = None, dsp_Dispatch_Fd = -1 \<rparr>"

definition Dispatcher_Initialized :: "dispatcher_session \<Rightarrow> bool" where
  "Dispatcher_Initialized s \<longleftrightarrow> Valid (dsp_Broker_Fd s) \<and> 0 \<le> dsp_Efd s \<and> dsp_Index s \<noteq> None"

definition Dispatcher_Registered :: "dispatcher_session \<Rightarrow> bool" where
  "Dispatcher_Registered s \<longleftrightarrow> Valid (dsp_Dispatch_Fd s)"

text \<open>The capability of a request; only Memory has the field \<open>Memfd\<close>, it stays \<open>-1\<close> for the others.\<close>

record dispatcher_cap =
  dcp_Memfd :: fd
  dcp_Client_Fd :: fd
  dcp_Server_Fd :: fd
  dcp_Clean_Fd :: fd
  dcp_Name :: session_label
  dcp_Label :: session_label

record lmem_server =
  lms_Index :: "nat option"
  lms_Fd :: fd
  lms_Sigfd :: fd
  lms_Map :: addr
  lms_E_Cap :: event_cap

record lmsg_server =
  lgs_Fd :: fd
  lgs_Index :: "nat option"
  lgs_E_Cap :: event_cap

definition LMemory_Server_Initialized :: "lmem_server \<Rightarrow> bool" where
  "LMemory_Server_Initialized s \<longleftrightarrow> lms_Index s \<noteq> None \<and> Valid (lms_Fd s) \<and> lms_Map s \<noteq> null \<and>
     Valid_Event_Cap (lms_E_Cap s) \<and> Valid (lms_Sigfd s)"

definition LMessage_Server_Initialized :: "nat \<Rightarrow> lmsg_server \<Rightarrow> bool" where
  "LMessage_Server_Initialized bits s \<longleftrightarrow> Valid (lgs_Fd s) \<and> lgs_Index s \<noteq> None \<and> Valid_Event_Cap (lgs_E_Cap s) \<and> bits = 128 * 8"

text \<open>A component process: the world, the dispatcher session and the server sessions by number.\<close>

record ('w, 's) dispatching =
  lv_world :: 'w
  lv_dsp :: dispatcher_session
  lv_servers :: "nat \<Rightarrow> 's"

definition in_process :: "('w, 'a) state \<Rightarrow> (('w, 's) dispatching, 'a) state" where
  "in_process m = State (\<lambda>s. case run_state m (lv_world s) of (a, w) \<Rightarrow> (a, s\<lparr>lv_world := w\<rparr>))"

definition put_server :: "nat \<Rightarrow> 's \<Rightarrow> (('w, 's) dispatching, unit) state" where
  "put_server i srv = update (\<lambda>s. s\<lparr>lv_servers := (lv_servers s)(i := srv)\<rparr>)"

definition put_dsp :: "dispatcher_session \<Rightarrow> (('w, 's) dispatching, unit) state" where
  "put_dsp d = update (\<lambda>s. s\<lparr>lv_dsp := d\<rparr>)"

lemma wp_in_process [wp_simps]: "wp (in_process m) Q = (\<lambda>s. wp m (\<lambda>a w. Q a (s\<lparr>lv_world := w\<rparr>)) (lv_world s))"
  by (auto simp: wp_def in_process_def fun_eq_iff split: prod.splits)

lemma wp_put_server [wp_simps]: "wp (put_server i srv) Q = (\<lambda>s. Q () (s\<lparr>lv_servers := (lv_servers s)(i := srv)\<rparr>))"
  by (simp add: put_server_def wp_update)

lemma wp_put_dsp [wp_simps]: "wp (put_dsp d) Q = (\<lambda>s. Q () (s\<lparr>lv_dsp := d\<rparr>))"
  by (simp add: put_dsp_def wp_update)

text \<open>
  The addresses that the event capabilities are made of: the procedures \<open>Session_Event\<close>, \<open>Dispatch_Event\<close> and
  \<open>Dispatch_Error\<close>, the session objects, and their \<open>E_Cap\<close> components.
\<close>

record server_site =
  st_Session_Event :: addr
  st_Dispatch_Event :: addr
  st_Dispatch_Error :: addr
  st_Session :: addr
  st_Session_Cap :: addr
  st_Server :: "nat \<Rightarrow> addr"
  st_Server_Cap :: "nat \<Rightarrow> addr"

definition Server_Event_Cap :: "server_site \<Rightarrow> nat \<Rightarrow> fd \<Rightarrow> event_cap" where
  "Server_Event_Cap a i d = Create_Event_Cap (st_Session_Event a) (st_Dispatch_Event a) (st_Server a i) (st_Session a) d"

definition Dispatch_Cap :: "server_site \<Rightarrow> fd \<Rightarrow> event_cap" where
  "Dispatch_Cap a d = Create_Event_Cap (st_Dispatch_Event a) (st_Dispatch_Error a) (st_Session a) (st_Session a) d"

subsection \<open>Initialization and registration\<close>

definition LLog_Dispatcher_Initialize :: "capability \<Rightarrow> nat \<Rightarrow> dispatcher_session \<Rightarrow> dispatcher_session" where
  "LLog_Dispatcher_Initialize cap idx s = s\<lparr>dsp_Efd := cap_Efd cap, dsp_Index := Some idx, dsp_Broker_Fd := cap_Broker_Fd cap\<rparr>"

definition LMemory_Dispatcher_Initialize :: "capability \<Rightarrow> nat \<Rightarrow> dispatcher_session \<Rightarrow> dispatcher_session" where
  "LMemory_Dispatcher_Initialize cap idx s = (if Dispatcher_Initialized s then s
     else s\<lparr>dsp_Broker_Fd := cap_Broker_Fd cap, dsp_Efd := cap_Efd cap, dsp_Index := Some idx\<rparr>)"

definition LMessage_Dispatcher_Initialize :: "capability \<Rightarrow> nat \<Rightarrow> dispatcher_session \<Rightarrow> dispatcher_session" where
  "LMessage_Dispatcher_Initialize cap idx s = (if Dispatcher_Initialized s then s
     else s\<lparr>dsp_Efd := cap_Efd cap, dsp_Index := Some idx, dsp_Broker_Fd := cap_Broker_Fd cap\<rparr>)"

text \<open>The bodies of \<open>Register\<close> differ in the kind only.\<close>

definition Dispatcher_Register ::
  "'w linux_env \<Rightarrow> kind_type \<Rightarrow> server_site \<Rightarrow> dispatcher_session \<Rightarrow> ('w, dispatcher_session) state" where
  "Dispatcher_Register E kind a s =
     (if Valid (dsp_Dispatch_Fd s) then ret s
      else do {
        d \<leftarrow> Client_Register E (dsp_Broker_Fd s) kind;
        let s = s\<lparr>dsp_Dispatch_Fd := d\<rparr>;
        if Valid (dsp_Dispatch_Fd s) then do {
          let s = s\<lparr>dsp_E_Cap := Dispatch_Cap a (dsp_Dispatch_Fd s)\<rparr>;
          _ \<leftarrow> Epoll_Add_Ptr (le_posix E) (dsp_Efd s) (dsp_Dispatch_Fd s) (st_Session_Cap a);
          ret s
        } else ret s
      })"

definition LLog_Register :: "'w linux_env \<Rightarrow> server_site \<Rightarrow> dispatcher_session \<Rightarrow> ('w, dispatcher_session) state" where
  "LLog_Register E = Dispatcher_Register E Log"

definition LMemory_Register :: "'w linux_env \<Rightarrow> server_site \<Rightarrow> dispatcher_session \<Rightarrow> ('w, dispatcher_session) state" where
  "LMemory_Register E = Dispatcher_Register E Memory"

definition LMessage_Register :: "'w linux_env \<Rightarrow> server_site \<Rightarrow> dispatcher_session \<Rightarrow> ('w, dispatcher_session) state" where
  "LMessage_Register E = Dispatcher_Register E Message"

definition LLog_Valid_Session_Request :: "dispatcher_cap \<Rightarrow> bool" where
  "LLog_Valid_Session_Request cap \<longleftrightarrow> Valid (dcp_Client_Fd cap) \<and> Valid (dcp_Server_Fd cap)"

definition LMemory_Valid_Session_Request :: "dispatcher_cap \<Rightarrow> bool" where
  "LMemory_Valid_Session_Request cap \<longleftrightarrow> Valid (dcp_Memfd cap) \<and> Valid (dcp_Client_Fd cap) \<and> Valid (dcp_Server_Fd cap)"

definition LMessage_Valid_Session_Request :: "dispatcher_cap \<Rightarrow> bool" where
  "LMessage_Valid_Session_Request cap \<longleftrightarrow> Valid (dcp_Client_Fd cap) \<and> Valid (dcp_Server_Fd cap)"

subsection \<open>Server sessions\<close>

text \<open>\<open>I\<close> is the component's \<open>Server_Instance\<close>; \<open>Close\<close> sets the descriptor to a negative value.\<close>

definition LLog_Session_Initialize ::
  "'w linux_env \<Rightarrow> 'w server_impl \<Rightarrow> server_site \<Rightarrow> dispatcher_cap \<Rightarrow> nat \<Rightarrow> nat \<Rightarrow> (('w, llog_server) dispatching, unit) state" where
  "LLog_Session_Initialize E I a cap i idx = do {
     s \<leftarrow> getS;
     let srv = (lv_servers s i)\<lparr>lls_Fd := dcp_Server_Fd cap, lls_Index := Some idx,
       lls_E_Cap := Server_Event_Cap a i (dcp_Server_Fd cap)\<rparr>;
     put_server i srv;
     in_process (si_initialize I i);
     s \<leftarrow> getS;
     if \<not> si_ready I i (lv_world s) then do {
       d \<leftarrow> in_process (gneiss_close (le_posix E) (lls_Fd srv));
       put_server i (srv\<lparr>lls_Fd := d, lls_Index := None, lls_E_Cap := Invalidate (lls_E_Cap srv)\<rparr>)
     } else ret ()
   }"

definition LMemory_Session_Initialize ::
  "'w linux_env \<Rightarrow> 'w server_impl \<Rightarrow> server_site \<Rightarrow> dispatcher_cap \<Rightarrow> nat \<Rightarrow> nat \<Rightarrow> (('w, lmem_server) dispatching, unit) state" where
  "LMemory_Session_Initialize E I a cap i idx = do {
     s \<leftarrow> getS;
     m \<leftarrow> in_process (gneiss_mmap (le_posix E) (dcp_Memfd cap) 1);
     let srv = (lv_servers s i)\<lparr>lms_Sigfd := dcp_Server_Fd cap, lms_Fd := dcp_Memfd cap,
       lms_E_Cap := Server_Event_Cap a i (dcp_Server_Fd cap), lms_Index := Some idx, lms_Map := m\<rparr>;
     put_server i srv;
     whenM (lms_Map srv \<noteq> null) (in_process (si_initialize I i));
     s \<leftarrow> getS;
     if \<not> si_ready I i (lv_world s) \<or> lms_Map srv = null then do {
       d \<leftarrow> in_process (gneiss_close (le_posix E) (lms_Fd srv));
       sg \<leftarrow> in_process (gneiss_close (le_posix E) (lms_Sigfd srv));
       put_server i (srv\<lparr>lms_Index := None, lms_Map := null, lms_Fd := d, lms_Sigfd := sg, lms_E_Cap := Invalidate (lms_E_Cap srv)\<rparr>)
     } else ret ()
   }"

definition LMessage_Session_Initialize ::
  "'w linux_env \<Rightarrow> nat \<Rightarrow> 'w server_impl \<Rightarrow> server_site \<Rightarrow> dispatcher_cap \<Rightarrow> nat \<Rightarrow> nat \<Rightarrow> (('w, lmsg_server) dispatching, unit) state" where
  "LMessage_Session_Initialize E bits I a cap i idx =
     (if bits \<noteq> 128 * 8 then ret ()
      else do {
        s \<leftarrow> getS;
        let srv = (lv_servers s i)\<lparr>lgs_Fd := dcp_Server_Fd cap, lgs_Index := Some idx,
          lgs_E_Cap := Server_Event_Cap a i (dcp_Server_Fd cap)\<rparr>;
        put_server i srv;
        in_process (si_initialize I i);
        s \<leftarrow> getS;
        if \<not> si_ready I i (lv_world s) then do {
          d \<leftarrow> in_process (gneiss_close (le_posix E) (lgs_Fd srv));
          put_server i (srv\<lparr>lgs_Index := None, lgs_Fd := d, lgs_E_Cap := Invalidate (lgs_E_Cap srv)\<rparr>)
        } else ret ()
      })"

text \<open>\<open>Session_Accept\<close>: the bodies differ in the kind and in the descriptor \<open>d\<close> that signals events.\<close>

definition Session_Accept ::
  "'w linux_env \<Rightarrow> kind_type \<Rightarrow> server_site \<Rightarrow> dispatcher_cap \<Rightarrow> nat \<Rightarrow> fd \<Rightarrow> (('w, 's) dispatching, ada_error + unit) state" where
  "Session_Accept E kind a cap i d = do {
     s \<leftarrow> getS;
     _ \<leftarrow> in_process (Epoll_Add_Ptr (le_posix E) (dsp_Efd (lv_dsp s)) d (st_Server_Cap a i));
     bindE (in_process (Client_Confirm E (dsp_Dispatch_Fd (lv_dsp s)) kind (label_text (dcp_Name cap)) 1
         (label_text (dcp_Label cap)) [dcp_Client_Fd cap])) (\<lambda>_. do {
       put_dsp ((lv_dsp s)\<lparr>dsp_Accepted := True\<rparr>);
       ret (Inr ())
     })
   }"

definition LLog_Session_Accept ::
  "'w linux_env \<Rightarrow> server_site \<Rightarrow> dispatcher_cap \<Rightarrow> nat \<Rightarrow> (('w, llog_server) dispatching, ada_error + unit) state" where
  "LLog_Session_Accept E a cap i = do { s \<leftarrow> getS; Session_Accept E Log a cap i (lls_Fd (lv_servers s i)) }"

definition LMemory_Session_Accept ::
  "'w linux_env \<Rightarrow> server_site \<Rightarrow> dispatcher_cap \<Rightarrow> nat \<Rightarrow> (('w, lmem_server) dispatching, ada_error + unit) state" where
  "LMemory_Session_Accept E a cap i = do { s \<leftarrow> getS; Session_Accept E Memory a cap i (lms_Sigfd (lv_servers s i)) }"

definition LMessage_Session_Accept ::
  "'w linux_env \<Rightarrow> server_site \<Rightarrow> dispatcher_cap \<Rightarrow> nat \<Rightarrow> (('w, lmsg_server) dispatching, ada_error + unit) state" where
  "LMessage_Session_Accept E a cap i = do { s \<leftarrow> getS; Session_Accept E Message a cap i (lgs_Fd (lv_servers s i)) }"

definition LLog_Session_Cleanup ::
  "'w linux_env \<Rightarrow> 'w server_impl \<Rightarrow> dispatcher_cap \<Rightarrow> nat \<Rightarrow> (('w, llog_server) dispatching, unit) state" where
  "LLog_Session_Cleanup E I cap i = do {
     s \<leftarrow> getS;
     let srv = lv_servers s i;
     if dcp_Clean_Fd cap = lls_Fd srv \<and> LLog_Server_Initialized srv then do {
       _ \<leftarrow> in_process (Epoll_Remove (le_posix E) (dsp_Efd (lv_dsp s)) (lls_Fd srv));
       in_process (si_finalize I i);
       d \<leftarrow> in_process (gneiss_close (le_posix E) (lls_Fd srv));
       put_server i (srv\<lparr>lls_Fd := d, lls_Index := None, lls_E_Cap := Invalidate (lls_E_Cap srv)\<rparr>)
     } else ret ()
   }"

definition LMemory_Session_Cleanup ::
  "'w linux_env \<Rightarrow> 'w server_impl \<Rightarrow> dispatcher_cap \<Rightarrow> nat \<Rightarrow> (('w, lmem_server) dispatching, unit) state" where
  "LMemory_Session_Cleanup E I cap i = do {
     s \<leftarrow> getS;
     let srv = lv_servers s i;
     if Valid (dcp_Clean_Fd cap) \<and> dcp_Clean_Fd cap = lms_Sigfd srv \<and> LMemory_Server_Initialized srv then do {
       _ \<leftarrow> in_process (Epoll_Remove (le_posix E) (dsp_Efd (lv_dsp s)) (lms_Sigfd srv));
       in_process (si_finalize I i);
       sg \<leftarrow> in_process (gneiss_close (le_posix E) (lms_Sigfd srv));
       d \<leftarrow> in_process (gneiss_close (le_posix E) (lms_Fd srv));
       put_server i (srv\<lparr>lms_Sigfd := sg, lms_Fd := d, lms_Index := None, lms_E_Cap := Invalidate (lms_E_Cap srv)\<rparr>)
     } else ret ()
   }"

definition LMessage_Session_Cleanup ::
  "'w linux_env \<Rightarrow> nat \<Rightarrow> 'w server_impl \<Rightarrow> dispatcher_cap \<Rightarrow> nat \<Rightarrow> (('w, lmsg_server) dispatching, unit) state" where
  "LMessage_Session_Cleanup E bits I cap i = do {
     s \<leftarrow> getS;
     let srv = lv_servers s i;
     if Valid (dcp_Clean_Fd cap) \<and> dcp_Clean_Fd cap = lgs_Fd srv \<and> LMessage_Server_Initialized bits srv then do {
       _ \<leftarrow> in_process (Epoll_Remove (le_posix E) (dsp_Efd (lv_dsp s)) (lgs_Fd srv));
       in_process (si_finalize I i);
       d \<leftarrow> in_process (gneiss_close (le_posix E) (lgs_Fd srv));
       put_server i (srv\<lparr>lgs_Fd := d, lgs_Index := None, lgs_E_Cap := Invalidate (lgs_E_Cap srv)\<rparr>)
     } else ret ()
   }"

subsection \<open>Dispatching\<close>

text \<open>
  A component's \<open>Dispatch\<close> procedure as the sequence of calls it makes. SPARK proves that it calls
  them only where their preconditions hold, so a call whose precondition fails is skipped.
\<close>

fun run_calls ::
  "'w server_impl \<Rightarrow> ('s \<Rightarrow> bool) \<Rightarrow> (nat \<Rightarrow> nat \<Rightarrow> (('w, 's) dispatching, unit) state) \<Rightarrow>
   (nat \<Rightarrow> (('w, 's) dispatching, ada_error + unit) state) \<Rightarrow> (nat \<Rightarrow> (('w, 's) dispatching, unit) state) \<Rightarrow>
   bool \<Rightarrow> dispatch_op list \<Rightarrow> (('w, 's) dispatching, ada_error + unit) state" where
  "run_calls I ini s_init s_acc s_clean req [] = ret (Inr ())"
| "run_calls I ini s_init s_acc s_clean req (D_Initialize i idx # ops) = do {
     s \<leftarrow> getS;
     whenM (req \<and> \<not> ini (lv_servers s i) \<and> \<not> si_ready I i (lv_world s)) (s_init i idx);
     run_calls I ini s_init s_acc s_clean req ops
   }"
| "run_calls I ini s_init s_acc s_clean req (D_Accept i # ops) = do {
     s \<leftarrow> getS;
     if req \<and> ini (lv_servers s i) \<and> si_ready I i (lv_world s)
     then bindE (s_acc i) (\<lambda>_. run_calls I ini s_init s_acc s_clean req ops)
     else run_calls I ini s_init s_acc s_clean req ops
   }"
| "run_calls I ini s_init s_acc s_clean req (D_Cleanup i # ops) = do {
     s_clean i;
     run_calls I ini s_init s_acc s_clean req ops
   }"

text \<open>
  \<open>Dispatch_Event\<close>: the bodies differ in the kind and in the number \<open>n\<close> of descriptors, 2 for Log and
  Message and 3 for Memory; \<open>disp\<close> is the component's \<open>Dispatch\<close>.
\<close>

definition request_cap :: "nat \<Rightarrow> session_label \<Rightarrow> session_label \<Rightarrow> fd list \<Rightarrow> dispatcher_cap" where
  "request_cap n name label ds = \<lparr> dcp_Memfd = (if n = 3 then ds ! 2 else -1), dcp_Client_Fd = ds ! 0, dcp_Server_Fd = ds ! 1,
     dcp_Clean_Fd = -1, dcp_Name = name, dcp_Label = label \<rparr>"

definition clean_cap :: "fd \<Rightarrow> dispatcher_cap" where
  "clean_cap d = \<lparr> dcp_Memfd = -1, dcp_Client_Fd = -1, dcp_Server_Fd = -1, dcp_Clean_Fd = d,
     dcp_Name = empty_label, dcp_Label = empty_label \<rparr>"

definition Dispatch_Event ::
  "'w linux_env \<Rightarrow> kind_type \<Rightarrow> nat \<Rightarrow> (dispatcher_cap \<Rightarrow> string \<Rightarrow> string \<Rightarrow> (('w, 's) dispatching, ada_error + unit) state) \<Rightarrow>
   fd \<Rightarrow> (('w, 's) dispatching, ada_error + unit) state" where
  "Dispatch_Event E kind n disp d = do {
     s \<leftarrow> getS;
     if \<not> Dispatcher_Initialized (lv_dsp s) \<or> \<not> Valid (dsp_Dispatch_Fd (lv_dsp s)) then ret (Inr ())
     else if d = dsp_Dispatch_Fd (lv_dsp s) then do {
       put_dsp ((lv_dsp s)\<lparr>dsp_Accepted := False\<rparr>);
       bindE (in_process (Client_Dispatch E (dsp_Dispatch_Fd (lv_dsp s)) kind n)) (\<lambda>(name, label, ds).
       bindE (disp (request_cap n name label ds) (label_text name) (label_text label)) (\<lambda>_. do {
         s \<leftarrow> getS;
         if \<not> dsp_Accepted (lv_dsp s)
         then in_process (Client_Reject E (dsp_Dispatch_Fd (lv_dsp s)) kind (label_text name) 1 (label_text label))
         else ret (Inr ())
       }))
     } else disp (clean_cap d) [] []
   }"

definition LLog_Dispatch_Event ::
  "'w linux_env \<Rightarrow> 'w server_impl \<Rightarrow> server_site \<Rightarrow> (dispatcher_cap \<Rightarrow> string \<Rightarrow> string \<Rightarrow> dispatch_op list) \<Rightarrow>
   fd \<Rightarrow> (('w, llog_server) dispatching, ada_error + unit) state" where
  "LLog_Dispatch_Event E I a D = Dispatch_Event E Log 2 (\<lambda>cap name label.
     run_calls I LLog_Server_Initialized (LLog_Session_Initialize E I a cap) (LLog_Session_Accept E a cap)
       (LLog_Session_Cleanup E I cap) (LLog_Valid_Session_Request cap) (D cap name label))"

definition LMemory_Dispatch_Event ::
  "'w linux_env \<Rightarrow> 'w server_impl \<Rightarrow> server_site \<Rightarrow> (dispatcher_cap \<Rightarrow> string \<Rightarrow> string \<Rightarrow> dispatch_op list) \<Rightarrow>
   fd \<Rightarrow> (('w, lmem_server) dispatching, ada_error + unit) state" where
  "LMemory_Dispatch_Event E I a D = Dispatch_Event E Memory 3 (\<lambda>cap name label.
     run_calls I LMemory_Server_Initialized (LMemory_Session_Initialize E I a cap) (LMemory_Session_Accept E a cap)
       (LMemory_Session_Cleanup E I cap) (LMemory_Valid_Session_Request cap) (D cap name label))"

definition LMessage_Dispatch_Event ::
  "'w linux_env \<Rightarrow> nat \<Rightarrow> 'w server_impl \<Rightarrow> server_site \<Rightarrow> (dispatcher_cap \<Rightarrow> string \<Rightarrow> string \<Rightarrow> dispatch_op list) \<Rightarrow>
   fd \<Rightarrow> (('w, lmsg_server) dispatching, ada_error + unit) state" where
  "LMessage_Dispatch_Event E bits I a D = Dispatch_Event E Message 2 (\<lambda>cap name label.
     run_calls I (LMessage_Server_Initialized bits) (LMessage_Session_Initialize E bits I a cap) (LMessage_Session_Accept E a cap)
       (LMessage_Session_Cleanup E bits I cap) (LMessage_Valid_Session_Request cap) (D cap name label))"

definition LLog_Dispatch_Error :: "'w linux_env \<Rightarrow> fd \<Rightarrow> (('w, 's) dispatching, unit) state" where
  "LLog_Dispatch_Error E d = do {
     s \<leftarrow> getS;
     if \<not> Dispatcher_Initialized (lv_dsp s) then ret ()
     else if d = dsp_Dispatch_Fd (lv_dsp s) \<and> Valid (dsp_Dispatch_Fd (lv_dsp s)) then do {
       _ \<leftarrow> in_process (Epoll_Remove (le_posix E) (dsp_Efd (lv_dsp s)) d);
       efd \<leftarrow> in_process (gneiss_close (le_posix E) (dsp_Efd (lv_dsp s)));
       put_dsp ((lv_dsp s)\<lparr>dsp_Efd := efd\<rparr>)
     } else ret ()
   }"

text \<open>The bodies of Memory and Message.\<close>

definition Dispatch_Error :: "'w linux_env \<Rightarrow> fd \<Rightarrow> (('w, 's) dispatching, unit) state" where
  "Dispatch_Error E d = do {
     s \<leftarrow> getS;
     if \<not> Dispatcher_Initialized (lv_dsp s) then ret ()
     else if d = dsp_Dispatch_Fd (lv_dsp s) \<and> Valid (dsp_Dispatch_Fd (lv_dsp s)) then do {
       _ \<leftarrow> in_process (Epoll_Remove (le_posix E) (dsp_Efd (lv_dsp s)) (dsp_Dispatch_Fd (lv_dsp s)));
       ret ()
     } else ret ()
   }"

subsection \<open>Messages to a server\<close>

text \<open>
  \<open>Session_Event\<close> of the Message dispatcher; \<open>buffer\<close> is the uninitialized variable of 128 bytes and \<open>adjacent\<close>
  the memory behind it, which is returned.
\<close>

definition LMessage_Session_Event ::
  "'w posix \<Rightarrow> nat \<Rightarrow> 'w server_impl \<Rightarrow> nat \<Rightarrow> lmsg_server \<Rightarrow> bytes \<Rightarrow> bytes \<Rightarrow> ('w, bytes) state" where
  "LMessage_Session_Event K bits I i srv buffer adjacent =
     (if \<not> LMessage_Server_Initialized bits srv then ret adjacent
      else do {
        avail \<leftarrow> Message_Available K (lgs_Fd srv);
        if avail then do {
          (data, adjacent) \<leftarrow> Message_Read K (lgs_Fd srv) buffer adjacent;
          si_receive I i data;
          ret adjacent
        } else ret adjacent
      })"

definition LMessage_Server_Send :: "'w posix \<Rightarrow> lmsg_server \<Rightarrow> bytes \<Rightarrow> bytes \<Rightarrow> ('w, unit) state" where
  "LMessage_Server_Send K srv content adjacent = Message_Write K (lgs_Fd srv) content adjacent"

subsection \<open>The contract of a dispatcher\<close>

fun accepts :: "dispatch_op list \<Rightarrow> nat" where
  "accepts [] = 0"
| "accepts (D_Accept i # ops) = accepts ops + 1"
| "accepts (D_Initialize i idx # ops) = accepts ops"
| "accepts (D_Cleanup i # ops) = accepts ops"

text \<open>
  The answer to a request: with an invalid message nothing is sent; otherwise the request is confirmed at
  most as often as the component accepts, never if it is not valid, and rejected if it is not confirmed.
\<close>

definition answer_law ::
  "'w linux_env \<Rightarrow> ('w \<Rightarrow> (fd \<times> send_hdr) list) \<Rightarrow> kind_type \<Rightarrow> nat \<Rightarrow> (dispatcher_cap \<Rightarrow> bool) \<Rightarrow>
   (dispatcher_cap \<Rightarrow> string \<Rightarrow> string \<Rightarrow> dispatch_op list) \<Rightarrow> ada_error + unit \<Rightarrow> ('w, 's) dispatching \<Rightarrow> ('w, 's) dispatching \<Rightarrow> bool" where
  "answer_law E sent kind n vreq D r s s' \<longleftrightarrow>
     (case result (Client_Dispatch E (dsp_Dispatch_Fd (lv_dsp s)) kind n) (lv_world s) of
        Inl e \<Rightarrow> r = Inl e \<and> sent (lv_world s') = sent (lv_world s)
      | Inr (name, label, ds) \<Rightarrow> r = Inr () \<and>
          (\<exists>k \<le> accepts (D (request_cap n name label ds) (label_text name) (label_text label)).
             (k > 0 \<longrightarrow> vreq (request_cap n name label ds)) \<and>
             sent (lv_world s') = sent (lv_world s) @ map (Pair (dsp_Dispatch_Fd (lv_dsp s)))
               (if k = 0 then [wire_msg Reject kind (label_text name) (label_text label) []]
                else replicate k (wire_msg Confirm kind (label_text name) (label_text label) [ds ! 0]))))"

text \<open>
  The effect of a closed session: the servers that signal on this descriptor and that the component cleans up are no
  longer initialized and their descriptors are closed; nothing else changes and nothing is sent.
\<close>

definition cleanup_law ::
  "('w \<Rightarrow> (fd \<times> send_hdr) list) \<Rightarrow> ('w \<Rightarrow> fd set) \<Rightarrow> ('s \<Rightarrow> bool) \<Rightarrow> ('s \<Rightarrow> fd) \<Rightarrow> ('s \<Rightarrow> fd set) \<Rightarrow>
   (dispatcher_cap \<Rightarrow> string \<Rightarrow> string \<Rightarrow> dispatch_op list) \<Rightarrow> fd \<Rightarrow> ada_error + unit \<Rightarrow> ('w, 's) dispatching \<Rightarrow> ('w, 's) dispatching \<Rightarrow> bool" where
  "cleanup_law sent fds ini sig held D d r s s' \<longleftrightarrow>
     (let gone = {j. D_Cleanup j \<in> set (D (clean_cap d) [] []) \<and> ini (lv_servers s j) \<and> sig (lv_servers s j) = d} in
      r = Inr () \<and> lv_dsp s' = lv_dsp s \<and> sent (lv_world s') = sent (lv_world s) \<and>
      (\<forall>j. if j \<in> gone then \<not> ini (lv_servers s' j) else lv_servers s' j = lv_servers s j) \<and>
      fds (lv_world s') = fds (lv_world s) - (\<Union>j \<in> gone. held (lv_servers s j)))"

text \<open>
  What the three services promise to the shared part: \<open>s_init\<close> sends nothing, \<open>s_acc\<close> sends one confirmation with the client's
  descriptor, and \<open>s_clean\<close> ends exactly the session whose signalling descriptor \<open>sig\<close> was closed and gives back the
  descriptors that the server holds.
\<close>

locale dispatch_contract = linux_speaker E sent
  for E :: "'w linux_env" and sent :: "'w \<Rightarrow> (fd \<times> send_hdr) list" +
  fixes fds :: "'w \<Rightarrow> fd set"
    and I :: "'w server_impl"
    and kind :: kind_type
    and ini :: "'s \<Rightarrow> bool"
    and sig :: "'s \<Rightarrow> fd"
    and held :: "'s \<Rightarrow> fd set"
    and s_init :: "dispatcher_cap \<Rightarrow> nat \<Rightarrow> nat \<Rightarrow> (('w, 's) dispatching, unit) state"
    and s_acc :: "dispatcher_cap \<Rightarrow> nat \<Rightarrow> (('w, 's) dispatching, ada_error + unit) state"
    and s_clean :: "dispatcher_cap \<Rightarrow> nat \<Rightarrow> (('w, 's) dispatching, unit) state"
  assumes init_law: "wp (s_init cap i idx) (\<lambda>_ s'. lv_dsp s' = lv_dsp s \<and> sent (lv_world s') = sent (lv_world s)) s"
    and acc_law: "label_ok (dcp_Name cap) \<Longrightarrow> label_ok (dcp_Label cap) \<Longrightarrow>
      wp (s_acc cap i) (\<lambda>r s'. r = Inr () \<and> lv_dsp s' = (lv_dsp s)\<lparr>dsp_Accepted := True\<rparr> \<and>
        sent (lv_world s') = sent (lv_world s) @ [(dsp_Dispatch_Fd (lv_dsp s),
          wire_msg Confirm kind (label_text (dcp_Name cap)) (label_text (dcp_Label cap)) [dcp_Client_Fd cap])]) s"
    and ini_valid: "ini srv \<Longrightarrow> Valid (sig srv)"
    and clean_skip: "\<not> (ini (lv_servers s i) \<and> sig (lv_servers s i) = dcp_Clean_Fd cap) \<Longrightarrow> wp (s_clean cap i) (\<lambda>_ s'. s' = s) s"
    and clean_law: "ini (lv_servers s i) \<Longrightarrow> sig (lv_servers s i) = dcp_Clean_Fd cap \<Longrightarrow>
      wp (s_clean cap i) (\<lambda>_ s'. lv_dsp s' = lv_dsp s \<and> sent (lv_world s') = sent (lv_world s) \<and>
        (\<forall>j. j \<noteq> i \<longrightarrow> lv_servers s' j = lv_servers s j) \<and> \<not> ini (lv_servers s' i) \<and>
        fds (lv_world s') = fds (lv_world s) - held (lv_servers s i)) s"
begin

abbreviation calls :: "dispatcher_cap \<Rightarrow> bool \<Rightarrow> dispatch_op list \<Rightarrow> (('w, 's) dispatching, ada_error + unit) state" where
  "calls cap req ops \<equiv> run_calls I ini (s_init cap) (s_acc cap) (s_clean cap) req ops"

definition confirmations :: "dispatcher_cap \<Rightarrow> ('w, 's) dispatching \<Rightarrow> nat \<Rightarrow> (fd \<times> send_hdr) list" where
  "confirmations cap s k = replicate k (dsp_Dispatch_Fd (lv_dsp s),
     wire_msg Confirm kind (label_text (dcp_Name cap)) (label_text (dcp_Label cap)) [dcp_Client_Fd cap])"

text \<open>The calls for a request: some number of confirmations, and nothing else on the wire.\<close>

definition answered :: "dispatcher_cap \<Rightarrow> bool \<Rightarrow> nat \<Rightarrow> ('w, 's) dispatching \<Rightarrow> ('w, 's) dispatching \<Rightarrow> bool" where
  "answered cap req m s s' \<longleftrightarrow> (\<exists>k \<le> m. (k > 0 \<longrightarrow> req) \<and>
     lv_dsp s' = (if k = 0 then lv_dsp s else (lv_dsp s)\<lparr>dsp_Accepted := True\<rparr>) \<and>
     sent (lv_world s') = sent (lv_world s) @ confirmations cap s k)"

lemma answered_none: "lv_dsp s' = lv_dsp s \<Longrightarrow> sent (lv_world s') = sent (lv_world s) \<Longrightarrow> answered cap req m s s'"
  unfolding answered_def confirmations_def by (intro exI [of _ 0]) simp

lemma answered_trans:
  assumes "answered cap req m s s1" and "answered cap req n s1 s2"
  shows "answered cap req (m + n) s s2"
proof -
  from assms obtain k l where k: "k \<le> m" "k > 0 \<longrightarrow> req" "lv_dsp s1 = (if k = 0 then lv_dsp s else (lv_dsp s)\<lparr>dsp_Accepted := True\<rparr>)"
      "sent (lv_world s1) = sent (lv_world s) @ confirmations cap s k"
    and l: "l \<le> n" "l > 0 \<longrightarrow> req" "lv_dsp s2 = (if l = 0 then lv_dsp s1 else (lv_dsp s1)\<lparr>dsp_Accepted := True\<rparr>)"
      "sent (lv_world s2) = sent (lv_world s1) @ confirmations cap s1 l"
    unfolding answered_def by blast
  have "confirmations cap s1 l = confirmations cap s l" using k(3) by (simp add: confirmations_def)
  with k l show ?thesis
    unfolding answered_def by (intro exI [of _ "k + l"]) (auto simp: confirmations_def replicate_add)
qed

lemma calls_request:
  assumes "label_ok (dcp_Name cap)" and "label_ok (dcp_Label cap)" and "\<not> Valid (dcp_Clean_Fd cap)"
  shows "wp (calls cap req ops) (\<lambda>r s'. r = Inr () \<and> answered cap req (accepts ops) s s') s"
proof (induction ops arbitrary: s rule: accepts.induct)
  case 1
  then show ?case by (simp add: wp_simps answered_none)
next
  case (2 i ops)
  have acc: "wp (s_acc cap i) (\<lambda>r s1. r = Inr () \<and> answered cap req 1 s s1) s" if "req"
    by (rule wp_mono [OF acc_law [OF assms(1,2)]])
      (use that in \<open>auto simp: answered_def confirmations_def intro!: exI [of _ "1 :: nat"]\<close>)
  have rest: "wp (calls cap req ops) (\<lambda>r s'. r = Inr () \<and> answered cap req (accepts ops + 1) s s') s1" if "answered cap req 1 s s1" for s1
    by (rule wp_mono [OF 2]) (use answered_trans [OF that] in auto)
  show ?case
  proof (cases "req \<and> ini (lv_servers s i) \<and> si_ready I i (lv_world s)")
    case True
    show ?thesis
      unfolding run_calls.simps wp_simps if_P [OF True] accepts.simps
      by (rule wp_mono [OF acc]) (use True rest in auto)
  next
    case False
    show ?thesis
      unfolding run_calls.simps wp_simps if_not_P [OF False] accepts.simps
      using rest [OF answered_none [OF refl refl]] by simp
  qed
next
  case (3 i idx ops)
  have "wp (calls cap req ops) (\<lambda>r s'. r = Inr () \<and> answered cap req (accepts ops) s s') s1"
    if "lv_dsp s1 = lv_dsp s \<and> sent (lv_world s1) = sent (lv_world s)" for s1
    by (rule wp_mono [OF 3]) (use that answered_trans [OF answered_none [of s1 s cap req 0]] in auto)
  then show ?case by (auto simp: wp_simps intro!: wp_mono [OF init_law])
next
  case (4 i ops)
  have "\<not> (ini (lv_servers s i) \<and> sig (lv_servers s i) = dcp_Clean_Fd cap)" using ini_valid [of "lv_servers s i"] assms(3) by auto
  from clean_skip [OF this] show ?case
    unfolding run_calls.simps wp_simps accepts.simps by (rule wp_mono) (use 4 in simp)
qed

text \<open>The calls after a client has closed its session.\<close>

definition cleaned :: "dispatcher_cap \<Rightarrow> dispatch_op list \<Rightarrow> ('w, 's) dispatching \<Rightarrow> nat set" where
  "cleaned cap ops s = {j. D_Cleanup j \<in> set ops \<and> ini (lv_servers s j) \<and> sig (lv_servers s j) = dcp_Clean_Fd cap}"

lemma calls_cleanup:
  "wp (calls cap False ops) (\<lambda>r s'. r = Inr () \<and> lv_dsp s' = lv_dsp s \<and> sent (lv_world s') = sent (lv_world s) \<and>
     (\<forall>j. if j \<in> cleaned cap ops s then \<not> ini (lv_servers s' j) else lv_servers s' j = lv_servers s j) \<and>
     fds (lv_world s') = fds (lv_world s) - (\<Union>j \<in> cleaned cap ops s. held (lv_servers s j))) s"
proof (induction ops arbitrary: s rule: accepts.induct)
  case (4 i ops)
  show ?case
  proof (cases "ini (lv_servers s i) \<and> sig (lv_servers s i) = dcp_Clean_Fd cap")
    case True
    show ?thesis
      unfolding run_calls.simps wp_simps
    proof (rule wp_mono [OF clean_law], goal_cases)
      case clean: (3 _ s1)
      from clean have c: "cleaned cap (D_Cleanup i # ops) s = insert i (cleaned cap ops s1)" "i \<notin> cleaned cap ops s1"
        using True by (auto simp: cleaned_def)
      have h: "(\<Union>j \<in> cleaned cap ops s1. held (lv_servers s1 j)) = (\<Union>j \<in> cleaned cap ops s1. held (lv_servers s j))"
        using clean c(2) by (intro SUP_cong) auto
      show ?case
        by (rule wp_mono [OF 4]) (use clean c h in \<open>auto split: if_splits\<close>)
    qed (use True in auto)
  next
    case False
    then have "cleaned cap (D_Cleanup i # ops) s = cleaned cap ops s" by (auto simp: cleaned_def)
    then show ?thesis
      unfolding run_calls.simps wp_simps using 4 by (intro wp_mono [OF clean_skip [OF False]]) simp
  qed
qed (simp_all add: wp_simps cleaned_def)

text \<open>\<open>Dispatch_Event\<close> with the component's calls \<open>D\<close>; \<open>vreq\<close> is \<open>Valid_Session_Request\<close>.\<close>

abbreviation dispatch_on :: "nat \<Rightarrow> (dispatcher_cap \<Rightarrow> bool) \<Rightarrow> (dispatcher_cap \<Rightarrow> string \<Rightarrow> string \<Rightarrow> dispatch_op list) \<Rightarrow> fd \<Rightarrow>
    (('w, 's) dispatching, ada_error + unit) state" where
  "dispatch_on n vreq D d \<equiv> Dispatch_Event E kind n (\<lambda>cap name label. calls cap (vreq cap) (D cap name label)) d"

lemma event_request:
  assumes "Dispatcher_Initialized (lv_dsp s)" and "Dispatcher_Registered (lv_dsp s)"
  shows "wp (dispatch_on n vreq D (dsp_Dispatch_Fd (lv_dsp s))) (\<lambda>r s'. answer_law E sent kind n vreq D r s s') s"
proof -
  let ?s = "s\<lparr>lv_dsp := (lv_dsp s)\<lparr>dsp_Accepted := False\<rparr>\<rparr>"
  let ?r = "result (Client_Dispatch E (dsp_Dispatch_Fd (lv_dsp s)) kind n) (lv_world s)"
  have reject: "wp (Client_Reject E d kind (label_text name) 1 (label_text label)) (\<lambda>r w'. r = Inr () \<and>
      sent w' = sent w @ [(d, wire_msg Reject kind (label_text name) (label_text label) [])]) w"
    if "label_ok name" "label_ok label" for name label d w
    using that by (intro Client_reply_sent) (auto simp: length_label_text label_ok_def)
  obtain r w1 where run: "run_state (Client_Dispatch E (dsp_Dispatch_Fd (lv_dsp s)) kind n) (lv_world s) = (r, w1)" by fastforce
  have r: "sent w1 = sent (lv_world s)" "\<And>name label ds. r = Inr (name, label, ds) \<Longrightarrow> label_ok name \<and> label_ok label"
    using Client_Dispatch_labels [of "dsp_Dispatch_Fd (lv_dsp s)" kind n "lv_world s"] run by (auto simp: wp_def)
  have ok: "\<not> (\<not> Dispatcher_Initialized (lv_dsp s) \<or> \<not> Valid (dsp_Dispatch_Fd (lv_dsp s)))"
    using assms by (simp add: Dispatcher_Registered_def)
  show ?thesis
  proof (cases r)
    case (Inl e)
    with run r(1) ok show ?thesis
      by (simp add: Dispatch_Event_def wp_simps wp_run answer_law_def)
  next
    case (Inr x)
    obtain name label ds where x: "x = (name, label, ds)" by (cases x)
    let ?cap = "request_cap n name label ds"
    have labels: "label_ok (dcp_Name ?cap)" "label_ok (dcp_Label ?cap)" "\<not> Valid (dcp_Clean_Fd ?cap)"
      using r(2) Inr x by (auto simp: request_cap_def)
    have "wp (calls ?cap (vreq ?cap) (D ?cap (label_text name) (label_text label))) (\<lambda>q s2. case q of
          Inl e \<Rightarrow> answer_law E sent kind n vreq D (Inl e) s s2
        | Inr _ \<Rightarrow> if \<not> dsp_Accepted (lv_dsp s2)
            then wp (Client_Reject E (dsp_Dispatch_Fd (lv_dsp s2)) kind (label_text name) 1 (label_text label))
              (\<lambda>q w. answer_law E sent kind n vreq D q s (s2\<lparr>lv_world := w\<rparr>)) (lv_world s2)
            else answer_law E sent kind n vreq D (Inr ()) s s2) (?s\<lparr>lv_world := w1\<rparr>)"
    proof (rule wp_mono [OF calls_request [OF labels]], goal_cases)
      case (1 q s2)
      then obtain k where k: "q = Inr ()" "k \<le> accepts (D ?cap (label_text name) (label_text label))" "k > 0 \<longrightarrow> vreq ?cap"
        "lv_dsp s2 = (lv_dsp s)\<lparr>dsp_Accepted := k > 0\<rparr>" "sent (lv_world s2) = sent (lv_world s) @ confirmations ?cap s k"
        using r(1) by (auto simp: answered_def confirmations_def)
      show ?case
      proof (cases "k = 0")
        case True
        with k labels run Inr x show ?thesis
          by (auto simp: confirmations_def request_cap_def answer_law_def intro!: wp_mono [OF reject [unfolded One_nat_def]] exI [of _ 0])
      next
        case False
        with k run Inr x show ?thesis
          by (auto simp: confirmations_def answer_law_def request_cap_def intro!: exI [of _ k])
      qed
    qed
    then show ?thesis
      using run Inr x ok
      by (simp add: Dispatch_Event_def wp_simps wp_run [of "Client_Dispatch E d k m" for d k m])
        (erule wp_mono, simp add: wp_simps split: sum.splits if_splits)
  qed
qed

lemma event_cleanup:
  assumes "Dispatcher_Initialized (lv_dsp s)" and "Dispatcher_Registered (lv_dsp s)" and "d \<noteq> dsp_Dispatch_Fd (lv_dsp s)"
    and "\<not> vreq (clean_cap d)"
  shows "wp (dispatch_on n vreq D d) (\<lambda>r s'. cleanup_law sent fds ini sig held D d r s s') s"
proof -
  have "{j. D_Cleanup j \<in> set (D (clean_cap d) [] []) \<and> ini (lv_servers s j) \<and> sig (lv_servers s j) = d} =
      cleaned (clean_cap d) (D (clean_cap d) [] []) s"
    by (simp add: cleaned_def clean_cap_def)
  with assms calls_cleanup [of "clean_cap d" "D (clean_cap d) [] []" s] show ?thesis
    by (simp add: Dispatch_Event_def wp_simps Dispatcher_Registered_def cleanup_law_def Let_def)
qed

end

subsection \<open>The three services keep the contract\<close>

text \<open>
  The component's callbacks send no protocol messages, and \<open>Finalize\<close> opens and closes no descriptors.
\<close>

locale linux_server_code = linux_speaker E sent + linux_fds "le_posix E" fds
  for E :: "'w linux_env" and sent :: "'w \<Rightarrow> (fd \<times> send_hdr) list" and fds :: "'w \<Rightarrow> fd set" +
  fixes I :: "'w server_impl"
  assumes initialize_sent [keeps_intros]: "keeps sent (si_initialize I i)"
    and finalize_sent [keeps_intros]: "keeps sent (si_finalize I i)"
    and finalize_fds: "keeps fds (si_finalize I i)"
begin

text \<open>Code that leaves the dispatcher alone and sends nothing.\<close>

definition silent :: "(('w, 's) dispatching, 'a) state \<Rightarrow> bool" where
  "silent m \<longleftrightarrow> keeps (\<lambda>s. (lv_dsp s, sent (lv_world s))) m"

lemma silent_intros:
  "keeps sent m \<Longrightarrow> silent (in_process m)" "silent (put_server i srv)" "silent getS" "silent (ret x)"
  "silent p \<Longrightarrow> (\<And>y. silent (f y)) \<Longrightarrow> silent (State_Monad.bind p f)" "silent q \<Longrightarrow> silent (whenM b q)"
  "silent p \<Longrightarrow> silent r \<Longrightarrow> silent (if b then p else r)"
  unfolding silent_def
  by (auto simp: keeps_def in_process_def put_server_def State_Monad.update_def State_Monad.get_def State_Monad.set_def split: prod.splits)
    (metis snd_conv)+

lemma silent_wp: "silent m \<Longrightarrow> wp m (\<lambda>_ s'. lv_dsp s' = lv_dsp s \<and> sent (lv_world s') = sent (lv_world s)) s"
  unfolding silent_def by (drule keeps_wp [of _ _ s]) simp

lemma initialize_silent:
  "silent (LLog_Session_Initialize E I a cap i idx)" "silent (LMemory_Session_Initialize E I a cap i idx)"
  "silent (LMessage_Session_Initialize E bits I a cap i idx)"
  unfolding LLog_Session_Initialize_def LMemory_Session_Initialize_def LMessage_Session_Initialize_def Let_def
  by (intro silent_intros keeps_intros)+

lemma wp_Session_Accept:
  assumes "label_ok (dcp_Name cap)" and "label_ok (dcp_Label cap)"
  shows "wp (Session_Accept E kind a cap i d) (\<lambda>r s'. r = Inr () \<and> lv_dsp s' = (lv_dsp s)\<lparr>dsp_Accepted := True\<rparr> \<and>
    sent (lv_world s') = sent (lv_world s) @ [(dsp_Dispatch_Fd (lv_dsp s),
      wire_msg Confirm kind (label_text (dcp_Name cap)) (label_text (dcp_Label cap)) [dcp_Client_Fd cap])]) s"
proof -
  have "length (label_text (dcp_Name cap)) < 256" "length (label_text (dcp_Label cap)) < 256"
    using assms by (auto simp: length_label_text label_ok_def)
  note confirm = Client_reply_sent(1) [OF this]
  show ?thesis
    unfolding Session_Accept_def wp_simps
    by (rule keeps_wpI [OF syscall_sent(7)]) (auto intro!: wp_mono [OF confirm [unfolded One_nat_def]])
qed

text \<open>What \<open>Cleanup\<close> runs before it closes the descriptors.\<close>

lemma wp_leave:
  assumes "\<And>w'. sent w' = sent w \<Longrightarrow> fds w' = fds w \<Longrightarrow> Q w'"
  shows "wp (Epoll_Remove (le_posix E) efd d) (\<lambda>_. wp (si_finalize I i) (\<lambda>_. Q)) w"
  by (rule wp_mono [OF wp_and [OF keeps_wp [OF syscall_sent(8)] keeps_wp [OF Epoll_Remove_keeps]]])
    (auto intro!: assms wp_mono [OF wp_and [OF keeps_wp [OF finalize_sent] keeps_wp [OF finalize_fds]]])

lemma close_both:
  "wp (gneiss_close (le_posix E) d) (\<lambda>d' w'. d' < 0 \<and> sent w' = sent w \<and> fds w' = (if d < 0 then fds w else fds w - {d})) w"
  by (rule wp_mono [OF wp_and [OF keeps_wp [OF syscall_sent(2)] pf.close_law]]) auto

end

sublocale linux_server_code \<subseteq> log_dc: dispatch_contract E sent fds I Log LLog_Server_Initialized lls_Fd "\<lambda>srv. {lls_Fd srv}"
  "LLog_Session_Initialize E I a" "LLog_Session_Accept E a" "LLog_Session_Cleanup E I" for a
proof unfold_locales
  fix cap i idx s and srv :: llog_server
  show "wp (LLog_Session_Initialize E I a cap i idx) (\<lambda>_ s'. lv_dsp s' = lv_dsp s \<and> sent (lv_world s') = sent (lv_world s)) s"
    by (rule silent_wp [OF initialize_silent(1)])
  show "LLog_Server_Initialized srv \<Longrightarrow> Valid (lls_Fd srv)" by (simp add: LLog_Server_Initialized_def)
  show "\<not> (LLog_Server_Initialized (lv_servers s i) \<and> lls_Fd (lv_servers s i) = dcp_Clean_Fd cap) \<Longrightarrow>
      wp (LLog_Session_Cleanup E I cap i) (\<lambda>_ s'. s' = s) s"
    by (auto simp: LLog_Session_Cleanup_def wp_simps)
  show "wp (LLog_Session_Cleanup E I cap i) (\<lambda>_ s'. lv_dsp s' = lv_dsp s \<and> sent (lv_world s') = sent (lv_world s) \<and>
      (\<forall>j. j \<noteq> i \<longrightarrow> lv_servers s' j = lv_servers s j) \<and> \<not> LLog_Server_Initialized (lv_servers s' i) \<and>
      fds (lv_world s') = fds (lv_world s) - {lls_Fd (lv_servers s i)}) s"
    if "LLog_Server_Initialized (lv_servers s i)" "lls_Fd (lv_servers s i) = dcp_Clean_Fd cap"
    using that
    by (auto simp: LLog_Session_Cleanup_def Let_def wp_simps LLog_Server_Initialized_def intro!: wp_leave wp_mono [OF close_both])
qed (simp add: LLog_Session_Accept_def wp_simps wp_Session_Accept)

sublocale linux_server_code \<subseteq> mem_dc: dispatch_contract E sent fds I Memory LMemory_Server_Initialized lms_Sigfd
  "\<lambda>srv. {lms_Sigfd srv, lms_Fd srv}" "LMemory_Session_Initialize E I a" "LMemory_Session_Accept E a" "LMemory_Session_Cleanup E I" for a
proof unfold_locales
  fix cap i idx s and srv :: lmem_server
  show "wp (LMemory_Session_Initialize E I a cap i idx) (\<lambda>_ s'. lv_dsp s' = lv_dsp s \<and> sent (lv_world s') = sent (lv_world s)) s"
    by (rule silent_wp [OF initialize_silent(2)])
  show "LMemory_Server_Initialized srv \<Longrightarrow> Valid (lms_Sigfd srv)" by (simp add: LMemory_Server_Initialized_def)
  show "\<not> (LMemory_Server_Initialized (lv_servers s i) \<and> lms_Sigfd (lv_servers s i) = dcp_Clean_Fd cap) \<Longrightarrow>
      wp (LMemory_Session_Cleanup E I cap i) (\<lambda>_ s'. s' = s) s"
    by (auto simp: LMemory_Session_Cleanup_def wp_simps)
  show "wp (LMemory_Session_Cleanup E I cap i) (\<lambda>_ s'. lv_dsp s' = lv_dsp s \<and> sent (lv_world s') = sent (lv_world s) \<and>
      (\<forall>j. j \<noteq> i \<longrightarrow> lv_servers s' j = lv_servers s j) \<and> \<not> LMemory_Server_Initialized (lv_servers s' i) \<and>
      fds (lv_world s') = fds (lv_world s) - {lms_Sigfd (lv_servers s i), lms_Fd (lv_servers s i)}) s"
    if "LMemory_Server_Initialized (lv_servers s i)" "lms_Sigfd (lv_servers s i) = dcp_Clean_Fd cap"
    using that
    by (auto simp: LMemory_Session_Cleanup_def Let_def wp_simps LMemory_Server_Initialized_def intro!: wp_leave wp_mono [OF close_both])
qed (simp add: LMemory_Session_Accept_def wp_simps wp_Session_Accept)

sublocale linux_server_code \<subseteq> msg_dc: dispatch_contract E sent fds I Message "LMessage_Server_Initialized bits" lgs_Fd
  "\<lambda>srv. {lgs_Fd srv}" "LMessage_Session_Initialize E bits I a" "LMessage_Session_Accept E a" "LMessage_Session_Cleanup E bits I" for a bits
proof unfold_locales
  fix cap i idx s and srv :: lmsg_server
  show "wp (LMessage_Session_Initialize E bits I a cap i idx) (\<lambda>_ s'. lv_dsp s' = lv_dsp s \<and> sent (lv_world s') = sent (lv_world s)) s"
    by (rule silent_wp [OF initialize_silent(3)])
  show "LMessage_Server_Initialized bits srv \<Longrightarrow> Valid (lgs_Fd srv)" by (simp add: LMessage_Server_Initialized_def)
  show "\<not> (LMessage_Server_Initialized bits (lv_servers s i) \<and> lgs_Fd (lv_servers s i) = dcp_Clean_Fd cap) \<Longrightarrow>
      wp (LMessage_Session_Cleanup E bits I cap i) (\<lambda>_ s'. s' = s) s"
    by (auto simp: LMessage_Session_Cleanup_def wp_simps)
  show "wp (LMessage_Session_Cleanup E bits I cap i) (\<lambda>_ s'. lv_dsp s' = lv_dsp s \<and> sent (lv_world s') = sent (lv_world s) \<and>
      (\<forall>j. j \<noteq> i \<longrightarrow> lv_servers s' j = lv_servers s j) \<and> \<not> LMessage_Server_Initialized bits (lv_servers s' i) \<and>
      fds (lv_world s') = fds (lv_world s) - {lgs_Fd (lv_servers s i)}) s"
    if "LMessage_Server_Initialized bits (lv_servers s i)" "lgs_Fd (lv_servers s i) = dcp_Clean_Fd cap"
    using that
    by (auto simp: LMessage_Session_Cleanup_def Let_def wp_simps LMessage_Server_Initialized_def intro!: wp_leave wp_mono [OF close_both])
qed (simp add: LMessage_Session_Accept_def wp_simps wp_Session_Accept)

context linux_server_code
begin

lemma requests_answered:
  assumes "Dispatcher_Initialized d" and "Dispatcher_Registered d"
  shows "lv_dsp s1 = d \<Longrightarrow> wp (LLog_Dispatch_Event E I a D (dsp_Dispatch_Fd d))
      (\<lambda>r s'. answer_law E sent Log 2 LLog_Valid_Session_Request D r s1 s') s1"
    and "lv_dsp s2 = d \<Longrightarrow> wp (LMemory_Dispatch_Event E I a D (dsp_Dispatch_Fd d))
      (\<lambda>r s'. answer_law E sent Memory 3 LMemory_Valid_Session_Request D r s2 s') s2"
    and "lv_dsp s3 = d \<Longrightarrow> wp (LMessage_Dispatch_Event E bits I a D (dsp_Dispatch_Fd d))
      (\<lambda>r s'. answer_law E sent Message 2 LMessage_Valid_Session_Request D r s3 s') s3"
  unfolding LLog_Dispatch_Event_def LMemory_Dispatch_Event_def LMessage_Dispatch_Event_def
  using assms by (auto intro!: log_dc.event_request mem_dc.event_request msg_dc.event_request)

lemma sessions_cleaned:
  assumes "Dispatcher_Initialized d" and "Dispatcher_Registered d" and "e \<noteq> dsp_Dispatch_Fd d"
  shows "lv_dsp s1 = d \<Longrightarrow> wp (LLog_Dispatch_Event E I a D e) (\<lambda>r s'. cleanup_law sent fds LLog_Server_Initialized lls_Fd
      (\<lambda>srv. {lls_Fd srv}) D e r s1 s') s1"
    and "lv_dsp s2 = d \<Longrightarrow> wp (LMemory_Dispatch_Event E I a D e) (\<lambda>r s'. cleanup_law sent fds LMemory_Server_Initialized lms_Sigfd
      (\<lambda>srv. {lms_Sigfd srv, lms_Fd srv}) D e r s2 s') s2"
    and "lv_dsp s3 = d \<Longrightarrow> wp (LMessage_Dispatch_Event E bits I a D e) (\<lambda>r s'. cleanup_law sent fds (LMessage_Server_Initialized bits) lgs_Fd
      (\<lambda>srv. {lgs_Fd srv}) D e r s3 s') s3"
proof -
  have v: "\<not> LLog_Valid_Session_Request (clean_cap e)" "\<not> LMemory_Valid_Session_Request (clean_cap e)"
    "\<not> LMessage_Valid_Session_Request (clean_cap e)"
    by (simp_all add: LLog_Valid_Session_Request_def LMemory_Valid_Session_Request_def LMessage_Valid_Session_Request_def clean_cap_def)
  show "lv_dsp s1 = d \<Longrightarrow> wp (LLog_Dispatch_Event E I a D e) (\<lambda>r s'. cleanup_law sent fds LLog_Server_Initialized lls_Fd
      (\<lambda>srv. {lls_Fd srv}) D e r s1 s') s1"
    unfolding LLog_Dispatch_Event_def using assms v by (intro log_dc.event_cleanup) auto
  show "lv_dsp s2 = d \<Longrightarrow> wp (LMemory_Dispatch_Event E I a D e) (\<lambda>r s'. cleanup_law sent fds LMemory_Server_Initialized lms_Sigfd
      (\<lambda>srv. {lms_Sigfd srv, lms_Fd srv}) D e r s2 s') s2"
    unfolding LMemory_Dispatch_Event_def using assms v by (intro mem_dc.event_cleanup) auto
  show "lv_dsp s3 = d \<Longrightarrow> wp (LMessage_Dispatch_Event E bits I a D e) (\<lambda>r s'. cleanup_law sent fds (LMessage_Server_Initialized bits) lgs_Fd
      (\<lambda>srv. {lgs_Fd srv}) D e r s3 s') s3"
    unfolding LMessage_Dispatch_Event_def using assms v by (intro msg_dc.event_cleanup) auto
qed

end

subsection \<open>Properties\<close>

text \<open>
  C12. A server answers every session request once, and as its component decides. When the socket of a registered
  Log, Memory or Message dispatcher is readable, the component may call \<open>Session_Initialize\<close>, \<open>Session_Accept\<close> and \<open>Session_Cleanup\<close>
  in any order: the messages that leave the process are confirmations for this requester
  with the client's end of the channel, no more than there are calls of \<open>Session_Accept\<close> and none for a
  request without descriptors, or, if there is no confirmation, exactly one rejection. A message
  that is no protocol message raises an exception and is not answered.
\<close>

theorem linux_dispatch_answers:
  assumes "linux_server_code E sent fds I" and "Dispatcher_Initialized d" and "Dispatcher_Registered d"
    and "lv_dsp s1 = d" and "lv_dsp s2 = d" and "lv_dsp s3 = d"
  shows "wp (LLog_Dispatch_Event E I a D (dsp_Dispatch_Fd d))
      (\<lambda>r s'. answer_law E sent Log 2 LLog_Valid_Session_Request D r s1 s') s1 \<and>
    wp (LMemory_Dispatch_Event E I a D (dsp_Dispatch_Fd d))
      (\<lambda>r s'. answer_law E sent Memory 3 LMemory_Valid_Session_Request D r s2 s') s2 \<and>
    wp (LMessage_Dispatch_Event E bits I a D (dsp_Dispatch_Fd d))
      (\<lambda>r s'. answer_law E sent Message 2 LMessage_Valid_Session_Request D r s3 s') s3"
  using linux_server_code.requests_answered [OF assms(1)] assms(2-) by blast

text \<open>
  C19. When a client closes its session, exactly this session ends. An event on a descriptor
  other than the dispatcher's socket makes a Log, Memory or Message server end the sessions that
  signal on this descriptor and that the component cleans up, and closes exactly their
  descriptors; all other sessions stay as they are and no message is sent, whatever other calls
  the component makes.
\<close>

theorem linux_cleanup_exact:
  assumes "linux_server_code E sent fds I" and "Dispatcher_Initialized d" and "Dispatcher_Registered d"
    and "lv_dsp s1 = d" and "lv_dsp s2 = d" and "lv_dsp s3 = d" and "e \<noteq> dsp_Dispatch_Fd d"
  shows "wp (LLog_Dispatch_Event E I a D e) (\<lambda>r s'. cleanup_law sent fds LLog_Server_Initialized lls_Fd
      (\<lambda>srv. {lls_Fd srv}) D e r s1 s') s1 \<and>
    wp (LMemory_Dispatch_Event E I a D e) (\<lambda>r s'. cleanup_law sent fds LMemory_Server_Initialized lms_Sigfd
      (\<lambda>srv. {lms_Sigfd srv, lms_Fd srv}) D e r s2 s') s2 \<and>
    wp (LMessage_Dispatch_Event E bits I a D e) (\<lambda>r s'. cleanup_law sent fds (LMessage_Server_Initialized bits) lgs_Fd
      (\<lambda>srv. {lgs_Fd srv}) D e r s3 s') s3"
  using linux_server_code.sessions_cleaned [OF assms(1)] assms(2-) by blast

text \<open>
  A finding: on a hang-up of the dispatcher's socket the Log dispatcher closes the epoll descriptor, which it shares with
  the whole component and its main loop; Memory and Message only stop to listen on the socket.
\<close>

theorem linux_log_dispatch_error_closes_epoll:
  assumes "linux_fds (le_posix E) fds" and "Dispatcher_Initialized (lv_dsp s)" and "Dispatcher_Registered (lv_dsp s)"
  shows "wp (LLog_Dispatch_Error E (dsp_Dispatch_Fd (lv_dsp s))) (\<lambda>_ s'. fds (lv_world s') = fds (lv_world s) - {dsp_Efd (lv_dsp s)} \<and>
      \<not> Dispatcher_Initialized (lv_dsp s')) s \<and>
    wp (Dispatch_Error E (dsp_Dispatch_Fd (lv_dsp s))) (\<lambda>_ s'. fds (lv_world s') = fds (lv_world s) \<and> lv_dsp s' = lv_dsp s) s"
proof -
  note removed = keeps_wpI [OF linux_fds.Epoll_Remove_keeps [OF assms(1)]]
  note closed = wp_mono [OF linux_fds.gneiss_close_law [OF assms(1)]]
  show ?thesis
    using assms(2,3)
    by (auto simp: LLog_Dispatch_Error_def Dispatch_Error_def Dispatcher_Initialized_def Dispatcher_Registered_def wp_simps
        intro!: removed closed)
qed

subsection \<open>A server on the reference kernel\<close>

text \<open>A component that is ready after its initialization, with a request for it at descriptor 5.\<close>

definition sample_impl :: "sim server_impl" where
  "sample_impl = \<lparr> si_initialize = (\<lambda>i. k_warn sim_posix ''ready''), si_ready = (\<lambda>i w. sim_log w \<noteq> []),
     si_finalize = (\<lambda>i. ret ()), si_write = (\<lambda>i t. ret ()), si_receive = (\<lambda>i b. ret ()) \<rparr>"

definition sample_server_site :: server_site where
  "sample_server_site = \<lparr> st_Session_Event = 0x10, st_Dispatch_Event = 0x20, st_Dispatch_Error = 0x30, st_Session = 0x40,
     st_Session_Cap = 0x48, st_Server = (\<lambda>i. 0x50), st_Server_Cap = (\<lambda>i. 0x58) \<rparr>"

definition sample_dsp :: dispatcher_session where
  "sample_dsp = dispatcher_session_new\<lparr>dsp_Broker_Fd := 3, dsp_Efd := 4, dsp_Index := Some 1, dsp_Dispatch_Fd := 5\<rparr>"

definition sample_log_server :: llog_server where
  "sample_log_server = \<lparr> lls_Fd = -1, lls_Index = None, lls_Buffer = [], lls_Cursor = 1, lls_E_Cap = Invalid_Event_Cap \<rparr>"

definition request_world :: sim where
  "request_world = sim_init\<lparr>sim_fds := [5, 4, 3, 2, 1, 0], sim_peer := [(5, 6), (6, 5)], sim_queue := [(5, wire Request Log ''c'' ''l'', [7, 8])]\<rparr>"

definition request_state :: "(sim, llog_server) dispatching" where
  "request_state = \<lparr> lv_world = request_world, lv_dsp = sample_dsp, lv_servers = (\<lambda>i. sample_log_server) \<rparr>"

definition accept_at_zero :: "dispatcher_cap \<Rightarrow> string \<Rightarrow> string \<Rightarrow> dispatch_op list" where
  "accept_at_zero cap name label = [D_Cleanup 0, D_Initialize 0 1, D_Accept 0]"

interpretation sample_code: linux_server_code sim_env sim_sent sim_fdset sample_impl
  using sim_speaker.linux_speaker_axioms sim_fds.linux_fds_axioms
  by (simp add: linux_server_code_def linux_server_code_axioms_def sample_impl_def keeps_return) (simp add: sim_posix_def keeps_def)

theorem linux_dispatch_answers_witness:
  "wp (LLog_Dispatch_Event sim_env sample_impl sample_server_site accept_at_zero 5)
     (\<lambda>r s'. answer_law sim_env sim_sent Log 2 LLog_Valid_Session_Request accept_at_zero r request_state s') request_state \<and>
   map (\<lambda>(d, h). (d, snd_iov h, rights_of h)) (sim_sent (lv_world (final (LLog_Dispatch_Event sim_env sample_impl
     sample_server_site accept_at_zero 5) request_state))) = [(5, wire Confirm Log ''c'' ''l'', [6])]"
proof
  have d: "Dispatcher_Initialized sample_dsp" "Dispatcher_Registered sample_dsp" "lv_dsp request_state = sample_dsp"
    "dsp_Dispatch_Fd sample_dsp = 5"
    by code_simp+
  show "wp (LLog_Dispatch_Event sim_env sample_impl sample_server_site accept_at_zero 5)
     (\<lambda>r s'. answer_law sim_env sim_sent Log 2 LLog_Valid_Session_Request accept_at_zero r request_state s') request_state"
    using linux_dispatch_answers [OF sample_code.linux_server_code_axioms d(1-3),
      of "\<lparr>lv_world = undefined, lv_dsp = sample_dsp, lv_servers = undefined\<rparr>"
         "\<lparr>lv_world = undefined, lv_dsp = sample_dsp, lv_servers = undefined\<rparr>"] d(4) by simp
  show "map (\<lambda>(d, h). (d, snd_iov h, rights_of h)) (sim_sent (lv_world (final (LLog_Dispatch_Event sim_env sample_impl
     sample_server_site accept_at_zero 5) request_state))) = [(5, wire Confirm Log ''c'' ''l'', [6])]"
    by code_simp
qed

text \<open>The same component with a session at descriptor 7 whose client has gone.\<close>

definition hangup_state :: "(sim, llog_server) dispatching" where
  "hangup_state = \<lparr> lv_world = sim_init\<lparr>sim_fds := [7, 5, 4, 3, 2, 1, 0], sim_log := [''ready'']\<rparr>, lv_dsp = sample_dsp,
     lv_servers = (\<lambda>i. if i = 0 then sample_log_server\<lparr>lls_Fd := 7, lls_Index := Some 1, lls_E_Cap := Server_Event_Cap sample_server_site 0 7\<rparr>
       else sample_log_server) \<rparr>"

theorem linux_cleanup_exact_witness:
  "LLog_Server_Initialized (lv_servers hangup_state 0) \<and>
   wp (LLog_Dispatch_Event sim_env sample_impl sample_server_site accept_at_zero 7) (\<lambda>r s'. r = Inr () \<and>
     \<not> LLog_Server_Initialized (lv_servers s' 0) \<and> sim_fdset (lv_world s') = {0, 1, 2, 3, 4, 5}) hangup_state"
proof
  have d: "Dispatcher_Initialized sample_dsp" "Dispatcher_Registered sample_dsp" "lv_dsp hangup_state = sample_dsp"
    "7 \<noteq> dsp_Dispatch_Fd sample_dsp"
    by code_simp+
  show ini: "LLog_Server_Initialized (lv_servers hangup_state 0)" by code_simp
  have fd: "lls_Fd (lv_servers hangup_state 0) = 7" "sim_fdset (lv_world hangup_state) = {0, 1, 2, 3, 4, 5, 7}" by code_simp+
  have "wp (LLog_Dispatch_Event sim_env sample_impl sample_server_site accept_at_zero 7) (\<lambda>r s'.
      cleanup_law sim_sent sim_fdset LLog_Server_Initialized lls_Fd (\<lambda>srv. {lls_Fd srv}) accept_at_zero 7 r hangup_state s') hangup_state"
    using linux_cleanup_exact [OF sample_code.linux_server_code_axioms d(1-3),
      of "\<lparr>lv_world = undefined, lv_dsp = sample_dsp, lv_servers = undefined\<rparr>"
         "\<lparr>lv_world = undefined, lv_dsp = sample_dsp, lv_servers = undefined\<rparr>" 7] d(4) by simp
  then show "wp (LLog_Dispatch_Event sim_env sample_impl sample_server_site accept_at_zero 7) (\<lambda>r s'. r = Inr () \<and>
      \<not> LLog_Server_Initialized (lv_servers s' 0) \<and> sim_fdset (lv_world s') = {0, 1, 2, 3, 4, 5}) hangup_state"
  proof (rule wp_mono, goal_cases)
    case (1 r s')
    have gone: "{j. D_Cleanup j \<in> set (accept_at_zero (clean_cap 7) [] []) \<and> LLog_Server_Initialized (lv_servers hangup_state j) \<and>
        lls_Fd (lv_servers hangup_state j) = 7} = {0}"
      using ini fd by (auto simp: accept_at_zero_def)
    from 1 show ?case unfolding cleanup_law_def gone Let_def using fd by auto
  qed
qed

text \<open>
  A finding: a server never closes the client's end of a channel. After a request was confirmed both ends that came with
  it, here 6 and 7, are open in the server process. As the server itself keeps the peer of its socket open, the
  hang-up that \<open>Session_Cleanup\<close> waits for does not happen when the client closes its session.
\<close>

theorem linux_dispatch_keeps_client_end:
  "6 \<notin> sim_fdset request_world \<and>
   sim_fdset (lv_world (final (LLog_Dispatch_Event sim_env sample_impl sample_server_site accept_at_zero 5) request_state)) =
     sim_fdset request_world \<union> {6, 7} \<and>
   lls_Fd (lv_servers (final (LLog_Dispatch_Event sim_env sample_impl sample_server_site accept_at_zero 5) request_state) 0) = 7"
  by code_simp

end
