(* ===== verification/Gneiss_Buffers.thy ===== *)
theory Gneiss_Buffers
  imports Gneiss_Prelude
begin

text \<open>
  Buffers in shared memory. The Ada code overlays an array on mapped memory and hands it to a procedure
  of the component. Here are the index arithmetic of Ada with its checks, the
  functions \<open>Get_First\<close> and \<open>Get_Last\<close> of \<open>gneiss_internal-util.adb\<close>, and the access to the
  memory, which is the parameter \<open>address_space\<close>.
\<close>

subsection \<open>Index types\<close>

text \<open>A signed integer type with its base range, in which Ada computes.\<close>

record index_type =
  ix_first :: int
  ix_last :: int
  ix_base_first :: int
  ix_base_last :: int

definition index_ok :: "index_type \<Rightarrow> bool" where
  "index_ok t \<longleftrightarrow> ix_base_first t \<le> ix_first t \<and> ix_first t \<le> ix_last t \<and> ix_last t \<le> ix_base_last t \<and>
     - (2 ^ 63) \<le> ix_base_first t \<and> ix_base_first t \<le> 0 \<and> ix_base_last t < 2 ^ 63"

definition in_base :: "index_type \<Rightarrow> int \<Rightarrow> ada_error + int" where
  "in_base t x = (if ix_base_first t \<le> x \<and> x \<le> ix_base_last t then Inr x else Inl Constraint_Error)"

definition in_index :: "index_type \<Rightarrow> int \<Rightarrow> ada_error + int" where
  "in_index t x = (if ix_first t \<le> x \<and> x \<le> ix_last t then Inr x else Inl Constraint_Error)"

definition in_long :: "int \<Rightarrow> ada_error + int" where
  "in_long x = (if - (2 ^ 63) \<le> x \<and> x < 2 ^ 63 then Inr x else Inl Constraint_Error)"

definition Get_First :: "index_type \<Rightarrow> int \<Rightarrow> ada_error + int" where
  "Get_First t len = (if len < 1 then thenE (in_base t (ix_first t + 1)) (in_index t) else Inr (ix_first t))"

definition Get_Last :: "index_type \<Rightarrow> int \<Rightarrow> ada_error + int" where
  "Get_Last t len =
     (if len < 1 then Inr (ix_first t)
      else thenE (in_base t (ix_last t - ix_first t)) (\<lambda>x. thenE (in_base t (x + 1)) (\<lambda>n.
        if len < n then thenE (in_long (ix_first t + len)) (\<lambda>y. thenE (in_long (y - 1)) (in_index t))
        else Inr (ix_last t))))"

text \<open>The bounds of the array in \<open>Modify\<close> and \<open>Update\<close> on Linux, \<open>Last\<close> is computed first.\<close>

definition linux_bounds :: "index_type \<Rightarrow> int \<Rightarrow> ada_error + (int \<times> int)" where
  "linux_bounds t len = thenE (Get_Last t len) (\<lambda>b. thenE (Get_First t len) (\<lambda>a. Inr (a, b)))"

text \<open>
  The bounds on Genode: \<open>'Val\<close> checks the base range, and the upper bound of an array that is not empty
  has to be in the index range.
\<close>

definition genode_bounds :: "index_type \<Rightarrow> int \<Rightarrow> ada_error + (int \<times> int)" where
  "genode_bounds t len = thenE (in_base t (ix_first t + len - 1)) (\<lambda>b.
     if ix_first t \<le> b \<and> ix_last t < b then Inl Constraint_Error else Inr (ix_first t, b))"

subsection \<open>Memory\<close>

record 'w address_space =
  as_load :: "addr \<Rightarrow> nat \<Rightarrow> ('w, bytes) state"
  as_store :: "addr \<Rightarrow> bytes \<Rightarrow> ('w, unit) state"

text \<open>
  A buffer with the bounds \<open>a .. b\<close> at an address: \<open>modify_at\<close> passes it as an \<open>in out\<close> parameter, \<open>read_at\<close> as an \<open>in\<close>
  parameter.
\<close>

definition modify_at ::
  "'w address_space \<Rightarrow> addr \<Rightarrow> int \<times> int \<Rightarrow> (int \<Rightarrow> bytes \<Rightarrow> ('w, bytes) state) \<Rightarrow> ('w, unit) state" where
  "modify_at M p r f = do {
     bs \<leftarrow> as_load M p (nat (snd r - fst r + 1));
     bs \<leftarrow> f (fst r) bs;
     as_store M p bs
   }"

definition read_at ::
  "'w address_space \<Rightarrow> addr \<Rightarrow> int \<times> int \<Rightarrow> (int \<Rightarrow> bytes \<Rightarrow> ('w, unit) state) \<Rightarrow> ('w, unit) state" where
  "read_at M p r f = do {
     bs \<leftarrow> as_load M p (nat (snd r - fst r + 1));
     f (fst r) bs
   }"

text \<open>The addresses of \<open>n\<close> bytes from \<open>p\<close>; addresses wrap.\<close>

definition area :: "addr \<Rightarrow> nat \<Rightarrow> addr set" where
  "area p n = (\<lambda>i. p + of_nat i) ` {..<n}"

lemma area_mono: "m \<le> n \<Longrightarrow> area p m \<subseteq> area p n"
  by (auto simp: area_def)

locale memory_laws =
  fixes M :: "'w address_space"
    and content :: "'w \<Rightarrow> addr \<Rightarrow> u8"
  assumes load_law: "wp (as_load M p n) (\<lambda>bs w'. w' = w \<and> bs = map (\<lambda>i. content w (p + of_nat i)) [0..<n]) w"
    and store_law: "wp (as_store M p bs) (\<lambda>_ w'. (\<forall>q. q \<notin> area p (length bs) \<longrightarrow> content w' q = content w q) \<and>
      (length bs \<le> 2 ^ 64 \<longrightarrow> (\<forall>i < length bs. content w' (p + of_nat i) = bs ! i))) w"
begin

text \<open>Code of the component that gets a buffer: it changes the buffer only.\<close>

definition buffer_code :: "(int \<Rightarrow> bytes \<Rightarrow> ('w, bytes) state) \<Rightarrow> bool" where
  "buffer_code f \<longleftrightarrow> (\<forall>a bs w. wp (f a bs) (\<lambda>bs' w'. length bs' = length bs \<and> content w' = content w) w)"

lemma modify_at_area:
  assumes "buffer_code f"
  shows "wp (modify_at M p r f) (\<lambda>_ w'. \<forall>q. q \<notin> area p (nat (snd r - fst r + 1)) \<longrightarrow> content w' q = content w q) w"
  unfolding modify_at_def wp_simps
proof (rule wp_mono [OF load_law], goal_cases)
  case (1 bs w1)
  show ?case
  proof (rule wp_mono [OF assms [unfolded buffer_code_def, rule_format]], goal_cases)
    case (1 bs' w2)
    with \<open>w1 = w \<and> _\<close> show ?case by (intro wp_mono [OF store_law]) auto
  qed
qed

end

subsection \<open>Bounds\<close>

lemma linux_bounds_cases:
  assumes "index_ok t"
  obtains (raised) "linux_bounds t len = Inl Constraint_Error"
      "(len < 1 \<and> ix_first t = ix_last t) \<or> (1 \<le> len \<and> ix_base_last t \<le> ix_last t - ix_first t)"
    | (bounds) a b where "linux_bounds t len = Inr (a, b)" "ix_first t \<le> a" "b \<le> ix_last t"
      "nat (b - a + 1) = nat (min len (ix_last t - ix_first t + 1))"
      "\<not> (len < 1 \<and> ix_first t = ix_last t)" "\<not> (1 \<le> len \<and> ix_base_last t \<le> ix_last t - ix_first t)"
proof (cases "len < 1")
  case True
  then have "linux_bounds t len = (if ix_first t = ix_last t then Inl Constraint_Error else Inr (ix_first t + 1, ix_first t))"
    using assms by (auto simp: linux_bounds_def Get_First_def Get_Last_def in_base_def in_index_def index_ok_def thenE_def)
  with True that assms show thesis by (auto simp: index_ok_def split: if_splits)
next
  case False
  let ?n = "ix_last t - ix_first t + 1"
  let ?b = "if len < ?n then ix_first t + len - 1 else ix_last t"
  have eq: "linux_bounds t len = (if ix_base_last t < ?n then Inl Constraint_Error else Inr (ix_first t, ?b))"
    using assms False
    by (auto simp: linux_bounds_def Get_First_def Get_Last_def in_base_def in_index_def in_long_def index_ok_def thenE_def)
  have "?b \<le> ix_last t" "nat (?b - ix_first t + 1) = nat (min len ?n)" by (auto simp: min_def)
  with eq False that show thesis by (cases "ix_base_last t < ?n") auto
qed

text \<open>The same for Genode: the buffer has exactly the size of the memory, or an exception is raised.\<close>

lemma genode_bounds_cases:
  assumes "index_ok t" and "0 \<le> len"
  obtains (raised) "genode_bounds t len = Inl Constraint_Error"
      "ix_last t < ix_first t + len - 1 \<or> len = 0 \<and> ix_first t = ix_base_first t"
    | (bounds) a b where "genode_bounds t len = Inr (a, b)" "ix_first t \<le> a" "b \<le> ix_last t" "b - a + 1 = len"
proof -
  have "genode_bounds t len = (if ix_last t < ix_first t + len - 1 \<or> ix_first t + len - 1 < ix_base_first t
      then Inl Constraint_Error else Inr (ix_first t, ix_first t + len - 1))"
    using assms by (auto simp: genode_bounds_def in_base_def thenE_def index_ok_def)
  moreover have "ix_first t + len - 1 < ix_base_first t \<Longrightarrow> len = 0 \<and> ix_first t = ix_base_first t"
    using assms by (auto simp: index_ok_def)
  ultimately show thesis using that by (auto split: if_splits)
qed

end
