(* ===== verification/Linux_Buffers.thy ===== *)
theory Linux_Buffers
  imports Linux_Dispatcher Gneiss_Buffers
begin

text \<open>
  Shared memory on Linux: \<open>Modify\<close> of the Memory client and server and \<open>Update\<close> of the Rom client, which overlay a buffer
  on the mapping and pass it to the component.
\<close>

subsection \<open>Modify and Update\<close>

text \<open>\<open>f\<close> is the procedure \<open>Generic_Modify\<close> or \<open>Read\<close> of the component.\<close>

definition LMemory_Client_Modify ::
  "'w linux_env \<Rightarrow> 'w address_space \<Rightarrow> index_type \<Rightarrow> (int \<Rightarrow> bytes \<Rightarrow> ('w, bytes) state) \<Rightarrow> lmem_client \<Rightarrow> ('w, ada_error + unit) state" where
  "LMemory_Client_Modify E M t f s = do {
     len \<leftarrow> gneiss_fstat_size (le_posix E) (lmc_Fd s);
     case linux_bounds t len of
       Inl e \<Rightarrow> ret (Inl e)
     | Inr r \<Rightarrow> do { modify_at M (lmc_Map s) r f; ret (Inr ()) }
   }"

definition LMemory_Server_Modify ::
  "'w linux_env \<Rightarrow> 'w address_space \<Rightarrow> index_type \<Rightarrow> (int \<Rightarrow> bytes \<Rightarrow> ('w, bytes) state) \<Rightarrow> lmem_server \<Rightarrow> ('w, ada_error + unit) state" where
  "LMemory_Server_Modify E M t f s = do {
     len \<leftarrow> gneiss_fstat_size (le_posix E) (lms_Fd s);
     case linux_bounds t len of
       Inl e \<Rightarrow> ret (Inl e)
     | Inr r \<Rightarrow> do { modify_at M (lms_Map s) r f; ret (Inr ()) }
   }"

definition LRom_Client_Update ::
  "'w linux_env \<Rightarrow> 'w address_space \<Rightarrow> index_type \<Rightarrow> (int \<Rightarrow> bytes \<Rightarrow> ('w, unit) state) \<Rightarrow> lrom_client \<Rightarrow> ('w, ada_error + unit) state" where
  "LRom_Client_Update E M t f s = do {
     len \<leftarrow> gneiss_fstat_size (le_posix E) (lrc_Fd s);
     case linux_bounds t len of
       Inl e \<Rightarrow> ret (Inl e)
     | Inr r \<Rightarrow> do { read_at M (lrc_Map s) r f; ret (Inr ()) }
   }"

subsection \<open>The buffer is inside the mapping\<close>

text \<open>When the computation of the bounds raises an exception.\<close>

definition bounds_raise :: "index_type \<Rightarrow> int \<Rightarrow> bool" where
  "bounds_raise t len \<longleftrightarrow> (len < 1 \<and> ix_first t = ix_last t) \<or> (1 \<le> len \<and> ix_base_last t \<le> ix_last t - ix_first t)"

text \<open>The kernel calls that are used here do not write to the memory of the process.\<close>

locale linux_memory = memory_laws M content
  for M :: "'w address_space" and content :: "'w \<Rightarrow> addr \<Rightarrow> u8" +
  fixes E :: "'w linux_env"
  assumes fstat_content [keeps_intros]: "keeps content (k_fstat_size (le_posix E) d)"
    and warn_content [keeps_intros]: "keeps content (k_warn (le_posix E) t)"
begin

lemma fstat_size_content: "keeps content (gneiss_fstat_size (le_posix E) d)"
  unfolding gneiss_fstat_size_def by (intro keeps_intros)

lemma modify_inside:
  assumes "buffer_code f" and "index_ok t"
  shows "wp (gneiss_fstat_size (le_posix E) d) (\<lambda>len. wp (case linux_bounds t len of Inl e \<Rightarrow> ret (Inl e)
      | Inr r \<Rightarrow> do { modify_at M p r f; ret (Inr ()) })
    (\<lambda>r w'. (r = Inl Constraint_Error \<longleftrightarrow> bounds_raise t (result (gneiss_fstat_size (le_posix E) d) w)) \<and>
       (\<forall>q. q \<notin> area p (nat (result (gneiss_fstat_size (le_posix E) d) w)) \<longrightarrow> content w' q = content w q))) w"
proof -
  let ?len = "result (gneiss_fstat_size (le_posix E) d) w" and ?w = "final (gneiss_fstat_size (le_posix E) d) w"
  have c: "content ?w = content w" using keepsD [OF fstat_size_content] .
  from assms(2) have "wp (case linux_bounds t ?len of Inl e \<Rightarrow> ret (Inl e) | Inr r \<Rightarrow> do { modify_at M p r f; ret (Inr ()) })
    (\<lambda>r w'. (r = Inl Constraint_Error \<longleftrightarrow> bounds_raise t ?len) \<and> (\<forall>q. q \<notin> area p (nat ?len) \<longrightarrow> content w' q = content w q)) ?w"
  proof (cases rule: linux_bounds_cases [where len = ?len])
    case raised
    then show ?thesis using c by (simp add: wp_simps bounds_raise_def)
  next
    case (bounds a b)
    then have "area p (nat (b - a + 1)) \<subseteq> area p (nat ?len)" by (intro area_mono) simp
    then show ?thesis
      using bounds c by (auto simp: wp_simps bounds_raise_def intro!: wp_mono [OF modify_at_area [OF assms(1)]]) blast+
  qed
  then show ?thesis by (simp add: wp_run [of "gneiss_fstat_size (le_posix E) d"])
qed

end

subsection \<open>Memory of the reference kernel\<close>

definition sim_content :: "sim \<Rightarrow> addr \<Rightarrow> u8" where
  "sim_content w q = (case map_of (sim_mem w) q of None \<Rightarrow> 0 | Some b \<Rightarrow> b)"

definition sim_space :: "sim address_space" where
  "sim_space = \<lparr> as_load = (\<lambda>p n. State (\<lambda>w. (map (\<lambda>i. sim_content w (p + of_nat i)) [0..<n], w))),
     as_store = (\<lambda>p bs. State (\<lambda>w. ((), w\<lparr>sim_mem := zip (map (\<lambda>i. p + of_nat i) [0..<length bs]) bs @ sim_mem w\<rparr>))) \<rparr>"

lemma distinct_area: "n \<le> 2 ^ 64 \<Longrightarrow> distinct (map (\<lambda>i. (p :: addr) + of_nat i) [0..<n])"
  by (auto simp: distinct_map inj_on_def word_of_nat_eq_iff take_bit_nat_eq_self)

lemma map_of_area: "q \<notin> area p (length bs) \<Longrightarrow> map_of (zip (map (\<lambda>i. p + of_nat i) [0..<length bs]) bs) q = None"
  by (auto simp: map_of_eq_None_iff area_def dest!: set_zip_leftD)

interpretation sim_memory: linux_memory sim_space sim_content sim_env
proof unfold_locales
  fix p :: addr and bs :: bytes and w
  have "map_of (zip (map (\<lambda>i. p + of_nat i) [0..<length bs]) bs) (p + of_nat i) = Some (bs ! i)"
    if "i < length bs" "length bs \<le> 2 ^ 64" for i
    using map_of_zip_nth [OF _ distinct_area [OF that(2), of p], of bs i] that by simp
  then show "wp (as_store sim_space p bs) (\<lambda>_ w'. (\<forall>q. q \<notin> area p (length bs) \<longrightarrow> sim_content w' q = sim_content w q) \<and>
      (length bs \<le> 2 ^ 64 \<longrightarrow> (\<forall>i < length bs. sim_content w' (p + of_nat i) = bs ! i))) w"
    by (auto simp: sim_space_def wp_State sim_content_def map_of_area map_add_def split: option.splits)
qed (auto simp: sim_space_def wp_State sim_posix_def sim_content_def fun_eq_iff keeps_def sim_try_def split: list.splits)

subsection \<open>Properties\<close>

text \<open>
  C20. \<open>Modify\<close> never touches memory outside the mapped file. For the Memory client and server: whatever
  the component writes into the buffer it gets, bytes of the process outside of the
  mapping, whose length is the size of the file, stay as they are, for any index type and any size; and
  an exception is raised exactly if the index type is too small for an empty buffer or
  if its base type cannot hold the length of the index range.
\<close>

theorem linux_modify_inside:
  assumes "linux_memory M content E" and "memory_laws.buffer_code content f" and "index_ok t"
  shows "wp (LMemory_Client_Modify E M t f c) (\<lambda>r w'.
      (r = Inl Constraint_Error \<longleftrightarrow> bounds_raise t (result (gneiss_fstat_size (le_posix E) (lmc_Fd c)) w)) \<and>
      (\<forall>q. q \<notin> area (lmc_Map c) (nat (result (gneiss_fstat_size (le_posix E) (lmc_Fd c)) w)) \<longrightarrow> content w' q = content w q)) w \<and>
    wp (LMemory_Server_Modify E M t f s) (\<lambda>r w'.
      (r = Inl Constraint_Error \<longleftrightarrow> bounds_raise t (result (gneiss_fstat_size (le_posix E) (lms_Fd s)) w)) \<and>
      (\<forall>q. q \<notin> area (lms_Map s) (nat (result (gneiss_fstat_size (le_posix E) (lms_Fd s)) w)) \<longrightarrow> content w' q = content w q)) w"
  unfolding LMemory_Client_Modify_def LMemory_Server_Modify_def wp_bind
  using linux_memory.modify_inside [OF assms] by blast

text \<open>A component that overwrites its buffer, with a file of four bytes at address \<open>0x1000\<close>.\<close>

definition fill_code :: "int \<Rightarrow> bytes \<Rightarrow> (sim, bytes) state" where
  "fill_code a bs = ret (replicate (length bs) 9)"

definition positive_index :: index_type where
  "positive_index = \<lparr> ix_first = 1, ix_last = 2 ^ 31 - 1, ix_base_first = - (2 ^ 31), ix_base_last = 2 ^ 31 - 1 \<rparr>"

definition mapped_client :: lmem_client where
  "mapped_client = \<lparr> lmc_Index = Some 1, lmc_Fd = 3, lmc_Sigfd = 4, lmc_Map = 0x1000 \<rparr>"

definition mapped_world :: sim where
  "mapped_world = sim_init\<lparr>sim_sizes := [(3, 4)]\<rparr>"

theorem linux_modify_inside_witness:
  "map (sim_content (final (LMemory_Client_Modify sim_env sim_space positive_index fill_code mapped_client) mapped_world))
     [0xFFF, 0x1000, 0x1003, 0x1004] = [0, 9, 9, 0] \<and>
   wp (LMemory_Client_Modify sim_env sim_space positive_index fill_code mapped_client) (\<lambda>r w'.
     \<forall>q. q \<notin> area 0x1000 4 \<longrightarrow> sim_content w' q = sim_content mapped_world q) mapped_world"
proof
  show "map (sim_content (final (LMemory_Client_Modify sim_env sim_space positive_index fill_code mapped_client) mapped_world))
     [0xFFF, 0x1000, 0x1003, 0x1004] = [0, 9, 9, 0]"
    by code_simp
  have f: "memory_laws.buffer_code sim_content fill_code"
    by (simp add: sim_memory.buffer_code_def fill_code_def wp_simps)
  have t: "index_ok positive_index" by code_simp
  have n: "result (gneiss_fstat_size (le_posix sim_env) (lmc_Fd mapped_client)) mapped_world = 4" "lmc_Map mapped_client = 0x1000"
    by code_simp+
  show "wp (LMemory_Client_Modify sim_env sim_space positive_index fill_code mapped_client) (\<lambda>r w'.
     \<forall>q. q \<notin> area 0x1000 4 \<longrightarrow> sim_content w' q = sim_content mapped_world q) mapped_world"
    using conjunct1 [OF linux_modify_inside [OF sim_memory.linux_memory_axioms f t, of mapped_client mapped_world]] n
    by (auto elim!: wp_mono)
qed

text \<open>
  A finding: with an index type like \<open>Natural\<close> that starts at 0 and ends at the end of its base range, \<open>Get_Last\<close> raises for
  every file that is not empty, as it computes \<open>Buffer_Index'Last - Buffer_Index'First + 1\<close> in the base type.
\<close>

theorem Get_Last_natural_raises:
  "1 \<le> len \<Longrightarrow> Get_Last \<lparr> ix_first = 0, ix_last = 2 ^ 31 - 1, ix_base_first = - (2 ^ 31), ix_base_last = 2 ^ 31 - 1 \<rparr> len =
     Inl Constraint_Error"
  by (simp add: Get_Last_def in_base_def thenE_def)

end
