(* ===== verification/Linux_Broker_Lookup.thy ===== *)
theory Linux_Broker_Lookup
  imports Linux_Protocol
begin

text \<open>
  The state of the Linux broker (\<open>gneiss-broker.ads\<close>) and the look-up of services, components
  and resources in its configuration (\<open>gneiss-broker-lookup.adb\<close>). The configuration is an XML
  document of the SXML library, a separate repository; the queries the broker makes on it are
  the parameter \<open>X\<close>, and a node of the document has the type \<open>'n\<close>.
\<close>

subsection \<open>Configuration and state\<close>

text \<open>
  The result of \<open>SXML.Query.Attribute\<close>: \<open>Result_OK\<close> with \<open>Buffer (1 .. Last)\<close>, or an error; what
  \<open>Last\<close> and \<open>Buffer\<close> hold after an error is \<open>sx_failed\<close>.
\<close>

datatype attribute_result = Result_OK string | Result_Not_Found | Result_Error

record 'n sxml =
  sx_invalid :: 'n
  sx_initial :: 'n
  sx_init :: 'n
  sx_ok :: "'n \<Rightarrow> bool"
  sx_is_open :: "'n \<Rightarrow> bool"
  sx_child :: "'n \<Rightarrow> 'n"
  sx_sibling :: "'n \<Rightarrow> 'n"
  sx_find_sibling :: "'n \<Rightarrow> string \<Rightarrow> string \<Rightarrow> string \<Rightarrow> 'n"
  sx_find_sibling_by_name :: "'n \<Rightarrow> string \<Rightarrow> 'n"
  sx_path :: "'n \<Rightarrow> string \<Rightarrow> 'n"
  sx_attribute :: "'n \<Rightarrow> string \<Rightarrow> nat \<Rightarrow> attribute_result"
  sx_failed :: "'n \<Rightarrow> string \<Rightarrow> nat \<Rightarrow> nat \<times> string"

record service_entry =
  se_Broker :: fd
  se_Disp :: fd

record 'n component_definition =
  cd_Fd :: fd
  cd_Node :: 'n
  cd_Pid :: int
  cd_Serv :: "kind_type \<Rightarrow> service_entry"

record 'n resource_definition =
  rd_Fd :: fd
  rd_Node :: 'n

record 'n broker_state =
  br_Epoll_Fd :: fd
  br_Components :: "'n component_definition list"
  br_Resources :: "'n resource_definition list"

text \<open>Ada indexes the components from 1.\<close>

definition component_at :: "'n broker_state \<Rightarrow> nat \<Rightarrow> 'n component_definition" where
  "component_at s i = br_Components s ! (i - 1)"

definition set_component_at :: "nat \<Rightarrow> 'n component_definition \<Rightarrow> 'n broker_state \<Rightarrow> 'n broker_state" where
  "set_component_at i c s = s\<lparr>br_Components := (br_Components s)[i - 1 := c]\<rparr>"

definition in_range :: "'n broker_state \<Rightarrow> int \<Rightarrow> bool" where
  "in_range s i \<longleftrightarrow> 1 \<le> i \<and> i \<le> int (length (br_Components s))"

text \<open>The two ghost predicates \<open>Is_Valid\<close> of the specification.\<close>

definition Is_Valid_Components :: "'n sxml \<Rightarrow> 'n component_definition list \<Rightarrow> bool" where
  "Is_Valid_Components X cs \<longleftrightarrow> (\<forall>c \<in> set cs. Valid (cd_Fd c) \<longrightarrow> sx_ok X (cd_Node c) \<and> sx_is_open X (cd_Node c))"

definition Is_Valid_Resources :: "'n sxml \<Rightarrow> 'n resource_definition list \<Rightarrow> bool" where
  "Is_Valid_Resources X rs \<longleftrightarrow> (\<forall>r \<in> set rs. rd_Node r \<notin> {sx_invalid X, sx_initial X} \<longrightarrow>
     sx_ok X (rd_Node r) \<and> sx_is_open X (rd_Node r))"

subsection \<open>The operations\<close>

text \<open>\<open>Compare\<close>, for a second string that starts at index 1: both are equal and not empty.\<close>

definition Compare :: "string \<Rightarrow> string \<Rightarrow> bool" where
  "Compare unconstrained constrained \<longleftrightarrow> length constrained > 0 \<and> 1 \<le> length unconstrained \<and>
     length unconstrained - 1 = length constrained - 1 \<and> unconstrained = constrained"

definition attribute_is :: "'n sxml \<Rightarrow> 'n \<Rightarrow> string \<Rightarrow> string \<Rightarrow> bool" where
  "attribute_is X n attr value = (case sx_attribute X n attr 255 of Result_OK v \<Rightarrow> Compare v value | _ \<Rightarrow> False)"

text \<open>The loop of \<open>Match_Service\<close>; \<open>None\<close> is the result of a loop that does not end.\<close>

partial_function (option) Match_loop :: "'n sxml \<Rightarrow> string \<Rightarrow> string \<Rightarrow> 'n \<Rightarrow> 'n \<Rightarrow> 'n option" where
  "Match_loop X kind label default_state query_state =
     (if \<not> sx_ok X query_state then Some default_state
      else let q = sx_find_sibling X query_state ''service'' ''name'' kind
        in if \<not> sx_ok X q then Some default_state
           else if attribute_is X q ''label'' label then Some q
           else Match_loop X kind label
             (if sx_attribute X q ''label'' 255 = Result_Not_Found then q else default_state) (sx_sibling X q))"

declare Match_loop.simps [code]

definition Match_Service :: "'n sxml \<Rightarrow> 'n \<Rightarrow> string \<Rightarrow> string \<Rightarrow> 'n option" where
  "Match_Service X node kind label = Match_loop X kind label (sx_invalid X) (sx_child X node)"

text \<open>\<open>Find_Component_By_Name\<close>: the index, if \<open>Valid\<close>.\<close>

fun find_component_loop :: "'n sxml \<Rightarrow> string \<Rightarrow> nat \<Rightarrow> 'n component_definition list \<Rightarrow> nat option" where
  "find_component_loop X name i [] = None"
| "find_component_loop X name i (c # cs) =
     (if cd_Fd c > -1 \<and> attribute_is X (cd_Node c) ''name'' name then Some i
      else find_component_loop X name (i + 1) cs)"

definition Find_Component_By_Name :: "'n sxml \<Rightarrow> 'n broker_state \<Rightarrow> string \<Rightarrow> nat option" where
  "Find_Component_By_Name X s name = (if name = [] then None else find_component_loop X name 1 (br_Components s))"

fun find_resource_loop :: "'n sxml \<Rightarrow> string \<Rightarrow> nat \<Rightarrow> 'n resource_definition list \<Rightarrow> nat option" where
  "find_resource_loop X name i [] = None"
| "find_resource_loop X name i (r # rs) =
     (if rd_Node r \<notin> {sx_invalid X, sx_initial X} \<and> attribute_is X (rd_Node r) ''name'' name then Some i
      else find_resource_loop X name (i + 1) rs)"

definition Find_Resource_By_Name :: "'n sxml \<Rightarrow> 'n broker_state \<Rightarrow> string \<Rightarrow> nat option" where
  "Find_Resource_By_Name X s name = (if name = [] then None else find_resource_loop X name 1 (br_Resources s))"

text \<open>\<open>Lookup_Request\<close>: the destination, if \<open>Found\<close>; \<open>-1\<close> is the broker itself.\<close>

definition Lookup_Request :: "'n sxml \<Rightarrow> 'n broker_state \<Rightarrow> 'n \<Rightarrow> int option" where
  "Lookup_Request X s service = (case sx_attribute X service ''server'' 255 of
       Result_OK name \<Rightarrow> map_option int (Find_Component_By_Name X s name)
     | _ \<Rightarrow> Some (-1))"

text \<open>The location of a file resource, in a buffer of \<open>n\<close> characters.\<close>

definition Find_Resource_Location :: "'n sxml \<Rightarrow> 'n broker_state \<Rightarrow> 'n \<Rightarrow> nat \<Rightarrow> string option" where
  "Find_Resource_Location X s serv n = (case sx_attribute X serv ''resource'' n of
       Result_OK name \<Rightarrow> (case find_resource_loop X name 1 (br_Resources s) of
           None \<Rightarrow> None
         | Some i \<Rightarrow> let node = rd_Node (br_Resources s ! (i - 1)) in
             if attribute_is X node ''type'' ''File''
             then (case sx_attribute X node ''location'' n of Result_OK loc \<Rightarrow> Some loc | _ \<Rightarrow> None)
             else None)
     | _ \<Rightarrow> None)"

subsection \<open>Documents as trees\<close>

text \<open>
  What the broker relies on of SXML: \<open>chain n\<close> lists a node and its following siblings;
  \<open>Sibling\<close> steps along it, \<open>Find_Sibling\<close> skips to the first node of the chain that
  \<open>matches\<close>, and a query that finds nothing has no \<open>Result_OK\<close>. Chains are finite.
\<close>

lemma filter_dropWhile_Cons:
  "dropWhile (\<lambda>m. \<not> P m) xs = y # ys \<Longrightarrow> filter P xs = y # filter P ys"
  by (induction xs) (auto split: if_splits)

locale sxml_siblings =
  fixes X :: "'n sxml"
    and chain :: "'n \<Rightarrow> 'n list"
    and matches :: "'n \<Rightarrow> string \<Rightarrow> string \<Rightarrow> string \<Rightarrow> bool"
  assumes chain_end: "\<not> sx_ok X n \<Longrightarrow> chain n = []"
    and chain_step: "sx_ok X n \<Longrightarrow> chain n = n # chain (sx_sibling X n)"
    and find_chain: "chain (sx_find_sibling X n nm at v) = dropWhile (\<lambda>m. \<not> matches m nm at v) (chain n)"
begin

text \<open>The services of a kind that the configuration of a component lists, in order.\<close>

definition services :: "'n \<Rightarrow> string \<Rightarrow> 'n list" where
  "services q kind = filter (\<lambda>m. matches m ''service'' ''name'' kind) (chain q)"

lemma chain_Nil: "chain n = [] \<longleftrightarrow> \<not> sx_ok X n"
  by (cases "sx_ok X n") (simp_all add: chain_end chain_step)

text \<open>
  The policy of \<open>Match_Service\<close>: the first service with exactly the label, otherwise the last
  one without a label, otherwise \<open>dflt\<close>.
\<close>

definition select :: "string \<Rightarrow> 'n \<Rightarrow> 'n list \<Rightarrow> 'n" where
  "select label dflt ms = (case find (\<lambda>m. attribute_is X m ''label'' label) ms of
       Some m \<Rightarrow> m
     | None \<Rightarrow> last (dflt # filter (\<lambda>m. sx_attribute X m ''label'' 255 = Result_Not_Found) ms))"

lemma select_Cons:
  "select label dflt (m # ms) = (if attribute_is X m ''label'' label then m
     else select label (if sx_attribute X m ''label'' 255 = Result_Not_Found then m else dflt) ms)"
  by (simp add: select_def split: option.splits)

lemma Match_loop_select: "Match_loop X kind label dflt q = Some (select label dflt (services q kind))"
proof (induction "length (chain q)" arbitrary: dflt q rule: less_induct)
  case less
  let ?P = "\<lambda>m. matches m ''service'' ''name'' kind"
  let ?q = "sx_find_sibling X q ''service'' ''name'' kind"
  note unfold = Match_loop.simps [of X kind label dflt q]
  show ?case
  proof (cases "sx_ok X q")
    case False
    then show ?thesis by (simp add: unfold services_def chain_end select_def)
  next
    case True
    show ?thesis
    proof (cases "sx_ok X ?q")
      case False
      then have "dropWhile (\<lambda>m. \<not> ?P m) (chain q) = []"
        unfolding find_chain [symmetric] by (rule chain_end)
      then have "filter ?P (chain q) = []"
        by (simp add: filter_empty_conv dropWhile_eq_Nil_conv)
      with True False show ?thesis by (simp add: unfold services_def select_def)
    next
      case q: True
      then have d: "dropWhile (\<lambda>m. \<not> ?P m) (chain q) = ?q # chain (sx_sibling X ?q)"
        using find_chain [of q "''service''" "''name''" kind] chain_step by simp
      then have s: "services q kind = ?q # services (sx_sibling X ?q) kind"
        unfolding services_def by (rule filter_dropWhile_Cons)
      have "length (chain (sx_sibling X ?q)) < length (chain q)"
        using length_dropWhile_le [of "\<lambda>m. \<not> ?P m" "chain q"] d by simp
      from less [OF this] True q s show ?thesis
        by (simp add: unfold Let_def select_Cons)
    qed
  qed
qed

end

text \<open>An attribute is only returned if it fits the buffer; a node found by its element name is an open element.\<close>

locale sxml_document = sxml_siblings X chain matches
  for X :: "'n sxml" and chain :: "'n \<Rightarrow> 'n list" and matches :: "'n \<Rightarrow> string \<Rightarrow> string \<Rightarrow> string \<Rightarrow> bool" +
  assumes attribute_fits: "sx_attribute X n attr len = Result_OK v \<Longrightarrow> length v \<le> len"
    and named_open: "sx_ok X (sx_find_sibling_by_name X n nm) \<Longrightarrow> sx_is_open X (sx_find_sibling_by_name X n nm)"
begin

lemma Match_Service_returns: "\<exists>serv. Match_Service X node kind label = Some serv"
  by (simp add: Match_Service_def Match_loop_select)

end

subsection \<open>Components by name\<close>

lemma find_component_loop_Some:
  "find_component_loop X name i cs = Some j \<Longrightarrow>
   i \<le> j \<and> j - i < length cs \<and> Valid (cd_Fd (cs ! (j - i))) \<and> attribute_is X (cd_Node (cs ! (j - i))) ''name'' name"
proof (induction cs arbitrary: i)
  case (Cons c cs)
  show ?case
  proof (cases "cd_Fd c > -1 \<and> attribute_is X (cd_Node c) ''name'' name")
    case False
    with Cons.prems have "find_component_loop X name (i + 1) cs = Some j"
      by (simp split: if_splits)
    note IH = Cons.IH [OF this]
    then have "j - i = Suc (j - Suc i)" by auto
    with IH show ?thesis by auto
  qed (use Cons.prems in auto)
qed simp

lemma find_component_loop_None:
  "find_component_loop X name i cs = None \<Longrightarrow> c \<in> set cs \<Longrightarrow> Valid (cd_Fd c) \<Longrightarrow> \<not> attribute_is X (cd_Node c) ''name'' name"
  by (induction cs arbitrary: i) (auto split: if_splits)

lemma Find_Component_By_Name_Some:
  assumes "Find_Component_By_Name X s name = Some i"
  shows "in_range s (int i)" "Valid (cd_Fd (component_at s i))" "attribute_is X (cd_Node (component_at s i)) ''name'' name"
  using assms find_component_loop_Some [of X name 1 "br_Components s" i]
  by (auto simp: Find_Component_By_Name_def in_range_def component_at_def split: if_splits)

lemma find_component_loop_find:
  "name \<noteq> [] \<Longrightarrow> find_component_loop X name i cs = map_option (\<lambda>j. j + i) (find (\<lambda>j. Valid (cd_Fd (cs ! j)) \<and>
     sx_attribute X (cd_Node (cs ! j)) ''name'' 255 = Result_OK name) [0..<length cs])"
proof (induction cs arbitrary: i)
  case (Cons c cs)
  have "[0..<length (c # cs)] = 0 # map Suc [0..<length cs]"
    by (simp add: upt_conv_Cons map_Suc_upt del: upt_Suc)
  moreover have "find P (map Suc xs) = map_option Suc (find (P \<circ> Suc) xs)" for P xs
    by (induction xs) auto
  moreover have "attribute_is X n ''name'' name \<longleftrightarrow> sx_attribute X n ''name'' 255 = Result_OK name" for n
    using Cons.prems by (auto simp: attribute_is_def Compare_def Suc_le_eq split: attribute_result.splits)
  ultimately show ?case
    using Cons.IH [OF Cons.prems, of "i + 1"] by (auto simp: comp_def option.map_comp)
qed simp

text \<open>The component with a given name is the first started one that the configuration gives this name.\<close>

lemma Find_Component_By_Name_find:
  "Find_Component_By_Name X s name = (if name = [] then None else
     find (\<lambda>i. Valid (cd_Fd (component_at s i)) \<and> sx_attribute X (cd_Node (component_at s i)) ''name'' 255 = Result_OK name)
       [1..<length (br_Components s) + 1])"
proof -
  have "find P (map Suc xs) = map_option Suc (find (P \<circ> Suc) xs)" for P xs
    by (induction xs) auto
  then have "find P [1..<n + 1] = map_option Suc (find (P \<circ> Suc) [0..<n])" for P n
    by (metis One_nat_def Suc_eq_plus1 map_Suc_upt)
  then show ?thesis
    by (simp add: Find_Component_By_Name_def find_component_loop_find component_at_def comp_def)
qed

lemma Lookup_Request_server:
  assumes "Lookup_Request X s serv = Some dest" and "in_range s dest"
  shows "\<exists>server. sx_attribute X serv ''server'' 255 = Result_OK server \<and>
    Valid (cd_Fd (component_at s (nat dest))) \<and> attribute_is X (cd_Node (component_at s (nat dest))) ''name'' server"
  using assms Find_Component_By_Name_Some [of X s]
  by (auto simp: Lookup_Request_def in_range_def split: attribute_result.splits)

lemma component_at_set [simp]:
  "in_range s (int i) \<Longrightarrow> component_at (set_component_at i c s) j =
     (if j - 1 = i - 1 then c else component_at s j)"
  by (auto simp: component_at_def set_component_at_def in_range_def nth_list_update)

lemma set_component_at_simps [simp]:
  "br_Epoll_Fd (set_component_at i c s) = br_Epoll_Fd s" "br_Resources (set_component_at i c s) = br_Resources s"
  "length (br_Components (set_component_at i c s)) = length (br_Components s)"
  "in_range (set_component_at i c s) j = in_range s j"
  by (simp_all add: set_component_at_def in_range_def)

lemma set_component_at_set: "set_component_at i c (set_component_at i c' s) = set_component_at i c s"
  by (simp add: set_component_at_def)

lemma component_at_set_same: "i - 1 < length (br_Components s) \<Longrightarrow> component_at (set_component_at i c s) i = c"
  by (simp add: component_at_def set_component_at_def)

subsection \<open>A reference document\<close>

text \<open>
  An executable document: a node is the list of an element and its following siblings; the
  empty list is every state without \<open>Result_OK\<close>. Attributes that do not fit the buffer give
  an error.
\<close>

datatype xml = Element string "(string \<times> string) list" "xml list"

fun xml_name :: "xml \<Rightarrow> string" where
  "xml_name (Element n _ _) = n"

fun xml_attributes :: "xml \<Rightarrow> (string \<times> string) list" where
  "xml_attributes (Element _ a _) = a"

fun xml_children :: "xml \<Rightarrow> xml list" where
  "xml_children (Element _ _ c) = c"

definition xml_matches :: "xml list \<Rightarrow> string \<Rightarrow> string \<Rightarrow> string \<Rightarrow> bool" where
  "xml_matches n nm a v \<longleftrightarrow> n \<noteq> [] \<and> xml_name (hd n) = nm \<and> map_of (xml_attributes (hd n)) a = Some v"

fun xml_chain :: "xml list \<Rightarrow> xml list list" where
  "xml_chain [] = []"
| "xml_chain (x # xs) = (x # xs) # xml_chain xs"

fun xml_find :: "(xml list \<Rightarrow> bool) \<Rightarrow> xml list \<Rightarrow> xml list" where
  "xml_find P [] = []"
| "xml_find P (x # xs) = (if P (x # xs) then x # xs else xml_find P xs)"

definition xml_sxml :: "xml list \<Rightarrow> xml list sxml" where
  "xml_sxml doc = \<lparr> sx_invalid = [], sx_initial = [], sx_init = doc, sx_ok = (\<lambda>n. n \<noteq> []), sx_is_open = (\<lambda>n. n \<noteq> []),
     sx_child = (\<lambda>n. case n of [] \<Rightarrow> [] | x # _ \<Rightarrow> xml_children x), sx_sibling = tl,
     sx_find_sibling = (\<lambda>n nm a v. xml_find (\<lambda>m. xml_matches m nm a v) n),
     sx_find_sibling_by_name = (\<lambda>n nm. xml_find (\<lambda>m. xml_name (hd m) = nm) n),
     sx_path = (\<lambda>n p. case n of [] \<Rightarrow> [] | x # _ \<Rightarrow>
        xml_find (\<lambda>m. p = ''/'' @ xml_name x @ ''/'' @ xml_name (hd m)) (xml_children x)),
     sx_attribute = (\<lambda>n a len. case n of [] \<Rightarrow> Result_Error | x # _ \<Rightarrow> case map_of (xml_attributes x) a of
        None \<Rightarrow> Result_Not_Found | Some v \<Rightarrow> if length v \<le> len then Result_OK v else Result_Error),
     sx_failed = (\<lambda>n a len. (0, [])) \<rparr>"

lemma xml_chain_find: "xml_chain (xml_find P n) = dropWhile (\<lambda>m. \<not> P m) (xml_chain n)"
  by (induction n) auto

interpretation xml: sxml_siblings "xml_sxml doc" xml_chain xml_matches for doc
proof unfold_locales
  fix n :: "xml list"
  show "sx_ok (xml_sxml doc) n \<Longrightarrow> xml_chain n = n # xml_chain (sx_sibling (xml_sxml doc) n)"
    by (cases n) (simp_all add: xml_sxml_def)
qed (simp_all add: xml_sxml_def xml_chain_find)

interpretation xml: sxml_document "xml_sxml doc" xml_chain xml_matches for doc
  by unfold_locales (auto simp: xml_sxml_def split: list.splits option.splits if_splits)

text \<open>
  C15. \<open>Match_Service\<close> returns for every component and request, and selects the service by
  the documented policy: among the services of the requested kind that the configuration
  of the component lists, the first whose label is exactly the requested one; if there is
  none, the last one without a label attribute; if there is none either, the invalid state.
\<close>

theorem Match_Service_policy:
  assumes "sxml_siblings X chain matches"
  shows "Match_Service X node kind label = Some (
    let ms = filter (\<lambda>m. matches m ''service'' ''name'' kind) (chain (sx_child X node)) in
    case find (\<lambda>m. case sx_attribute X m ''label'' 255 of Result_OK v \<Rightarrow> v = label \<and> v \<noteq> [] | _ \<Rightarrow> False) ms of
      Some m \<Rightarrow> m
    | None \<Rightarrow> last (sx_invalid X # filter (\<lambda>m. sx_attribute X m ''label'' 255 = Result_Not_Found) ms))"
proof -
  have "attribute_is X m ''label'' label =
      (case sx_attribute X m ''label'' 255 of Result_OK v \<Rightarrow> v = label \<and> v \<noteq> [] | _ \<Rightarrow> False)" for m
    by (auto simp: attribute_is_def Compare_def Suc_le_eq split: attribute_result.splits)
  then show ?thesis
    unfolding Match_Service_def sxml_siblings.Match_loop_select [OF assms] sxml_siblings.select_def [OF assms]
      sxml_siblings.services_def [OF assms] Let_def by simp
qed

definition sample_component :: xml where
  "sample_component = Element ''component'' [(''name'', ''client'')]
     [Element ''service'' [(''name'', ''Log''), (''server'', ''any'')] [],
      Element ''service'' [(''name'', ''Log''), (''label'', ''x''), (''server'', ''srv'')] [],
      Element ''service'' [(''name'', ''Timer'')] []]"

theorem Match_Service_policy_witness:
  "map_option (map xml_attributes) (Match_Service (xml_sxml []) [sample_component] ''Log'' ''x'') =
     Some [[(''name'', ''Log''), (''label'', ''x''), (''server'', ''srv'')], [(''name'', ''Timer'')]] \<and>
   map_option (length) (Match_Service (xml_sxml []) [sample_component] ''Log'' ''y'') = Some 3"
  unfolding Match_Service_policy [OF xml.sxml_siblings_axioms]
  by (simp add: sample_component_def xml_sxml_def xml_matches_def)

end
