(* ===== verification/Linux_Broker.thy ===== *)
theory Linux_Broker
  imports Linux_Broker_Lookup Linux_Main
begin

text \<open>
  The Linux broker at work: \<open>gneiss-broker-message.adb\<close>, which answers the messages of
  components, and the event loop and start-up of \<open>gneiss-broker-main.adb\<close> and
  \<open>gneiss-broker-startup.adb\<close>. Operations take the broker state and return the new one; the
  result \<open>None\<close> is a call that does not return because the configuration query does not end.
\<close>

subsection \<open>Messages\<close>

definition Image :: "kind_type \<Rightarrow> string" where
  "Image k = (case k of Message \<Rightarrow> ''Message'' | Log \<Rightarrow> ''Log'' | Memory \<Rightarrow> ''Memory'' | Rom \<Rightarrow> ''Rom'' | Timer \<Rightarrow> ''Timer'')"

definition Send_Request ::
  "'w linux_env \<Rightarrow> fd \<Rightarrow> kind_type \<Rightarrow> string \<Rightarrow> string \<Rightarrow> fd list \<Rightarrow> ('w, unit) state" where
  "Send_Request E dest kind name label ds = Packet_Send E dest Request kind (to_label name) (to_label label) ds"

definition Send_Confirm :: "'w linux_env \<Rightarrow> fd \<Rightarrow> kind_type \<Rightarrow> string \<Rightarrow> fd list \<Rightarrow> ('w, unit) state" where
  "Send_Confirm E dest kind label ds = Packet_Send E dest Confirm kind empty_label (to_label label) ds"

definition Send_Reject :: "'w linux_env \<Rightarrow> fd \<Rightarrow> kind_type \<Rightarrow> string \<Rightarrow> ('w, unit) state" where
  "Send_Reject E dest kind label = Packet_Send E dest Reject kind empty_label (to_label label) []"

text \<open>A pair of sockets for the requests to a component's dispatcher, created at first use.\<close>

definition Setup_Service ::
  "'w linux_env \<Rightarrow> (kind_type \<Rightarrow> service_entry) \<Rightarrow> kind_type \<Rightarrow> fd \<Rightarrow> ('w, (kind_type \<Rightarrow> service_entry) \<times> bool) state" where
  "Setup_Service E serv kind efd =
     (if Valid (se_Broker (serv kind)) \<and> Valid (se_Disp (serv kind)) then ret (serv, True)
      else do {
        (b, d) \<leftarrow> gneiss_socketpair (le_posix E);
        if \<not> Valid b \<or> \<not> Valid d then do {
          Print_Error E ''Failed to create service fds'';
          b \<leftarrow> gneiss_close (le_posix E) b;
          d \<leftarrow> gneiss_close (le_posix E) d;
          ret (serv(kind := \<lparr>se_Broker = b, se_Disp = d\<rparr>), False)
        } else do {
          ok \<leftarrow> Epoll_Add (le_posix E) efd b b;
          if \<not> ok then do {
            Print_Error E ''Failed to register broker callback'';
            b \<leftarrow> gneiss_close (le_posix E) b;
            d \<leftarrow> gneiss_close (le_posix E) d;
            ret (serv(kind := \<lparr>se_Broker = b, se_Disp = d\<rparr>), False)
          } else ret (serv(kind := \<lparr>se_Broker = b, se_Disp = d\<rparr>), True)
        }
      })"

definition setup_component ::
  "'w linux_env \<Rightarrow> 'n broker_state \<Rightarrow> nat \<Rightarrow> kind_type \<Rightarrow> ('w, 'n broker_state \<times> bool) state" where
  "setup_component E s i kind = do {
     (serv, ok) \<leftarrow> Setup_Service E (cd_Serv (component_at s i)) kind (br_Epoll_Fd s);
     ret (set_component_at i ((component_at s i)\<lparr>cd_Serv := serv\<rparr>) s, ok)
   }"

text \<open>The descriptors of a new session; the array of four starts with \<open>-1\<close>.\<close>

definition Process_Message_Request :: "'w linux_env \<Rightarrow> ('w, fd list \<times> bool) state" where
  "Process_Message_Request E = do {
     (fd1, fd2) \<leftarrow> gneiss_socketpair (le_posix E);
     if Valid fd1 \<and> Valid fd2 then ret ([fd1, fd2, -1, -1], True)
     else do {
       fd1 \<leftarrow> gneiss_close (le_posix E) fd1;
       fd2 \<leftarrow> gneiss_close (le_posix E) fd2;
       ret ([fd1, fd2, -1, -1], False)
     }
   }"

definition Process_Memory_Request :: "'w linux_env \<Rightarrow> fd list \<Rightarrow> ('w, fd list \<times> bool) state" where
  "Process_Memory_Request E ds_in =
     (if \<not> Valid (ds_in ! 0) then ret ([-1, -1, -1, -1], False)
      else do {
        r \<leftarrow> gneiss_memfd_seal (le_posix E) (ds_in ! 0);
        if r \<noteq> 1 then do {
          fd3 \<leftarrow> gneiss_close (le_posix E) (ds_in ! 0);
          ret ([-1, -1, fd3, -1], False)
        } else do {
          (fd1, fd2) \<leftarrow> gneiss_socketpair (le_posix E);
          if Valid fd1 \<and> Valid fd2 then ret ([fd1, fd2, ds_in ! 0, -1], True)
          else do {
            fd1 \<leftarrow> gneiss_close (le_posix E) fd1;
            fd2 \<leftarrow> gneiss_close (le_posix E) fd2;
            fd3 \<leftarrow> gneiss_close (le_posix E) (ds_in ! 0);
            ret ([fd1, fd2, fd3, -1], False)
          }
        }
      })"

text \<open>The path handed to C ends at the first NUL.\<close>

definition Process_Rom_Request ::
  "'w linux_env \<Rightarrow> 'n sxml \<Rightarrow> 'n broker_state \<Rightarrow> 'n \<Rightarrow> ('w, fd \<times> bool) state" where
  "Process_Rom_Request E X s serv = (case Find_Resource_Location X s serv 4096 of
       None \<Rightarrow> ret (-1, False)
     | Some loc \<Rightarrow> do {
         d \<leftarrow> gneiss_open (le_posix E) (takeWhile (\<lambda>c. c \<noteq> CHR 0x00) loc) 0;
         ret (d, Valid d)
       })"

definition Process_Timer_Request :: "'w linux_env \<Rightarrow> ('w, fd \<times> bool) state" where
  "Process_Timer_Request E = do {
     d \<leftarrow> gneiss_timerfd_create (le_posix E);
     ret (d, Valid d)
   }"

text \<open>
  The branches of \<open>Process_Request\<close> for a session with a server: reserve the descriptors,
  set up the dispatcher's sockets and forward the request, or undo and reject.
\<close>

definition forward_request ::
  "'w linux_env \<Rightarrow> 'n broker_state \<Rightarrow> nat \<Rightarrow> int \<Rightarrow> kind_type \<Rightarrow> string \<Rightarrow> string \<Rightarrow>
   ('w, fd list \<times> bool) state \<Rightarrow> nat \<Rightarrow> ('w, 'n broker_state) state" where
  "forward_request E s source dest kind name label reserve n =
     (if \<not> in_range s dest then do { Send_Reject E (cd_Fd (component_at s source)) kind label; ret s }
      else do {
        (ds, ok) \<leftarrow> reserve;
        if \<not> ok then do { Send_Reject E (cd_Fd (component_at s source)) kind label; ret s }
        else do {
          (s, ok) \<leftarrow> setup_component E s (nat dest) kind;
          if \<not> ok then do {
            traverse_list (gneiss_close (le_posix E)) ds;
            Send_Reject E (cd_Fd (component_at s source)) kind label;
            ret s
          } else do {
            Send_Request E (se_Broker (cd_Serv (component_at s (nat dest)) kind)) kind name label (take n ds);
            ret s
          }
        }
      })"

definition confirm_or_reject ::
  "'w linux_env \<Rightarrow> 'n broker_state \<Rightarrow> nat \<Rightarrow> kind_type \<Rightarrow> string \<Rightarrow> fd \<times> bool \<Rightarrow> ('w, 'n broker_state) state" where
  "confirm_or_reject E s source kind label r = do {
     (if snd r then Send_Confirm E (cd_Fd (component_at s source)) kind label [fst r]
      else Send_Reject E (cd_Fd (component_at s source)) kind label);
     ret s
   }"

definition Process_Kind ::
  "'w linux_env \<Rightarrow> 'n sxml \<Rightarrow> 'n broker_state \<Rightarrow> nat \<Rightarrow> kind_type \<Rightarrow> string \<Rightarrow> fd list \<Rightarrow> 'n \<Rightarrow> int \<Rightarrow> string \<Rightarrow>
   ('w, 'n broker_state) state" where
  "Process_Kind E X s source kind label ds serv dest name = (case kind of
       Message \<Rightarrow> forward_request E s source dest kind name label (Process_Message_Request E) 2
     | Log \<Rightarrow> forward_request E s source dest kind name label (Process_Message_Request E) 2
     | Rom \<Rightarrow>
         if in_range s dest then do { Print_Warning E ''Rom server currently not supported''; ret s }
         else do {
           r \<leftarrow> Process_Rom_Request E X s serv;
           confirm_or_reject E s source kind label r
         }
     | Memory \<Rightarrow>
         if length ds < 1 then do { Send_Reject E (cd_Fd (component_at s source)) kind label; ret s }
         else forward_request E s source dest kind name label (Process_Memory_Request E ds) 3
     | Timer \<Rightarrow> do {
         r \<leftarrow> Process_Timer_Request E;
         confirm_or_reject E s source kind label r
       })"

definition reject_request ::
  "'w linux_env \<Rightarrow> 'n broker_state \<Rightarrow> nat \<Rightarrow> kind_type \<Rightarrow> string \<Rightarrow> string \<Rightarrow> ('w, 'n broker_state option) state" where
  "reject_request E s source kind label why = do {
     Print_Error E why;
     Send_Reject E (cd_Fd (component_at s source)) kind label;
     ret (Some s)
   }"

definition Process_Request ::
  "'w linux_env \<Rightarrow> 'n sxml \<Rightarrow> 'n broker_state \<Rightarrow> nat \<Rightarrow> kind_type \<Rightarrow> string \<Rightarrow> fd list \<Rightarrow> ('w, 'n broker_state option) state" where
  "Process_Request E X s source kind label ds =
     (if cd_Fd (component_at s source) < 0 then do { Print_Warning E ''Cannot process invalid source''; ret (Some s) }
      else (case Match_Service X (cd_Node (component_at s source)) (Image kind) label of
          None \<Rightarrow> ret None
        | Some serv \<Rightarrow>
            if serv = sx_invalid X \<or> \<not> sx_is_open X serv then reject_request E s source kind label ''No service found''
            else (case Lookup_Request X s serv of
                None \<Rightarrow> reject_request E s source kind label ''No service provider found''
              | Some dest \<Rightarrow> (case sx_attribute X (cd_Node (component_at s source)) ''name'' 255 of
                    Result_OK name \<Rightarrow> do {
                      s \<leftarrow> Process_Kind E X s source kind label ds serv dest name;
                      ret (Some s)
                    }
                  | _ \<Rightarrow> reject_request E s source kind label ''Failed to get source name''))))"

definition Process_Confirm ::
  "'w linux_env \<Rightarrow> 'n sxml \<Rightarrow> 'n broker_state \<Rightarrow> kind_type \<Rightarrow> string \<Rightarrow> string \<Rightarrow> fd list \<Rightarrow> ('w, unit) state" where
  "Process_Confirm E X s kind name label ds = (case Find_Component_By_Name X s name of
       None \<Rightarrow> Print_Warning E ''Failed to process confirm''
     | Some dest \<Rightarrow>
         if kind \<in> {Message, Log, Memory} then
           if length ds > 0 \<and> ds ! 0 \<ge> 0 then Send_Confirm E (cd_Fd (component_at s dest)) kind label [ds ! 0]
           else do {
             Print_Warning E ''Invalid Fd, rejecting'';
             Send_Reject E (cd_Fd (component_at s dest)) kind label
           }
         else Print_Warning E ''Unexpected confirm'')"

definition Process_Reject ::
  "'w linux_env \<Rightarrow> 'n sxml \<Rightarrow> 'n broker_state \<Rightarrow> kind_type \<Rightarrow> string \<Rightarrow> string \<Rightarrow> ('w, unit) state" where
  "Process_Reject E X s kind name label = (case Find_Component_By_Name X s name of
       None \<Rightarrow> Print_Warning E ''Failed to process reject''
     | Some dest \<Rightarrow> Send_Reject E (cd_Fd (component_at s dest)) kind label)"

definition Process_Register :: "'w linux_env \<Rightarrow> 'n broker_state \<Rightarrow> nat \<Rightarrow> kind_type \<Rightarrow> ('w, 'n broker_state) state" where
  "Process_Register E s source kind = do {
     (s, ok) \<leftarrow> setup_component E s source kind;
     (if ok then Send_Confirm E (cd_Fd (component_at s source)) kind [] [se_Disp (cd_Serv (component_at s source) kind)]
      else Send_Reject E (cd_Fd (component_at s source)) kind []);
     ret s
   }"

definition Handle_Message ::
  "'w linux_env \<Rightarrow> 'n sxml \<Rightarrow> 'n broker_state \<Rightarrow> nat \<Rightarrow> action_type \<Rightarrow> kind_type \<Rightarrow> string \<Rightarrow> string \<Rightarrow> fd list \<Rightarrow>
   ('w, 'n broker_state option) state" where
  "Handle_Message E X s source action kind name label ds = (case action of
       Request \<Rightarrow>
         if length label \<ge> 256 then do { Print_Warning E ''Cannot process request''; ret (Some s) }
         else Process_Request E X s source kind label ds
     | Confirm \<Rightarrow>
         if length name + length label \<ge> 256 then do { Print_Warning E ''Cannot process confirm''; ret (Some s) }
         else do { Process_Confirm E X s kind name label ds; ret (Some s) }
     | Reject \<Rightarrow>
         if length name + length label \<ge> 256 then do { Print_Warning E ''Cannot process reject''; ret (Some s) }
         else do { Process_Reject E X s kind name label; ret (Some s) }
     | Register \<Rightarrow> do { s \<leftarrow> Process_Register E s source kind; ret (Some s) })"

definition Read_Message ::
  "'w linux_env \<Rightarrow> 'n sxml \<Rightarrow> 'n broker_state \<Rightarrow> nat \<Rightarrow> fd \<Rightarrow> ('w, 'n broker_state option) state" where
  "Read_Message E X s index filedesc = do {
     (msg, ds) \<leftarrow> Packet_Receive E filedesc 4 False;
     case msg of None \<Rightarrow> do {
         Print_Warning E ''Invalid message, dropping'';
         traverse_list (gneiss_close (le_posix E)) ds;
         ret (Some s)
       }
     | Some m \<Rightarrow> Handle_Message E X s index (bm_Action m) (bm_Kind m) (label_text (bm_Name m)) (label_text (bm_Label m)) ds
   }"

subsection \<open>Facts about the operations alone\<close>

text \<open>\<open>same_but_services s s'\<close>: the broker state changed in the service tables only.\<close>

definition same_but_services :: "'n broker_state \<Rightarrow> 'n broker_state \<Rightarrow> bool" where
  "same_but_services s s' \<longleftrightarrow> br_Epoll_Fd s' = br_Epoll_Fd s \<and> br_Resources s' = br_Resources s \<and>
     length (br_Components s') = length (br_Components s) \<and>
     (\<forall>i. cd_Fd (component_at s' i) = cd_Fd (component_at s i) \<and> cd_Node (component_at s' i) = cd_Node (component_at s i) \<and>
          cd_Pid (component_at s' i) = cd_Pid (component_at s i))"

lemma same_but_services_refl [simp]: "same_but_services s s"
  by (simp add: same_but_services_def)

lemma component_at_set_serv:
  "component_at (set_component_at i ((component_at s i)\<lparr>cd_Serv := serv\<rparr>) s) j =
     (if j - 1 = i - 1 \<and> i - 1 < length (br_Components s) then (component_at s j)\<lparr>cd_Serv := serv\<rparr> else component_at s j)"
  by (cases "i - 1 < length (br_Components s)") (auto simp: component_at_def set_component_at_def nth_list_update list_update_beyond not_less)

lemma Setup_Service_valid:
  "wp (Setup_Service E serv kind efd) (\<lambda>(serv', ok) _. (\<forall>k. k \<noteq> kind \<longrightarrow> serv' k = serv k) \<and>
     (ok \<longrightarrow> Valid (se_Broker (serv' kind)) \<and> Valid (se_Disp (serv' kind)))) w"
  by (auto simp: Setup_Service_def wp_run split: prod.splits)

lemma setup_component_same:
  "wp (setup_component E s i kind) (\<lambda>(s', ok) _. same_but_services s s' \<and>
     (ok \<and> in_range s (int i) \<longrightarrow> Valid (se_Broker (cd_Serv (component_at s' i) kind)) \<and>
       Valid (se_Disp (cd_Serv (component_at s' i) kind)))) w"
  unfolding setup_component_def wp_simps
  by (rule wp_mono [OF Setup_Service_valid])
    (auto simp: same_but_services_def component_at_set_serv in_range_def)

text \<open>Descriptors that are reserved for a session are valid.\<close>

definition reserved :: "nat \<Rightarrow> fd list \<times> bool \<Rightarrow> bool" where
  "reserved n r \<longleftrightarrow> snd r \<longrightarrow> n \<le> length (fst r) \<and> (\<forall>d \<in> set (take n (fst r)). Valid d)"

lemma reserve_valid:
  "wp (Process_Message_Request E) (\<lambda>r _. reserved 2 r) w"
  "wp (Process_Memory_Request E ds) (\<lambda>r _. reserved 3 r) w"
  by (auto simp: Process_Message_Request_def Process_Memory_Request_def wp_run reserved_def numeral_2_eq_2 numeral_3_eq_3
      split: prod.splits)

subsection \<open>The answers of the broker\<close>

text \<open>
  What the broker may do with a request of component \<open>source\<close> when \<open>serv\<close> is the service that its
  configuration selects: reject it; confirm a ROM or timer with one descriptor; forward it,
  under the name that the configuration gives the source, to the dispatcher of the component
  that the service names as its server; or ignore it, for a ROM with a server.
\<close>

inductive broker_answer ::
  "'n sxml \<Rightarrow> 'n broker_state \<Rightarrow> 'n broker_state \<Rightarrow> nat \<Rightarrow> kind_type \<Rightarrow> string \<Rightarrow> 'n \<Rightarrow> (fd \<times> send_hdr) list \<Rightarrow> bool"
  for X s s' source kind label serv where
  rejected: "broker_answer X s s' source kind label serv
     [(cd_Fd (component_at s source), wire_msg Reject kind [] label [])]"
| confirmed: "serv \<noteq> sx_invalid X \<Longrightarrow> kind = Timer \<or> kind = Rom \<and> Find_Resource_Location X s serv 4096 \<noteq> None \<Longrightarrow> Valid d \<Longrightarrow>
     broker_answer X s s' source kind label serv [(cd_Fd (component_at s source), wire_msg Confirm kind [] label [d])]"
| forwarded: "serv \<noteq> sx_invalid X \<Longrightarrow> kind \<in> {Message, Log, Memory} \<Longrightarrow>
     sx_attribute X serv ''server'' 255 = Result_OK server \<Longrightarrow> in_range s (int i) \<Longrightarrow> Valid (cd_Fd (component_at s i)) \<Longrightarrow>
     attribute_is X (cd_Node (component_at s i)) ''name'' server \<Longrightarrow>
     sx_attribute X (cd_Node (component_at s source)) ''name'' 255 = Result_OK name \<Longrightarrow>
     Valid (se_Broker (cd_Serv (component_at s' i) kind)) \<Longrightarrow>
     length ds = (if kind = Memory then 3 else 2) \<Longrightarrow> (\<forall>d \<in> set ds. Valid d) \<Longrightarrow>
     broker_answer X s s' source kind label serv
       [(se_Broker (cd_Serv (component_at s' i) kind), wire_msg Request kind name label ds)]"
| ignored: "serv \<noteq> sx_invalid X \<Longrightarrow> kind = Rom \<Longrightarrow> sx_attribute X serv ''server'' 255 = Result_OK server \<Longrightarrow>
     broker_answer X s s' source kind label serv []"

subsection \<open>What the broker sends\<close>

context linux_speaker
begin

lemma print_sent [keeps_intros]:
  "keeps sent (Print_Info E m)" "keeps sent (Print_Warning E m)" "keeps sent (Print_Error E m)"
  unfolding Print_Info_def Print_Warning_def Print_Error_def gneiss_fputs_def by (rule fputs_sent)+

lemma Setup_Service_sent [keeps_intros]: "keeps sent (Setup_Service E serv kind efd)"
  unfolding Setup_Service_def by (intro keeps_intros)

lemma setup_component_sent [keeps_intros]: "keeps sent (setup_component E s i kind)"
  unfolding setup_component_def by (intro keeps_intros)

lemma reserve_sent [keeps_intros]:
  "keeps sent (Process_Message_Request E)" "keeps sent (Process_Memory_Request E ds)"
  "keeps sent (Process_Rom_Request E X s serv)" "keeps sent (Process_Timer_Request E)"
  unfolding Process_Message_Request_def Process_Memory_Request_def Process_Rom_Request_def Process_Timer_Request_def
  by (intro keeps_intros)+

lemma close_all_sent [keeps_intros]: "keeps sent (traverse_list (gneiss_close (le_posix E)) ds)"
  by (induction ds) (auto intro!: keeps_intros)

lemma send_sent:
  assumes "length label < 256"
  shows "wp (Send_Reject E d k label) (\<lambda>_ w'. sent w' = sent w @ [(d, wire_msg Reject k [] label [])]) w"
    and "wp (Send_Confirm E d k label ds) (\<lambda>_ w'. sent w' = sent w @ [(d, wire_msg Confirm k [] label ds)]) w"
    and "length name < 256 \<Longrightarrow>
      wp (Send_Request E d k name label ds) (\<lambda>_ w'. sent w' = sent w @ [(d, wire_msg Request k name label ds)]) w"
  using assms Packet_Send_sent [of empty_label "to_label label"] Packet_Send_sent [of "to_label name" "to_label label"]
  by (simp_all add: Send_Reject_def Send_Confirm_def Send_Request_def)

lemma reject_sent:
  assumes "length label < 256"
  shows "wp (do { Send_Reject E d kind label; ret s }) (\<lambda>_ w'. sent w' = sent w @ [(d, wire_msg Reject kind [] label [])]) w"
  unfolding wp_simps by (rule wp_mono [OF send_sent(1) [OF assms]])

lemma forward_request_sent:
  assumes "length label < 256" and "length name < 256" and "keeps sent reserve" and "\<And>w. wp reserve (\<lambda>r _. reserved n r) w"
  shows "wp (forward_request E s source dest kind name label reserve n) (\<lambda>s' w'. same_but_services s s' \<and>
    (sent w' = sent w @ [(cd_Fd (component_at s source), wire_msg Reject kind [] label [])] \<or>
     in_range s dest \<and> Valid (se_Broker (cd_Serv (component_at s' (nat dest)) kind)) \<and>
     (\<exists>ds. length ds = n \<and> (\<forall>d \<in> set ds. Valid d) \<and>
       sent w' = sent w @ [(se_Broker (cd_Serv (component_at s' (nat dest)) kind), wire_msg Request kind name label ds)]))) w"
    (is "wp _ ?Q w")
proof (cases "in_range s dest")
  case False
  then show ?thesis
    unfolding forward_request_def by (simp add: wp_simps wp_mono [OF send_sent(1) [OF assms(1)]])
next
  case True
  have "wp reserve (\<lambda>r w1. reserved n r \<and> sent w1 = sent w) w"
    by (rule wp_and [OF assms(4) keeps_wp [OF assms(3)]])
  then have "wp reserve (\<lambda>r. wp (case r of (ds, ok) \<Rightarrow>
        if \<not> ok then do { Send_Reject E (cd_Fd (component_at s source)) kind label; ret s }
        else do {
          (s, ok) \<leftarrow> setup_component E s (nat dest) kind;
          if \<not> ok then do {
            traverse_list (gneiss_close (le_posix E)) ds;
            Send_Reject E (cd_Fd (component_at s source)) kind label;
            ret s
          } else do {
            Send_Request E (se_Broker (cd_Serv (component_at s (nat dest)) kind)) kind name label (take n ds);
            ret s
          }
        }) ?Q) w"
  proof (rule wp_mono, goal_cases)
    case (1 r w1)
    obtain ds ok where r: "r = (ds, ok)" by (cases r)
    have rej: "wp (Send_Reject E (cd_Fd (component_at s source)) kind label) (\<lambda>_ w'. ?Q s w') w1"
      by (rule wp_mono [OF send_sent(1) [OF assms(1)]]) (use 1 in simp)
    have srv: "wp (setup_component E s (nat dest) kind) (\<lambda>x w2. (case x of (s', ok) \<Rightarrow> same_but_services s s' \<and>
        (ok \<longrightarrow> Valid (se_Broker (cd_Serv (component_at s' (nat dest)) kind)))) \<and> sent w2 = sent w1) w1"
      by (rule wp_and [OF wp_mono [OF setup_component_same] keeps_wp [OF setup_component_sent]])
        (use True in \<open>auto simp: in_range_def\<close>)
    show ?case
    proof (cases ok)
      case False
      with r rej show ?thesis by (simp add: wp_simps)
    next
      case True
      with 1 r have ds: "length (take n ds) = n" "\<forall>d \<in> set (take n ds). Valid d"
        by (auto simp: reserved_def)
      show ?thesis
        unfolding r prod.case wp_simps using True
      proof (simp only: not_True_eq_False if_False wp_simps, intro wp_mono [OF srv], goal_cases)
        case (1 x w2)
        obtain s2 ok2 where x: "x = (s2, ok2)" by (cases x)
        with 1 have s2: "same_but_services s s2" "cd_Fd (component_at s2 source) = cd_Fd (component_at s source)"
          "sent w2 = sent w" using \<open>reserved n r \<and> sent w1 = sent w\<close> by (auto simp: same_but_services_def)
        show ?case
        proof (cases ok2)
          case True
          with 1 x have valid: "Valid (se_Broker (cd_Serv (component_at s2 (nat dest)) kind))" by simp
          have "wp (Send_Request E (se_Broker (cd_Serv (component_at s2 (nat dest)) kind)) kind name label (take n ds)) (\<lambda>_. ?Q s2) w2"
            by (rule wp_mono [OF send_sent(3) [OF assms(1,2)]], intro conjI s2 disjI2 \<open>in_range s dest\<close> valid exI [of _ "take n ds"])
              (use ds s2 in auto)
          with x True show ?thesis by (simp add: wp_simps)
        next
          case False
          have "wp (traverse_list (gneiss_close (le_posix E)) ds) (\<lambda>_.
              wp (Send_Reject E (cd_Fd (component_at s2 source)) kind label) (\<lambda>_. ?Q s2)) w2"
            by (rule keeps_wpI [OF close_all_sent], rule wp_mono [OF send_sent(1) [OF assms(1)]]) (use s2 in simp)
          with x False show ?thesis by (simp add: wp_simps)
        qed
      qed
    qed
  qed
  with True show ?thesis
    unfolding forward_request_def by (simp add: wp_simps)
qed

lemma confirm_or_reject_sent:
  assumes "length label < 256"
  shows "wp (confirm_or_reject E s source kind label r) (\<lambda>s' w'. s' = s \<and>
    (sent w' = sent w @ [(cd_Fd (component_at s source), wire_msg Reject kind [] label [])] \<or>
     snd r \<and> sent w' = sent w @ [(cd_Fd (component_at s source), wire_msg Confirm kind [] label [fst r])])) w"
  unfolding confirm_or_reject_def wp_simps
  using wp_mono [OF send_sent(1) [OF assms]] wp_mono [OF send_sent(2) [OF assms]] by simp

lemma Process_Kind_sent:
  assumes "length label < 256" and "length name < 256" and "serv \<noteq> sx_invalid X" and "Lookup_Request X s serv = Some dest"
    and "sx_attribute X (cd_Node (component_at s source)) ''name'' 255 = Result_OK name"
  shows "wp (Process_Kind E X s source kind label ds serv dest name) (\<lambda>s' w'. same_but_services s s' \<and>
    (\<exists>msgs. sent w' = sent w @ msgs \<and> broker_answer X s s' source kind label serv msgs)) w" (is "wp _ ?Q w")
proof -
  have forward: "wp (forward_request E s source dest kind name label reserve n) ?Q w"
    if "kind \<in> {Message, Log, Memory}" "n = (if kind = Memory then 3 else 2)" "keeps sent reserve"
      "\<And>w. wp reserve (\<lambda>r _. reserved n r) w" for reserve n
  proof (rule wp_mono [OF forward_request_sent [OF assms(1,2) that(3,4)]], goal_cases)
    case (1 s' w')
    show ?case
    proof (cases "sent w' = sent w @ [(cd_Fd (component_at s source), wire_msg Reject kind [] label [])]")
      case True
      with 1 show ?thesis by (blast intro: broker_answer.rejected)
    next
      case False
      with 1 obtain ds where d: "in_range s dest" "Valid (se_Broker (cd_Serv (component_at s' (nat dest)) kind))"
        "length ds = n" "\<forall>d \<in> set ds. Valid d"
        "sent w' = sent w @ [(se_Broker (cd_Serv (component_at s' (nat dest)) kind), wire_msg Request kind name label ds)]"
        by blast
      moreover have "int (nat dest) = dest" using d(1) by (simp add: in_range_def)
      moreover obtain server where "sx_attribute X serv ''server'' 255 = Result_OK server"
        "Valid (cd_Fd (component_at s (nat dest)))" "attribute_is X (cd_Node (component_at s (nat dest))) ''name'' server"
        using Lookup_Request_server [OF assms(4) d(1)] by blast
      ultimately have "broker_answer X s s' source kind label serv
         [(se_Broker (cd_Serv (component_at s' (nat dest)) kind), wire_msg Request kind name label ds)]"
        using that(1,2) assms(3,5) by (intro broker_answer.forwarded) simp_all
      with 1 d(5) show ?thesis by blast
    qed
  qed
  have confirm: "wp (confirm_or_reject E s source kind label r) ?Q w1"
    if "sent w1 = sent w" "snd r \<Longrightarrow> (kind = Timer \<or> kind = Rom \<and> Find_Resource_Location X s serv 4096 \<noteq> None) \<and> Valid (fst r)" for r w1
  proof (rule wp_mono [OF confirm_or_reject_sent [OF assms(1)]], goal_cases)
    case (1 s' w')
    with that assms(3) show ?case
      by (auto intro: broker_answer.rejected broker_answer.confirmed)
  qed
  have reject: "wp (do { Send_Reject E (cd_Fd (component_at s source)) kind label; ret s }) ?Q w"
    unfolding wp_simps by (rule wp_mono [OF send_sent(1) [OF assms(1)]]) (auto intro: broker_answer.rejected)
  show ?thesis
  proof (cases kind)
    case Rom
    have rom: "wp (Process_Rom_Request E X s serv) (\<lambda>r _. snd r \<longrightarrow> Find_Resource_Location X s serv 4096 \<noteq> None \<and> Valid (fst r)) w"
      by (simp add: Process_Rom_Request_def wp_run split: option.splits prod.splits)
    show ?thesis
    proof (cases "in_range s dest")
      case True
      with Lookup_Request_server [OF assms(4)] obtain server where "sx_attribute X serv ''server'' 255 = Result_OK server" by blast
      with Rom assms(3) have "broker_answer X s s source kind label serv []" by (intro broker_answer.ignored)
      with True Rom show ?thesis
        by (simp add: Process_Kind_def wp_simps)
          (rule keeps_wpI [OF print_sent(2)], auto)
    next
      case False
      have "wp (Process_Rom_Request E X s serv) (\<lambda>r. wp (confirm_or_reject E s source kind label r) ?Q) w"
        by (rule wp_mono [OF wp_and [OF rom keeps_wp [OF reserve_sent(3)]]], rule confirm) (use Rom in auto)
      with False Rom show ?thesis by (simp add: Process_Kind_def wp_simps)
    qed
  next
    case Timer
    have "wp (Process_Timer_Request E) (\<lambda>r _. snd r \<longrightarrow> Valid (fst r)) w"
      by (simp add: Process_Timer_Request_def wp_run split: prod.splits)
    then have "wp (Process_Timer_Request E) (\<lambda>r. wp (confirm_or_reject E s source kind label r) ?Q) w"
      by (rule wp_mono [OF wp_and [OF _ keeps_wp [OF reserve_sent(4)]]], intro confirm) (use Timer in auto)
    with Timer show ?thesis by (simp add: Process_Kind_def wp_simps)
  qed (use reject forward [OF _ _ reserve_sent(1) reserve_valid(1)] forward [OF _ _ reserve_sent(2) reserve_valid(2)]
       in \<open>simp_all add: Process_Kind_def\<close>)
qed

lemma reject_request_sent:
  assumes "length label < 256"
  shows "wp (reject_request E s source kind label why) (\<lambda>r w'. r = Some s \<and>
     sent w' = sent w @ [(cd_Fd (component_at s source), wire_msg Reject kind [] label [])]) w"
  unfolding reject_request_def wp_simps
  by (rule keeps_wpI [OF print_sent(3)], rule wp_mono [OF send_sent(1) [OF assms]]) simp

lemma Process_Request_sent:
  assumes "sxml_document X chain matches" and "length label < 256" and "Valid (cd_Fd (component_at s source))"
  shows "wp (Process_Request E X s source kind label ds) (\<lambda>r w'. \<exists>s' serv msgs. r = Some s' \<and> same_but_services s s' \<and>
    Match_Service X (cd_Node (component_at s source)) (Image kind) label = Some serv \<and>
    sent w' = sent w @ msgs \<and> broker_answer X s s' source kind label serv msgs) w" (is "wp _ ?Q w")
proof -
  obtain serv where serv: "Match_Service X (cd_Node (component_at s source)) (Image kind) label = Some serv"
    using sxml_document.Match_Service_returns [OF assms(1)] by blast
  have rej: "wp (reject_request E s source kind label why) ?Q w" for why
    by (rule wp_mono [OF reject_request_sent [OF assms(2)]]) (use serv in \<open>auto intro: broker_answer.rejected\<close>)
  have kind: "wp (Process_Kind E X s source kind label ds serv dest name) (\<lambda>s'. ?Q (Some s')) w"
    if "serv \<noteq> sx_invalid X" "Lookup_Request X s serv = Some dest"
      "sx_attribute X (cd_Node (component_at s source)) ''name'' 255 = Result_OK name" for dest name
  proof -
    have "length name < 256"
      using sxml_document.attribute_fits [OF assms(1) that(3)] by simp
    from Process_Kind_sent [OF assms(2) this that] show ?thesis
      by (rule wp_mono) (use serv in blast)
  qed
  show ?thesis
    using assms(3) serv rej kind
    by (auto simp: Process_Request_def wp_simps split: option.splits attribute_result.splits)
qed



text \<open>The answers that come back from a server.\<close>

lemma Process_Confirm_sent:
  assumes "length label < 256"
  shows "wp (Process_Confirm E X s kind name label ds) (\<lambda>_ w'. sent w' = sent w @
    (case Find_Component_By_Name X s name of None \<Rightarrow> []
     | Some i \<Rightarrow> if kind = Rom \<or> kind = Timer then []
         else [(cd_Fd (component_at s i), if ds \<noteq> [] \<and> 0 \<le> hd ds then wire_msg Confirm kind [] label [hd ds]
           else wire_msg Reject kind [] label [])])) w"
proof -
  note snd = wp_mono [OF send_sent(1) [OF assms]] wp_mono [OF send_sent(2) [OF assms]]
  have "kind \<notin> {Message, Log, Memory} \<longleftrightarrow> kind = Rom \<or> kind = Timer" by (cases kind) auto
  then show ?thesis
    by (auto simp: Process_Confirm_def wp_simps hd_conv_nth split: option.splits intro!: snd keeps_wpI [OF print_sent(2)])
qed

lemma Process_Reject_sent:
  assumes "length label < 256"
  shows "wp (Process_Reject E X s kind name label) (\<lambda>_ w'. sent w' = sent w @
    (case Find_Component_By_Name X s name of None \<Rightarrow> []
     | Some i \<Rightarrow> [(cd_Fd (component_at s i), wire_msg Reject kind [] label [])])) w"
  by (auto simp: Process_Reject_def wp_simps split: option.splits
      intro!: wp_mono [OF send_sent(1) [OF assms]] keeps_wpI [OF print_sent(2)])

lemma reply_sent:
  assumes "action \<in> {Confirm, Reject}" and "length label < 256"
  shows "wp (Handle_Message E X s source action kind name label ds) (\<lambda>r w'. r = Some s \<and> sent w' = sent w @
    (case Find_Component_By_Name X s name of None \<Rightarrow> []
     | Some i \<Rightarrow> if 256 \<le> length name + length label \<or> (action = Confirm \<and> kind \<in> {Rom, Timer}) then []
         else [(cd_Fd (component_at s i), if action = Confirm \<and> ds \<noteq> [] \<and> 0 \<le> hd ds
            then wire_msg Confirm kind [] label [hd ds] else wire_msg Reject kind [] label [])])) w"
proof (cases "256 \<le> length name + length label")
  case True
  with assms(1) show ?thesis
    by (auto simp: Handle_Message_def wp_simps split: option.splits intro!: keeps_wpI [OF print_sent(2)])
next
  case False
  consider "action = Confirm" | "action = Reject" using assms(1) by blast
  then show ?thesis
  proof cases
    case 1
    with False show ?thesis
      unfolding Handle_Message_def 1 action_type.case if_not_P [OF False] wp_simps
      by (intro wp_mono [OF Process_Confirm_sent [OF assms(2)]]) (auto split: option.splits)
  next
    case 2
    with False show ?thesis
      unfolding Handle_Message_def 2 action_type.case if_not_P [OF False] wp_simps
      by (intro wp_mono [OF Process_Reject_sent [OF assms(2)]]) (auto split: option.splits)
  qed
qed

text \<open>The answer to a registration: the dispatcher's socket, or a rejection.\<close>

lemma register_sent:
  "wp (Process_Register E s source kind) (\<lambda>s' w'. same_but_services s s' \<and> (\<exists>m ds.
     sent w' = sent w @ [(cd_Fd (component_at s source), m)] \<and> m \<in> {wire_msg Confirm kind [] [] ds, wire_msg Reject kind [] [] []})) w"
  unfolding Process_Register_def wp_simps
proof (rule wp_mono [OF wp_and [OF setup_component_same keeps_wp [OF setup_component_sent]]], goal_cases)
  case (1 r w1)
  obtain s1 ok where r: "r = (s1, ok)" by (cases r)
  with 1 have "same_but_services s s1" "cd_Fd (component_at s1 source) = cd_Fd (component_at s source)" "sent w1 = sent w"
    by (auto simp: same_but_services_def)
  with r show ?case
    by (auto simp: wp_simps intro!: wp_mono [OF send_sent(1)] wp_mono [OF send_sent(2)])
qed

end

subsection \<open>Properties\<close>

text \<open>
  C1. The broker enforces its configuration. When a session request of a started component
  waits at its socket, \<open>Read_Message\<close> returns, changes nothing of the broker state but
  service sockets, and sends what \<open>broker_answer\<close> allows for the service that \<open>Match_Service\<close>
  selects for this component: a rejection to the requester; a confirmation with one
  descriptor to the requester (timers, and ROMs whose resource is configured); or the request,
  with two (memory: three) valid descriptors and the requester's configured name, to the
  dispatcher socket of the very component that the configuration names as the server. If the
  configuration has no such service only the rejection is possible.
\<close>

theorem broker_request_policy:
  assumes "sxml_document X chain matches" and "linux_connection E peer queue" and "linux_calls (le_posix E) sent"
    and "Valid (cd_Fd (component_at s source))"
    and "queue w d = (wire Request kind name label, rs) # rest" and "length name < 256" and "length label < 256"
    and "length rs \<le> 4" and "4 \<le> length (le_control E)"
  shows "wp (Read_Message E X s source d) (\<lambda>r w'. \<exists>s' serv msgs. r = Some s' \<and> same_but_services s s' \<and>
    Match_Service X (cd_Node (component_at s source)) (Image kind) label = Some serv \<and>
    sent w' = sent w @ msgs \<and> broker_answer X s s' source kind label serv msgs) w" (is "wp _ ?Q w")
proof -
  have calls: "linux_speaker E sent"
    using assms(2,3) unfolding linux_speaker_def linux_connection_def by blast
  show ?thesis
    unfolding Read_Message_def wp_simps
  proof (rule wp_mono [OF wp_and [OF linux_connection.Packet_Receive_wire [OF assms(2,5-9)]
        keeps_wp [OF linux_speaker.Packet_Receive_sent [OF calls]]]], goal_cases)
    case (1 r w1)
    then obtain m ds where r: "r = (Some m, ds)" "same_text m Request kind name label" "sent w1 = sent w"
      by (cases r) auto
    then have "bm_Action m = Request" "bm_Kind m = kind" "label_text (bm_Label m) = label"
      by (simp_all add: same_text_def)
    with r show ?case
      using linux_speaker.Process_Request_sent [OF calls assms(1,7,4), of kind ds w1] assms(7)
      by (simp add: Handle_Message_def)
  qed
qed

text \<open>A broker with two components: \<open>client\<close> may use the log service of \<open>srv\<close> and has just asked for it.\<close>

definition sample_config :: "xml list" where
  "sample_config =
     [Element ''component'' [(''name'', ''client'')] [Element ''service'' [(''name'', ''Log''), (''server'', ''srv'')] []],
      Element ''component'' [(''name'', ''srv'')] []]"

definition sample_broker :: "xml list broker_state" where
  "sample_broker = \<lparr> br_Epoll_Fd = 9, br_Components =
     [\<lparr> cd_Fd = 3, cd_Node = sample_config, cd_Pid = 20, cd_Serv = (\<lambda>_. \<lparr>se_Broker = -1, se_Disp = -1\<rparr>) \<rparr>,
      \<lparr> cd_Fd = 5, cd_Node = tl sample_config, cd_Pid = 21, cd_Serv = (\<lambda>_. \<lparr>se_Broker = -1, se_Disp = -1\<rparr>) \<rparr>],
     br_Resources = [] \<rparr>"

definition sample_world :: sim where
  "sample_world = sim_init\<lparr>sim_fds := [9, 6, 5, 4, 3, 2, 1, 0], sim_peer := [(3, 4), (4, 3), (5, 6), (6, 5)],
     sim_queue := [(3, wire Request Log [] ''a'', [])]\<rparr>"

theorem broker_request_policy_witness:
  "wp (Read_Message sim_env (xml_sxml sample_config) sample_broker 1 3) (\<lambda>r w'. \<exists>s' serv msgs.
     r = Some s' \<and> same_but_services sample_broker s' \<and>
     Match_Service (xml_sxml sample_config) sample_config ''Log'' ''a'' = Some serv \<and> sim_sent w' = msgs \<and>
     broker_answer (xml_sxml sample_config) sample_broker s' 1 Log ''a'' serv msgs) sample_world \<and>
   map fst (sim_sent (final (Read_Message sim_env (xml_sxml sample_config) sample_broker 1 3) sample_world)) = [12]"
proof
  show "map fst (sim_sent (final (Read_Message sim_env (xml_sxml sample_config) sample_broker 1 3) sample_world)) = [12]"
    by code_simp
  have q: "sim_waiting sample_world 3 = (wire Request Log [] ''a'', []) # []"
    by (simp add: sim_waiting_def sample_world_def)
  have c: "cd_Fd (component_at sample_broker 1) = 3" "cd_Node (component_at sample_broker 1) = sample_config"
    by (simp_all add: component_at_def sample_broker_def)
  have "linux_calls (le_posix sim_env) sim_sent" by (simp add: sim_calls.linux_calls_axioms)
  from broker_request_policy [OF xml.sxml_document_axioms sim_conn.linux_connection_axioms this _ q, of sample_broker 1] c
  show "wp (Read_Message sim_env (xml_sxml sample_config) sample_broker 1 3) (\<lambda>r w'. \<exists>s' serv msgs.
     r = Some s' \<and> same_but_services sample_broker s' \<and>
     Match_Service (xml_sxml sample_config) sample_config ''Log'' ''a'' = Some serv \<and> sim_sent w' = msgs \<and>
     broker_answer (xml_sxml sample_config) sample_broker s' 1 Log ''a'' serv msgs) sample_world"
    by (simp add: Image_def sample_world_def sim_init_def)
qed

text \<open>
  C29. A server's answer goes to the component it names: for a confirmation or a rejection of
  a session of kind \<open>kind\<close>, the broker keeps its state and sends exactly one message to the first
  started component whose configured name is the given one, carrying the label and, in a
  confirmation, exactly the first descriptor; a confirmation without a descriptor arrives as a
  rejection, and nothing is sent for an unknown name, for a name and a label that are too
  long together, or for a kind that has no server.
\<close>

theorem broker_replies_routed:
  assumes "linux_client E" and "linux_calls (le_posix E) sent" and "action \<in> {Confirm, Reject}" and "length label < 256"
  shows "wp (Handle_Message E X s source action kind name label ds) (\<lambda>r w'. r = Some s \<and> sent w' = sent w @
    (case find (\<lambda>i. Valid (cd_Fd (component_at s i)) \<and>
        sx_attribute X (cd_Node (component_at s i)) ''name'' 255 = Result_OK name) [1..<length (br_Components s) + 1] of
       None \<Rightarrow> []
     | Some i \<Rightarrow>
         if name = [] \<or> 256 \<le> length name + length label \<or> (action = Confirm \<and> kind \<in> {Rom, Timer}) then []
         else [(cd_Fd (component_at s i), if action = Confirm \<and> ds \<noteq> [] \<and> 0 \<le> hd ds
            then wire_msg Confirm kind [] label [hd ds] else wire_msg Reject kind [] label [])])) w"
proof -
  have "linux_speaker E sent" using assms(1,2) unfolding linux_speaker_def by blast
  from linux_speaker.reply_sent [OF this assms(3,4), of X s source kind name ds w, unfolded Find_Component_By_Name_find]
  show ?thesis by (rule wp_mono) (auto split: option.splits if_splits)
qed

theorem broker_replies_routed_witness:
  "wp (Handle_Message sim_env (xml_sxml sample_config) sample_broker 2 Confirm Log ''client'' ''a'' [7, -1, -1, -1])
     (\<lambda>r w'. r = Some sample_broker \<and> sim_sent w' = [(3, wire_msg Confirm Log [] ''a'' [7])]) sample_world"
proof -
  have a: "sim_sent sample_world = []" by (simp add: sample_world_def sim_init_def)
  have f: "find (\<lambda>i. Valid (cd_Fd (component_at sample_broker i)) \<and>
      sx_attribute (xml_sxml sample_config) (cd_Node (component_at sample_broker i)) ''name'' 255 = Result_OK ''client'')
        [1..<length (br_Components sample_broker) + 1] = Some 1"
    by (simp add: sample_broker_def sample_config_def xml_sxml_def component_at_def upt_rec)
  have c: "linux_calls (le_posix sim_env) sim_sent" by (simp add: sim_calls.linux_calls_axioms)
  have d: "cd_Fd (component_at sample_broker 1) = 3" by (simp add: component_at_def sample_broker_def)
  have l: "length ''a'' < 256" "Confirm \<in> {Confirm, Reject}" by simp_all
  show ?thesis
    using broker_replies_routed [OF sim_conn.linux_client_axioms c l(2,1), of "xml_sxml sample_config" sample_broker 2 Log "''client''"
        "[7, -1, -1, -1]" sample_world]
    unfolding f option.case a d by simp
qed

end
