(* ===== verification/Linux_Broker_Main.thy ===== *)
theory Linux_Broker_Main
  imports Linux_Broker
begin

text \<open>
  The broker process: start-up (\<open>gneiss-broker-startup.adb\<close>) and event loop
  (\<open>gneiss-broker-main.adb\<close>). The document is parsed by SXML and is the parameter \<open>X\<close>. The event loop has no
  end; one round is \<open>Event_Step\<close>, and \<open>broker_runs\<close> relates the states between rounds.
\<close>

subsection \<open>The event loop\<close>

definition kinds :: "kind_type list" where
  "kinds = [Message, Log, Memory, Rom, Timer]"

lemma set_kinds [simp]: "set kinds = UNIV"
  by (auto simp: kinds_def) (metis kind_type.exhaust)

fun dest_loop :: "fd \<Rightarrow> nat \<Rightarrow> 'n component_definition list \<Rightarrow> nat" where
  "dest_loop d i [] = 0"
| "dest_loop d i (c # cs) =
     (if cd_Fd c = d \<or> (\<exists>k \<in> set kinds. se_Broker (cd_Serv c k) = d) then i else dest_loop d (i + 1) cs)"

definition Get_Dest :: "'n broker_state \<Rightarrow> fd \<Rightarrow> nat" where
  "Get_Dest s d = (if \<not> Valid d then 0 else dest_loop d 1 (br_Components s))"

definition exit_message :: "'w linux_env \<Rightarrow> attribute_result \<Rightarrow> int \<Rightarrow> int \<Rightarrow> string" where
  "exit_message E name pid status = (case name of
       Result_OK n \<Rightarrow> ''Component '' @ n @ '' exited with status '' @ le_image E status
     | _ \<Rightarrow> ''Component PID '' @ le_image E pid @ '' exited with status '' @ le_image E status)"

definition component_exited ::
  "'w linux_env \<Rightarrow> 'n sxml \<Rightarrow> 'n broker_state \<Rightarrow> nat \<Rightarrow> attribute_result \<Rightarrow> ('w, 'n broker_state) state" where
  "component_exited E X s i name = do {
     status \<leftarrow> gneiss_waitpid (le_posix E) (cd_Pid (component_at s i)) (le_status E);
     Print_Info E (exit_message E name (cd_Pid (component_at s i)) status);
     (if Valid (cd_Fd (component_at s i)) then do {
        Epoll_Remove (le_posix E) (br_Epoll_Fd s) (cd_Fd (component_at s i));
        ret ()
      } else ret ());
     d \<leftarrow> gneiss_close (le_posix E) (cd_Fd (component_at s i));
     ret (set_component_at i ((component_at s i)\<lparr>cd_Fd := d, cd_Node := sx_init X, cd_Pid := -1\<rparr>) s)
   }"

definition Event_Step :: "'w linux_env \<Rightarrow> 'n sxml \<Rightarrow> 'n broker_state \<Rightarrow> ('w, 'n broker_state option) state" where
  "Event_Step E X s = do {
     (ev, d) \<leftarrow> Epoll_Wait (le_posix E) (br_Epoll_Fd s);
     let i = Get_Dest s d;
     if in_range s (int i) \<and> Valid (cd_Fd (component_at s i)) then do {
       let name = sx_attribute X (cd_Node (component_at s i)) ''name'' 255;
       r \<leftarrow> (if Epoll_In ev \<and> Valid d then Read_Message E X s i d else ret (Some s));
       case r of
         None \<Rightarrow> ret None
       | Some s \<Rightarrow>
           if Epoll_Hup ev \<or> Epoll_Rdhup ev then do {
             s \<leftarrow> component_exited E X s i name;
             ret (Some s)
           } else ret (Some s)
     } else do {
       Print_Warning E ''Invalid index'';
       ret (Some s)
     }
   }"

inductive broker_runs ::
  "'w linux_env \<Rightarrow> 'n sxml \<Rightarrow> 'n broker_state \<Rightarrow> 'w \<Rightarrow> 'n broker_state \<Rightarrow> 'w \<Rightarrow> bool" for E X s w where
  start: "broker_runs E X s w s w"
| step: "broker_runs E X s w s1 w1 \<Longrightarrow> run_state (Event_Step E X s1) w1 = (Some s2, w2) \<Longrightarrow> broker_runs E X s w s2 w2"

subsection \<open>Start-up\<close>

text \<open>The loop of \<open>Parse_Resources\<close> over the slots that are left.\<close>

fun resources_loop :: "'n sxml \<Rightarrow> 'n \<Rightarrow> 'n resource_definition list \<Rightarrow> 'n resource_definition list" where
  "resources_loop X st [] = []"
| "resources_loop X st (r # rs) =
     (if \<not> (sx_ok X st \<and> sx_is_open X st) then r # rs
      else let st = sx_find_sibling_by_name X st ''resource'' in
        if \<not> sx_ok X st then r # rs
        else r\<lparr>rd_Node := st\<rparr> # resources_loop X (sx_sibling X st) rs)"

definition Parse_Resources :: "'n sxml \<Rightarrow> 'n \<Rightarrow> 'n resource_definition list \<Rightarrow> 'n resource_definition list" where
  "Parse_Resources X root rs = resources_loop X (sx_path X root ''/config/resource'') rs"

text \<open>How \<open>Start_Components\<close> ends: in the broker, or in the process of a new component, before \<open>Load\<close>.\<close>

datatype 'n startup = Parent "'n broker_state" | Child "'n broker_state" fd 'n

text \<open>One component: \<open>Some\<close> ends the loop.\<close>

definition start_component ::
  "'w linux_env \<Rightarrow> 'n sxml \<Rightarrow> 'n broker_state \<Rightarrow> nat \<Rightarrow> 'n \<Rightarrow> ('w, 'n broker_state \<times> 'n startup option) state" where
  "start_component E X s i query = (case sx_attribute X query ''name'' 255 of
       Result_OK name \<Rightarrow> do {
         (broker, d) \<leftarrow> gneiss_socketpair (le_posix E);
         let s = set_component_at i ((component_at s i)\<lparr>cd_Fd := broker\<rparr>) s;
         if Valid broker then do {
           Epoll_Add (le_posix E) (br_Epoll_Fd s) broker broker;
           pid \<leftarrow> gneiss_fork (le_posix E);
           if pid < 0 then do {
             Print_Error E ''Fork failed'';
             let s = set_component_at i ((component_at s i)\<lparr>cd_Fd := -1\<rparr>) s;
             ret (s, Some (Parent s))
           } else if pid > 0 then do {
             let s = set_component_at i ((component_at s i)\<lparr>cd_Pid := pid, cd_Node := query\<rparr>) s;
             gneiss_close (le_posix E) d;
             Print_Info E (''Started '' @ name @ '' with PID '' @ le_image E pid);
             ret (s, None)
           } else do {
             efd \<leftarrow> gneiss_close (le_posix E) (br_Epoll_Fd s);
             let s = s\<lparr>br_Epoll_Fd := efd\<rparr>;
             ret (s, Some (Child s d query))
           }
         } else ret (s, None)
       }
     | _ \<Rightarrow> do { Print_Error E ''Failed to load component name''; ret (s, None) })"

text \<open>The loop; the first argument counts the slots that are left.\<close>

fun start_loop :: "'w linux_env \<Rightarrow> 'n sxml \<Rightarrow> nat \<Rightarrow> 'n broker_state \<Rightarrow> nat \<Rightarrow> 'n \<Rightarrow> ('w, 'n startup) state" where
  "start_loop E X 0 s i query = ret (Parent s)"
| "start_loop E X (Suc n) s i query =
     (if \<not> sx_ok X query then ret (Parent s)
      else let query = sx_find_sibling_by_name X query ''component'' in
        if \<not> sx_ok X query \<or> \<not> sx_is_open X query then ret (Parent s)
        else do {
          (s, done) \<leftarrow> start_component E X s i query;
          case done of Some r \<Rightarrow> ret r | None \<Rightarrow> start_loop E X n s (i + 1) (sx_sibling X query)
        })"

definition Start_Components :: "'w linux_env \<Rightarrow> 'n sxml \<Rightarrow> 'n broker_state \<Rightarrow> 'n \<Rightarrow> ('w, 'n startup) state" where
  "Start_Components E X s root =
     start_loop E X (length (br_Components s)) s 1 (sx_path X root ''/config/component'')"

text \<open>\<open>Load\<close> in the new process: close what belongs to the broker, find the file and run it.\<close>

definition Load_prepare :: "'w linux_env \<Rightarrow> 'n sxml \<Rightarrow> 'n broker_state \<Rightarrow> 'n \<Rightarrow> ('w, string option) state" where
  "Load_prepare E X s query = do {
     traverse_list (\<lambda>c. gneiss_close (le_posix E) (cd_Fd c)) (br_Components s);
     let file = (case sx_attribute X query ''file'' 4096 of
         Result_OK f \<Rightarrow> Some f
       | _ \<Rightarrow> (case sx_failed X query ''file'' 4096 of (n, buf) \<Rightarrow>
           if n = 0 \<or> 4096 < n then None else Some (take n buf)));
     (if file = None then Print_Error E ''No file to load'' else ret ());
     ret file
   }"

definition Load :: "'w linux_env \<Rightarrow> 'w loaded \<Rightarrow> 'n sxml \<Rightarrow> 'n broker_state \<Rightarrow> fd \<Rightarrow> 'n \<Rightarrow> 'w \<Rightarrow> (int \<times> 'w) option" where
  "Load E L X s d query w = (case run_state (Load_prepare E X s query) w of
       (None, w) \<Rightarrow> Some (1, w)
     | (Some file, w) \<Rightarrow> Run E L file d w)"

text \<open>\<open>Construct\<close>, after the document was loaded, up to the event loop or the component.\<close>

definition initial_broker :: "'n sxml \<Rightarrow> nat \<Rightarrow> fd \<Rightarrow> 'n broker_state" where
  "initial_broker X reg_size efd = \<lparr> br_Epoll_Fd = efd,
     br_Components = replicate reg_size \<lparr>cd_Fd = -1, cd_Node = sx_initial X, cd_Pid = -1,
       cd_Serv = (\<lambda>_. \<lparr>se_Broker = -1, se_Disp = -1\<rparr>)\<rparr>,
     br_Resources = Parse_Resources X (sx_init X) (replicate reg_size \<lparr>rd_Fd = -1, rd_Node = sx_invalid X\<rparr>) \<rparr>"

definition Construct_broker :: "'w linux_env \<Rightarrow> 'n sxml \<Rightarrow> nat \<Rightarrow> ('w, 'n startup option) state" where
  "Construct_broker E X reg_size = (
     if \<not> sx_is_open X (sx_init X) then do { Print_Error E ''Init failed''; ret None }
     else do {
       efd \<leftarrow> gneiss_epoll_create (le_posix E);
       if \<not> 0 \<le> efd then ret None
       else do {
         r \<leftarrow> Start_Components E X (initial_broker X reg_size efd) (sx_init X);
         ret (Some r)
       }
     })"

subsection \<open>The invariant of the broker state\<close>

text \<open>
  The loop invariant of \<open>Event_Loop\<close>: both ghost predicates \<open>Is_Valid\<close> and a valid epoll
  descriptor; in addition, the two sockets of a service exist together or not at all.
\<close>

definition service_paired :: "service_entry \<Rightarrow> bool" where
  "service_paired e \<longleftrightarrow> Valid (se_Broker e) = Valid (se_Disp e)"

definition broker_inv :: "'n sxml \<Rightarrow> 'n broker_state \<Rightarrow> bool" where
  "broker_inv X s \<longleftrightarrow> Valid (br_Epoll_Fd s) \<and> Is_Valid_Components X (br_Components s) \<and>
     Is_Valid_Resources X (br_Resources s) \<and> (\<forall>c \<in> set (br_Components s). \<forall>k. service_paired (cd_Serv c k))"

text \<open>What the invariant asks of one component; it is enough to check the one that changes.\<close>

definition component_inv :: "'n sxml \<Rightarrow> 'n component_definition \<Rightarrow> bool" where
  "component_inv X c \<longleftrightarrow> (Valid (cd_Fd c) \<longrightarrow> sx_ok X (cd_Node c) \<and> sx_is_open X (cd_Node c)) \<and>
     (\<forall>k. service_paired (cd_Serv c k))"

lemma broker_inv_components:
  "broker_inv X s \<longleftrightarrow> Valid (br_Epoll_Fd s) \<and> Is_Valid_Resources X (br_Resources s) \<and>
     (\<forall>c \<in> set (br_Components s). component_inv X c)"
  by (auto simp: broker_inv_def component_inv_def Is_Valid_Components_def)

lemma broker_inv_set:
  assumes "broker_inv X s" and "i - 1 < length (br_Components s) \<Longrightarrow> component_inv X (component_at s i) \<Longrightarrow> component_inv X c"
  shows "broker_inv X (set_component_at i c s)"
proof (cases "i - 1 < length (br_Components s)")
  case True
  with assms show ?thesis
    using set_update_subset_insert [of "br_Components s" "i - 1" c]
    by (auto simp: broker_inv_components set_component_at_def component_at_def)
next
  case False
  with assms(1) show ?thesis by (simp add: set_component_at_def list_update_beyond)
qed

lemma gneiss_close_invalid [simp]: "Valid (result (gneiss_close K d) w) = False"
  by (simp add: gneiss_close_def case_prod_beta)

lemma Setup_Service_paired:
  "(\<And>k. service_paired (serv k)) \<Longrightarrow> service_paired (fst (result (Setup_Service E serv kind efd) w) k)"
  by (auto simp: Setup_Service_def case_prod_beta service_paired_def Let_def)

lemma setup_component_inv: "broker_inv X s \<Longrightarrow> broker_inv X (fst (result (setup_component E s i kind) w))"
  unfolding setup_component_def
  by (auto simp: case_prod_beta component_inv_def intro!: broker_inv_set Setup_Service_paired)

text \<open>A message changes the state through \<open>setup_component\<close> only, so what that call keeps every message keeps.\<close>

locale kept_by_setup =
  fixes E :: "'w linux_env"
    and P :: "'n broker_state \<Rightarrow> bool"
  assumes setup_kept: "P s \<Longrightarrow> P (fst (result (setup_component E s i kind) w))"
begin

lemma forward_request_kept: "P s \<Longrightarrow> P (result (forward_request E s source dest kind name label reserve n) w)"
  by (simp add: forward_request_def case_prod_beta setup_kept)

lemma Process_Kind_kept: "P s \<Longrightarrow> P (result (Process_Kind E X s source kind label ds serv dest name) w)"
  by (cases kind) (simp_all add: Process_Kind_def confirm_or_reject_def case_prod_beta forward_request_kept)

lemma Process_Request_kept: "P s \<Longrightarrow> pred_option P (result (Process_Request E X s source kind label ds) w)"
  by (simp add: Process_Request_def reject_request_def case_prod_beta Process_Kind_kept
      split: option.splits attribute_result.splits)

lemma Process_Register_kept: "P s \<Longrightarrow> P (result (Process_Register E s source kind) w)"
  by (simp add: Process_Register_def case_prod_beta setup_kept)

lemma Handle_Message_kept: "P s \<Longrightarrow> pred_option P (result (Handle_Message E X s source action kind name label ds) w)"
  by (cases action) (simp_all add: Handle_Message_def case_prod_beta Process_Request_kept Process_Register_kept)

lemma Read_Message_kept: "P s \<Longrightarrow> pred_option P (result (Read_Message E X s i d) w)"
  by (simp add: Read_Message_def case_prod_beta Handle_Message_kept split: option.splits)

end

interpretation inv: kept_by_setup E "broker_inv X" for E X
  by unfold_locales (rule setup_component_inv)

interpretation same_range: kept_by_setup E "\<lambda>s'. in_range s' = r" for E r
  by unfold_locales (auto simp: setup_component_def case_prod_beta fun_eq_iff)

lemma component_exited_inv: "broker_inv X s \<Longrightarrow> broker_inv X (result (component_exited E Y s i name) w)"
  by (auto simp: component_exited_def case_prod_beta component_inv_def intro!: broker_inv_set)

lemma Event_Step_inv:
  assumes "broker_inv X s"
  shows "pred_option (broker_inv X) (result (Event_Step E X s) w)"
proof -
  have read: "broker_inv X s'" if "result (Read_Message E X s i d) w1 = Some s'" for i d w1 s'
    using inv.Read_Message_kept [OF assms, of E X i d w1] that by simp
  show ?thesis
    using assms by (auto simp: Event_Step_def case_prod_beta Let_def component_exited_inv read split: option.splits)
qed

subsection \<open>Every round returns\<close>

lemma Process_Request_returns:
  assumes "sxml_document X chain matches"
  shows "result (Process_Request E X s source kind label ds) w \<noteq> None"
proof -
  obtain serv where "Match_Service X (cd_Node (component_at s source)) (Image kind) label = Some serv"
    using sxml_document.Match_Service_returns [OF assms] by blast
  then show ?thesis
    by (simp add: Process_Request_def reject_request_def case_prod_beta split: option.splits attribute_result.splits)
qed

lemma Read_Message_returns:
  assumes "sxml_document X chain matches"
  shows "result (Read_Message E X s i d) w \<noteq> None"
proof -
  have "result (Handle_Message E X s i a k n l ds) w1 \<noteq> None" for a k n l ds w1
    using Process_Request_returns [OF assms, of E s i k l ds] by (cases a) (simp_all add: Handle_Message_def case_prod_beta)
  then show ?thesis by (simp add: Read_Message_def case_prod_beta split: option.splits)
qed

lemma Event_Step_returns:
  assumes "sxml_document X chain matches"
  shows "result (Event_Step E X s) w \<noteq> None"
proof -
  have read: "(result (Read_Message E X s i d) w1 = None) = False" for i d w1
    using Read_Message_returns [OF assms] by simp
  show ?thesis
    by (simp add: Event_Step_def case_prod_beta Let_def read split: option.splits)
qed

subsection \<open>Start-up establishes the invariant\<close>

lemma resources_loop_valid:
  assumes "sxml_document X chain matches"
  shows "Is_Valid_Resources X rs \<Longrightarrow> Is_Valid_Resources X (resources_loop X st rs)"
  using sxml_document.named_open [OF assms] by (induction X st rs rule: resources_loop.induct) (auto simp: Is_Valid_Resources_def Let_def)

lemma start_component_inv:
  assumes "broker_inv X s" and "sx_ok X query" and "sx_is_open X query"
  shows "case result (start_component E X s i query) w of (s', r) \<Rightarrow>
    (case r of None \<Rightarrow> broker_inv X s' | Some (Parent s'') \<Rightarrow> broker_inv X s'' | Some (Child _ _ _) \<Rightarrow> True)"
  using assms
  by (auto simp: start_component_def case_prod_beta Let_def component_inv_def set_component_at_set component_at_set_same
      intro!: broker_inv_set split: attribute_result.splits)

lemma start_loop_inv:
  "broker_inv X s \<Longrightarrow> (case result (start_loop E X n s i query) w of Parent s' \<Rightarrow> broker_inv X s' | Child _ _ _ \<Rightarrow> True)"
proof (induction n arbitrary: s i query w)
  case (Suc n)
  let ?q = "sx_find_sibling_by_name X query ''component''"
  show ?case
  proof (cases "sx_ok X query \<and> sx_ok X ?q \<and> sx_is_open X ?q")
    case True
    obtain s' r w' where r: "run_state (start_component E X s i ?q) w = ((s', r), w')"
      by (metis prod.exhaust)
    with start_component_inv [OF Suc.prems, of ?q E i w] True
    have "case r of None \<Rightarrow> broker_inv X s' | Some (Parent s'') \<Rightarrow> broker_inv X s'' | Some (Child _ _ _) \<Rightarrow> True" by simp
    with True r Suc.IH [of s' "i + 1" "sx_sibling X ?q" w'] show ?thesis
      by (auto simp: Let_def split: option.splits)
  qed (use Suc.prems in \<open>auto simp: Let_def\<close>)
qed simp

lemma Construct_broker_inv:
  assumes "sxml_document X chain matches" and "result (Construct_broker E X n) w = Some (Parent s)"
  shows "broker_inv X s"
proof -
  have init: "broker_inv X (initial_broker X n efd)" if "0 \<le> efd" for efd
    unfolding broker_inv_components Parse_Resources_def initial_broker_def broker_state.simps
    using that by (intro conjI resources_loop_valid [OF assms(1)])
      (simp_all add: component_inv_def service_paired_def Is_Valid_Resources_def)
  obtain efd w1 where "0 \<le> efd"
    and "result (start_loop E X n (initial_broker X n efd) 1 (sx_path X (sx_init X) ''/config/component'')) w1 = Parent s"
    using assms(2)
    by (auto simp: Construct_broker_def Start_Components_def case_prod_beta initial_broker_def split: if_splits)
  with start_loop_inv [OF init, of efd E n 1 "sx_path X (sx_init X) ''/config/component''" w1] show ?thesis
    by simp
qed

lemma broker_runs_inv: "broker_runs E X s w s' w' \<Longrightarrow> broker_inv X s \<Longrightarrow> broker_inv X s'"
proof (induction rule: broker_runs.induct)
  case (step s1 w1 s2 w2)
  then show ?case using Event_Step_inv [of X s1 E w1] by simp
qed simp

subsection \<open>Properties\<close>


text \<open>A system of two components, its boot in the broker and in the second component.\<close>

definition boot_document :: "xml list sxml" where
  "boot_document = xml_sxml [Element ''config'' [] sample_config]"

definition boot_world :: "int list \<Rightarrow> sim" where
  "boot_world pids = sim_init\<lparr>sim_pids := pids, sim_events := [\<lparr>ev_events = 1, ev_data = data_of_fd 4\<rparr>]\<rparr>"

lemma boot_parent:
  obtains s w1 where "run_state (Construct_broker clean_env boot_document 3) (boot_world [20, 21]) = (Some (Parent s), w1)"
proof -
  have "(case result (Construct_broker clean_env boot_document 3) (boot_world [20, 21]) of Some (Parent _) \<Rightarrow> True | _ \<Rightarrow> False)"
    by code_simp
  then show ?thesis using that
    by (cases "run_state (Construct_broker clean_env boot_document 3) (boot_world [20, 21])")
      (auto split: option.splits startup.splits)
qed


end
