(* ===== verification/Linux_Broker_Fds.thy ===== *)
theory Linux_Broker_Fds
  imports Linux_Broker_Main
begin

text \<open>
  The descriptors of the broker. Its state holds an epoll descriptor, one socket for each
  component and a pair of sockets for each service; the theory shows that these stay
  open and different from each other, so that the descriptor an event or a message arrives on
  identifies the component it belongs to.
\<close>

subsection \<open>Variables that own descriptors\<close>

text \<open>A family of variables \<open>f\<close>: the valid ones are different and open.\<close>

definition owned :: "('k \<Rightarrow> fd) \<Rightarrow> fd set" where
  "owned f = f ` {x. Valid (f x)}"

definition owning :: "('k \<Rightarrow> fd) \<Rightarrow> fd set \<Rightarrow> bool" where
  "owning f S \<longleftrightarrow> inj_on f {x. Valid (f x)} \<and> owned f \<subseteq> S"

lemma owning_mono: "owning f S \<Longrightarrow> S \<subseteq> T \<Longrightarrow> owning f T"
  by (auto simp: owning_def)

lemma owning_fresh: "owning f S \<Longrightarrow> d \<notin> S \<Longrightarrow> owning (f(x := d)) (insert d S)"
  by (auto simp: owning_def owned_def inj_on_def image_iff subset_iff)

lemma owned_invalid: "\<not> Valid d \<Longrightarrow> \<not> Valid (f x) \<Longrightarrow> owned (f(x := d)) = owned f"
  by (auto simp: owned_def image_iff)

lemma owning_invalid: "owning f S \<Longrightarrow> \<not> Valid d \<Longrightarrow> owning (f(x := d)) S"
  by (auto simp: owning_def owned_def inj_on_def image_iff subset_iff)

lemma owning_close: "owning f S \<Longrightarrow> \<not> Valid d \<Longrightarrow> owning (f(x := d)) (S - {f x})"
  by (auto simp: owning_def owned_def inj_on_def image_iff subset_iff)

lemma owned_valid: "Valid d \<Longrightarrow> \<not> Valid (f x) \<Longrightarrow> owned (f(x := d)) = insert d (owned f)"
  by (auto simp: owned_def image_iff)

lemma owned_close: "owning f S \<Longrightarrow> \<not> Valid d \<Longrightarrow> owned (f(x := d)) = owned f - {f x}"
  by (auto simp: owning_def owned_def inj_on_def image_iff)

lemma owning_keep: "owning f S \<Longrightarrow> owned f \<subseteq> T \<Longrightarrow> owning f T"
  by (simp add: owning_def)

lemma owned_Valid: "d \<in> owned f \<Longrightarrow> Valid d"
  by (auto simp: owned_def)

subsection \<open>The variables of the broker\<close>

datatype slot = Epoll_Slot | Fd_Slot nat | Broker_Slot nat kind_type | Disp_Slot nat kind_type

fun slot_fd :: "'n broker_state \<Rightarrow> slot \<Rightarrow> fd" where
  "slot_fd s Epoll_Slot = br_Epoll_Fd s"
| "slot_fd s (Fd_Slot i) = (if in_range s (int i) then cd_Fd (component_at s i) else -1)"
| "slot_fd s (Broker_Slot i k) = (if in_range s (int i) then se_Broker (cd_Serv (component_at s i) k) else -1)"
| "slot_fd s (Disp_Slot i k) = (if in_range s (int i) then se_Disp (cd_Serv (component_at s i) k) else -1)"

lemma in_range_inj: "j - Suc 0 = i - Suc 0 \<Longrightarrow> in_range s (int j) \<Longrightarrow> in_range s (int i) \<Longrightarrow> j = i"
  by (auto simp: in_range_def)

lemma slot_fd_serv:
  assumes "in_range s (int i)"
  shows "slot_fd (set_component_at i ((component_at s i)\<lparr>cd_Serv := (cd_Serv (component_at s i))(kind := e)\<rparr>) s) =
    (slot_fd s)(Broker_Slot i kind := se_Broker e, Disp_Slot i kind := se_Disp e)"
proof
  fix sl
  show "slot_fd (set_component_at i ((component_at s i)\<lparr>cd_Serv := (cd_Serv (component_at s i))(kind := e)\<rparr>) s) sl =
    ((slot_fd s)(Broker_Slot i kind := se_Broker e, Disp_Slot i kind := se_Disp e)) sl"
    using assms by (cases sl) (auto dest: in_range_inj)
qed

lemma slot_fd_set:
  assumes "in_range s (int i)" and "cd_Serv c = cd_Serv (component_at s i)"
  shows "slot_fd (set_component_at i c s) = (slot_fd s)(Fd_Slot i := cd_Fd c)"
proof
  fix sl
  show "slot_fd (set_component_at i c s) sl = ((slot_fd s)(Fd_Slot i := cd_Fd c)) sl"
    using assms by (cases sl) (auto dest: in_range_inj)
qed

lemma slot_fd_epoll: "slot_fd (s\<lparr>br_Epoll_Fd := d\<rparr>) = (slot_fd s)(Epoll_Slot := d)"
proof
  fix sl
  show "slot_fd (s\<lparr>br_Epoll_Fd := d\<rparr>) sl = ((slot_fd s)(Epoll_Slot := d)) sl"
    by (cases sl) (simp_all add: in_range_def component_at_def)
qed

lemma set_component_at_same [simp]: "set_component_at i (component_at s i) s = s"
  by (cases "i - 1 < length (br_Components s)") (simp_all add: set_component_at_def component_at_def list_update_beyond)

lemma component_in_range: "in_range s (int i) \<Longrightarrow> component_at s i \<in> set (br_Components s)"
  unfolding component_at_def in_range_def by (intro nth_mem) linarith

lemma broker_inv_paired: "broker_inv X s \<Longrightarrow> in_range s (int i) \<Longrightarrow> service_paired (cd_Serv (component_at s i) k)"
  using component_in_range by (fastforce simp: broker_inv_def)

lemma same_range_length: "in_range s' = in_range s \<Longrightarrow> length (br_Components s') = length (br_Components s)"
proof -
  assume r: "in_range s' = in_range s"
  have "(1 \<le> k \<and> k \<le> int (length (br_Components s'))) = (1 \<le> k \<and> k \<le> int (length (br_Components s)))" for k
    using fun_cong [OF r, of k] by (simp add: in_range_def)
  from this [of "int (length (br_Components s'))"] this [of "int (length (br_Components s))"] show ?thesis by auto
qed

text \<open>Without services, the state owns the sockets of the components and the epoll descriptor.\<close>

lemma owned_slots:
  assumes "\<And>j k. \<not> Valid (slot_fd s (Broker_Slot j k)) \<and> \<not> Valid (slot_fd s (Disp_Slot j k))" and "\<not> Valid (slot_fd s Epoll_Slot)"
  shows "owned (slot_fd s) = {e \<in> cd_Fd ` set (br_Components s). 0 \<le> e}"
proof (intro set_eqI iffI)
  fix e
  assume "e \<in> owned (slot_fd s)"
  then obtain sl where sl: "e = slot_fd s sl" "Valid (slot_fd s sl)" by (auto simp: owned_def)
  with assms obtain i where "sl = Fd_Slot i" by (cases sl) auto
  with sl have "in_range s (int i)" "e = cd_Fd (component_at s i)" "0 \<le> e" by (auto split: if_splits)
  then show "e \<in> {e \<in> cd_Fd ` set (br_Components s). 0 \<le> e}"
    using component_in_range by auto
next
  fix e
  assume "e \<in> {e \<in> cd_Fd ` set (br_Components s). 0 \<le> e}"
  then obtain j where "j < length (br_Components s)" "e = cd_Fd (br_Components s ! j)" "0 \<le> e"
    by (auto simp: in_set_conv_nth)
  then have "e = slot_fd s (Fd_Slot (Suc j))" "Valid e" by (auto simp: in_range_def component_at_def)
  then show "e \<in> owned (slot_fd s)" unfolding owned_def by blast
qed

subsection \<open>Operations keep the descriptors apart\<close>

context linux_receiver
begin

abbreviation fds_ok :: "'n broker_state \<Rightarrow> 'w \<Rightarrow> bool" where
  "fds_ok s w \<equiv> owning (slot_fd s) (fds w)"

lemma output_keeps [keeps_intros]:
  "keeps fds (Print_Info E m)" "keeps fds (Print_Warning E m)" "keeps fds (Print_Error E m)"
  unfolding Print_Info_def Print_Warning_def Print_Error_def gneiss_fputs_def by (intro keeps_intros)+

lemma send_keeps [keeps_intros]:
  "keeps fds (Send_Reject E d k label)" "keeps fds (Send_Confirm E d k label ds)" "keeps fds (Send_Request E d k name label ds)"
  unfolding Send_Reject_def Send_Confirm_def Send_Request_def Packet_Send_def by (intro keeps_intros)+

lemma calls_keep [keeps_intros]:
  "keeps fds (Epoll_Add (le_posix E) efd d x)" "keeps fds (Epoll_Remove (le_posix E) efd d)"
  "keeps fds (Epoll_Wait (le_posix E) efd)" "keeps fds (gneiss_waitpid (le_posix E) pid st)"
  "keeps fds (gneiss_fork (le_posix E))"
  unfolding Epoll_Add_def gneiss_epoll_add_fd_def gneiss_epoll_add_def Epoll_Remove_def gneiss_epoll_remove_def
    Epoll_Wait_def gneiss_epoll_wait_fd_def gneiss_epoll_wait_def gneiss_waitpid_def gneiss_fork_def
  by (intro keeps_intros)+

lemma setup_component_fds:
  assumes "fds_ok s w" and "in_range s (int i)" and "service_paired (cd_Serv (component_at s i) kind)"
  shows "wp (setup_component E s i kind) (\<lambda>(s', ok) w'. fds_ok s' w' \<and> fds w \<subseteq> fds w' \<and>
    (\<not> ok \<longrightarrow> owned (slot_fd s') = owned (slot_fd s))) w"
proof (cases "Valid (se_Broker (cd_Serv (component_at s i) kind))")
  case True
  with assms show ?thesis
    by (simp add: setup_component_def Setup_Service_def service_paired_def wp_simps)
next
  case False
  with assms(3) have inv: "\<not> Valid (slot_fd s (Broker_Slot i kind))" "\<not> Valid (slot_fd s (Disp_Slot i kind))"
    by (simp_all add: service_paired_def)
  let ?s = "\<lambda>b d. set_component_at i ((component_at s i)\<lparr>cd_Serv := (cd_Serv (component_at s i))
    (kind := \<lparr>se_Broker = b, se_Disp = d\<rparr>)\<rparr>) s"
  have gone: "fds_ok (?s b d) w' \<and> owned (slot_fd (?s b d)) = owned (slot_fd s)"
    if "\<not> Valid b" "\<not> Valid d" "fds w' = fds w" for b d w'
    using that inv assms(1) unfolding slot_fd_serv [OF assms(2)] by (simp add: owning_invalid owned_invalid)
  have both: "fds_ok (?s a b) w'" if "a \<noteq> b" "a \<notin> fds w" "b \<notin> fds w" "fds w' = {a, b} \<union> fds w" for a b w'
  proof -
    have "owning ((slot_fd s)(Broker_Slot i kind := a, Disp_Slot i kind := b)) (insert b (insert a (fds w)))"
      using that assms(1) by (intro owning_fresh) auto
    with that(4) show ?thesis unfolding slot_fd_serv [OF assms(2)] by (simp add: insert_commute)
  qed
  note quiet = keeps_wpI [OF output_keeps(3)] keeps_wpI [OF calls_keep(1)]
  show ?thesis
    unfolding setup_component_def Setup_Service_def wp_simps
    using False gone both
    by (auto intro!: pf.wp_pair pf.wp_cl quiet simp: wp_simps)
qed

text \<open>Reserving descriptors for a session leaves those of the broker open and returns others.\<close>

definition apart :: "fd set \<Rightarrow> fd list \<Rightarrow> 'w \<Rightarrow> bool" where
  "apart D ds w \<longleftrightarrow> D \<subseteq> fds w \<and> D \<inter> set ds = {}"

lemma reserve_apart:
  assumes "D \<subseteq> fds w" and "\<And>d. d \<in> D \<Longrightarrow> Valid d"
  shows "wp (Process_Message_Request E) (\<lambda>(ds, _) w'. apart D ds w') w"
    and "ds_in \<noteq> [] \<Longrightarrow> D \<inter> set ds_in = {} \<Longrightarrow> wp (Process_Memory_Request E ds_in) (\<lambda>(ds, _) w'. apart D ds w') w"
proof -
  have neg: "d \<notin> D" if "d < 0" for d using assms(2) that by fastforce
  show "wp (Process_Message_Request E) (\<lambda>(ds, _) w'. apart D ds w') w"
    unfolding Process_Message_Request_def wp_simps
    using assms(1) neg by (auto intro!: pf.wp_pair pf.wp_cl simp: wp_simps apart_def)
  assume "ds_in \<noteq> []" and "D \<inter> set ds_in = {}"
  then have "ds_in ! 0 \<notin> D" by (cases ds_in) auto
  then show "wp (Process_Memory_Request E ds_in) (\<lambda>(ds, _) w'. apart D ds w') w"
    unfolding Process_Memory_Request_def wp_simps
    using assms(1) neg
    by (auto intro!: keeps_wpI [OF gneiss_memfd_seal_keeps] pf.wp_pair pf.wp_cl simp: wp_simps apart_def)
qed

lemma forward_request_fds:
  assumes "fds_ok s w" and "broker_inv X s" and "wp reserve (\<lambda>(ds, _) w'. apart (owned (slot_fd s)) ds w') w"
  shows "wp (forward_request E s source dest kind name label reserve n) fds_ok w"
proof (cases "in_range s dest")
  case True
  then have dest: "in_range s (int (nat dest))" by (simp add: in_range_def)
  with assms(2) have paired: "service_paired (cd_Serv (component_at s (nat dest)) kind)"
    by (rule broker_inv_paired)
  show ?thesis
    unfolding forward_request_def wp_simps if_not_P [OF not_not [THEN iffD2, OF True]]
  proof (rule wp_mono [OF assms(3)], goal_cases)
    case (1 r w1)
    then obtain ds ok where r: "r = (ds, ok)" and ap: "apart (owned (slot_fd s)) ds w1" by (cases r) auto
    then have ok1: "fds_ok s w1" using assms(1) by (auto simp: apart_def intro: owning_keep)
    have rej: "wp (Send_Reject E d kind label) (\<lambda>_. fds_ok s) w1" for d
      by (rule keeps_wpI [OF send_keeps(1)]) (use ok1 in simp)
    have srv: "wp (setup_component E s (nat dest) kind) (\<lambda>(s, ok).
        if ok then wp (Send_Request E (se_Broker (cd_Serv (component_at s (nat dest)) kind)) kind name label (take n ds)) (\<lambda>_. fds_ok s)
        else wp (traverse_list (gneiss_close (le_posix E)) ds)
          (\<lambda>_. wp (Send_Reject E (cd_Fd (component_at s source)) kind label) (\<lambda>_. fds_ok s))) w1"
    proof (rule wp_mono [OF setup_component_fds [OF ok1 dest paired]], goal_cases)
      case (1 x w2)
      then obtain s2 ok2 where x: "x = (s2, ok2)" and s2: "fds_ok s2 w2" "\<not> ok2 \<Longrightarrow> owned (slot_fd s2) = owned (slot_fd s)"
        "fds w1 \<subseteq> fds w2" by (cases x) auto
      have close: "fds_ok s2 w3" if "\<not> ok2" "fds w3 = fds w2 - {d \<in> set ds. 0 \<le> d}" for w3
        using s2(1) by (rule owning_keep) (use that s2 ap in \<open>auto simp: apart_def\<close>)
      show ?case
        unfolding x prod.case
        using s2(1) close
        by (cases ok2) (auto intro!: keeps_wpI [OF send_keeps(3)] wp_mono [OF pf.wp_close_all] keeps_wpI [OF send_keeps(1)])
    qed
    show ?case
      by (cases ok) (use rej r in \<open>auto simp: wp_simps intro!: wp_mono [OF srv] split: if_splits\<close>)
  qed
qed (use assms(1) in \<open>auto simp: forward_request_def wp_simps intro!: keeps_wpI [OF send_keeps(1)]\<close>)

lemma confirm_or_reject_fds: "fds_ok s w \<Longrightarrow> wp (confirm_or_reject E s source kind label r) fds_ok w"
  unfolding confirm_or_reject_def wp_simps
  by (auto intro!: keeps_wpI [OF send_keeps(1)] keeps_wpI [OF send_keeps(2)])

lemma opens_one_fds: "fds_ok s w \<Longrightarrow> opens_one fds m \<Longrightarrow> (\<And>r w'. fds_ok s w' \<Longrightarrow> Q r w') \<Longrightarrow> wp m Q w"
  by (erule wp_opens_one) (auto intro: owning_mono)

lemma Process_Kind_fds:
  assumes "fds_ok s w" and "broker_inv X s" and "owned (slot_fd s) \<inter> set ds = {}"
  shows "wp (Process_Kind E Y s source kind label ds serv dest name) fds_ok w"
proof -
  have sub: "owned (slot_fd s) \<subseteq> fds w" using assms(1) by (simp add: owning_def)
  note own = owned_Valid [of _ "slot_fd s"] and forward = forward_request_fds [OF assms(1,2)]
  show ?thesis
  proof (cases kind)
    case Memory
    with assms(1) forward reserve_apart(2) [OF sub own _ assms(3)] show ?thesis
      by (auto simp: Process_Kind_def wp_simps intro!: keeps_wpI [OF send_keeps(1)])
  next
    case Rom
    with assms(1) show ?thesis
      by (auto simp: Process_Kind_def Process_Rom_Request_def wp_simps split: option.splits
          intro!: keeps_wpI [OF output_keeps(2)] opens_one_fds [OF assms(1) gneiss_open_opens] confirm_or_reject_fds)
  next
    case Timer
    with assms(1) show ?thesis
      by (auto simp: Process_Kind_def Process_Timer_Request_def wp_simps
          intro!: opens_one_fds [OF assms(1) gneiss_timerfd_create_opens] confirm_or_reject_fds)
  qed (simp_all add: Process_Kind_def forward reserve_apart(1) [OF sub own])
qed

abbreviation result_ok :: "'n broker_state option \<Rightarrow> 'w \<Rightarrow> bool" where
  "result_ok r w \<equiv> pred_option (\<lambda>s. fds_ok s w) r"

lemma Process_Request_fds:
  assumes "fds_ok s w" and "broker_inv X s" and "owned (slot_fd s) \<inter> set ds = {}"
  shows "wp (Process_Request E Y s source kind label ds) result_ok w"
proof -
  have rej: "wp (reject_request E s source kind label why) result_ok w" for why
    unfolding reject_request_def wp_simps
    by (rule keeps_wpI [OF output_keeps(3)], rule keeps_wpI [OF send_keeps(1)]) (use assms(1) in simp)
  have warn: "wp (Print_Warning E m) (\<lambda>_. fds_ok s) w" for m
    by (rule keeps_wpI [OF output_keeps(2)]) (use assms(1) in simp)
  show ?thesis
    using rej warn Process_Kind_fds [OF assms]
    by (simp add: Process_Request_def wp_simps split: option.splits attribute_result.splits)
qed

lemma Process_Register_fds:
  assumes "fds_ok s w" and "broker_inv X s" and "in_range s (int source)"
  shows "wp (Process_Register E s source kind) fds_ok w"
  unfolding Process_Register_def wp_simps
proof (rule wp_mono [OF setup_component_fds [OF assms(1,3) broker_inv_paired [OF assms(2,3)]]], goal_cases)
  case (1 x w1)
  then show ?case by (auto split: prod.splits intro!: keeps_wpI [OF send_keeps(1)] keeps_wpI [OF send_keeps(2)])
qed

lemma replies_keep [keeps_intros]:
  "keeps fds (Process_Confirm E X s kind name label ds)" "keeps fds (Process_Reject E X s kind name label)"
  unfolding Process_Confirm_def Process_Reject_def by (intro keeps_intros)+

lemma Handle_Message_fds:
  assumes "fds_ok s w" and "broker_inv X s" and "in_range s (int source)" and "owned (slot_fd s) \<inter> set ds = {}"
  shows "wp (Handle_Message E Y s source action kind name label ds) result_ok w"
proof -
  have quiet: "wp m (\<lambda>_. fds_ok s) w" if "keeps fds m" for m :: "('w, unit) state"
    by (rule keeps_wpI [OF that]) (use assms(1) in simp)
  show ?thesis
    using Process_Request_fds [OF assms(1,2,4)] Process_Register_fds [OF assms(1-3)]
    by (cases action) (auto simp: Handle_Message_def wp_simps intro!: quiet replies_keep output_keeps)
qed

text \<open>What arrives with a message is new in this process.\<close>

lemma Read_Message_fds:
  assumes "fds_ok s w" and "broker_inv X s" and "in_range s (int i)"
  shows "wp (Read_Message E Y s i d) result_ok w"
  unfolding Read_Message_def wp_simps
proof (rule wp_mono [OF Packet_Receive_fds], goal_cases)
  case (1 r w1)
  then obtain m ds where r: "r = (m, ds)" "fds w \<subseteq> fds w1" "\<forall>e \<in> set ds. Valid e \<longrightarrow> e \<in> fds w1 - fds w" by (cases r) auto
  have ok: "fds_ok s w1" using assms(1) r(2) by (rule owning_mono)
  have new: "owned (slot_fd s) \<inter> set ds = {}"
    using r(3) assms(1) by (auto simp: owning_def dest: owned_Valid)
  have close: "fds_ok s w3" if "fds w3 = fds w2 - {d \<in> set ds. 0 \<le> d}" "fds w2 = fds w1" for w2 w3
    using ok by (rule owning_keep) (use that new ok in \<open>auto simp: owning_def\<close>)
  show ?case
  proof (cases m)
    case None
    with r close show ?thesis
      by (auto simp: wp_simps intro!: keeps_wpI [OF output_keeps(2)] wp_mono [OF pf.wp_close_all])
  next
    case (Some msg)
    with r Handle_Message_fds [OF ok assms(2,3) new] show ?thesis by simp
  qed
qed

lemma component_exited_fds:
  assumes "fds_ok s w" and "in_range s (int i)"
  shows "wp (component_exited E X s i name) fds_ok w"
proof -
  have gone: "fds_ok (set_component_at i ((component_at s i)\<lparr>cd_Fd := d, cd_Node := sx_init X, cd_Pid := - 1\<rparr>) s) w2"
    if "d < 0" "fds w2 = (if cd_Fd (component_at s i) < 0 then fds w else fds w - {cd_Fd (component_at s i)})" for d w2
    using that assms owning_close [OF assms(1), of d "Fd_Slot i"] owning_invalid [OF assms(1), of d "Fd_Slot i"]
    by (auto simp: slot_fd_set [OF assms(2)] split: if_splits)
  show ?thesis
    unfolding component_exited_def wp_simps
    by (rule keeps_wpI [OF calls_keep(4)], rule keeps_wpI [OF output_keeps(1)])
      (auto intro!: keeps_wpI [OF calls_keep(2)] pf.wp_cl gone simp: wp_simps)
qed

lemma Event_Step_fds:
  assumes "fds_ok s w" and "broker_inv X s"
  shows "wp (Event_Step E X s) result_ok w"
  unfolding Event_Step_def wp_simps
proof (rule keeps_wpI [OF calls_keep(3)], goal_cases)
  case (1 r w1)
  obtain ev d where r: "r = (ev, d)" by (cases r)
  let ?i = "Get_Dest s d"
  have ok: "fds_ok s w1" using 1 assms(1) by simp
  have exited: "wp (component_exited E X s' ?i name) fds_ok w2" if "fds_ok s' w2" "in_range s' (int ?i)" for s' w2 name
    by (rule component_exited_fds [OF that])
  have warn: "wp (Print_Warning E m) (\<lambda>_. fds_ok s) w1" for m
    by (rule keeps_wpI [OF output_keeps(2)]) (use ok in simp)
  have read: "wp (Read_Message E X s ?i d) (\<lambda>r w2. result_ok r w2 \<and> pred_option (\<lambda>s'. in_range s' = in_range s) r) w1"
    if "in_range s (int ?i)"
    by (rule wp_and [OF Read_Message_fds [OF ok assms(2) that]])
      (rule wp_run [THEN iffD2], rule same_range.Read_Message_kept, simp)
  show ?case
    unfolding r prod.case Let_def wp_simps
    using ok warn exited
    by (auto intro!: wp_mono [OF read] split: option.splits)
qed

text \<open>
  During start-up: besides the descriptors \<open>B\<close> that were open before, exactly those of the
  state are open; the slots from \<open>i\<close> on are free and there are no services yet.
\<close>

definition starting :: "fd set \<Rightarrow> nat \<Rightarrow> 'n broker_state \<Rightarrow> 'w \<Rightarrow> bool" where
  "starting B i s w \<longleftrightarrow> fds_ok s w \<and> fds w = B \<union> owned (slot_fd s) \<and> B \<inter> owned (slot_fd s) = {} \<and>
     (\<forall>j \<ge> i. \<not> Valid (slot_fd s (Fd_Slot j))) \<and>
     (\<forall>j k. \<not> Valid (slot_fd s (Broker_Slot j k)) \<and> \<not> Valid (slot_fd s (Disp_Slot j k)))"

text \<open>The new process before \<open>Load\<close>: its own socket \<open>d\<close> and the sockets of the components.\<close>

definition forked :: "fd set \<Rightarrow> 'n broker_state \<Rightarrow> fd \<Rightarrow> 'w \<Rightarrow> bool" where
  "forked B s d w \<longleftrightarrow> 0 \<le> d \<and> d \<notin> B \<and> d \<notin> owned (slot_fd s) \<and> B \<inter> owned (slot_fd s) = {} \<and>
     fds w = insert d (B \<union> owned (slot_fd s)) \<and> \<not> Valid (slot_fd s Epoll_Slot) \<and>
     (\<forall>j k. \<not> Valid (slot_fd s (Broker_Slot j k)) \<and> \<not> Valid (slot_fd s (Disp_Slot j k)))"

definition started :: "fd set \<Rightarrow> 'n startup \<Rightarrow> 'w \<Rightarrow> bool" where
  "started B r w \<longleftrightarrow> (case r of Parent s \<Rightarrow> fds_ok s w | Child s d _ \<Rightarrow> forked B s d w)"

lemma started_simps [simp]: "started B (Parent s) w = fds_ok s w" "started B (Child s d q) w = forked B s d w"
  by (simp_all add: started_def)

lemma startingD: "starting B i s w \<Longrightarrow> fds_ok s w"
  unfolding starting_def by blast

lemma start_component_fds:
  assumes "starting B i s w" and "in_range s (int i)"
  shows "wp (start_component E X s i query) (\<lambda>(s', r) w'. in_range s' = in_range s \<and>
    (case r of None \<Rightarrow> starting B (Suc i) s' w' | Some x \<Rightarrow> started B x w')) w"
proof (cases "sx_attribute X query ''name'' 255")
  case (Result_OK name)
  note st = assms(1) [unfolded starting_def]
  let ?s = "\<lambda>b. set_component_at i ((component_at s i)\<lparr>cd_Fd := b\<rparr>) s"
  have slots: "slot_fd (?s b) = (slot_fd s)(Fd_Slot i := b)" for b
    using slot_fd_set [OF assms(2), of "(component_at s i)\<lparr>cd_Fd := b\<rparr>"] by simp
  have none: "starting B (Suc i) (?s (-1)) w'" if "fds w' = fds w" for w'
    using st that unfolding starting_def slots by (auto simp: owning_invalid owned_invalid)
  have own: "owning ((slot_fd s)(Fd_Slot i := a)) (insert a (fds w))" "owned ((slot_fd s)(Fd_Slot i := a)) = insert a (owned (slot_fd s))"
    if "a \<notin> fds w" "0 \<le> a" for a
    using st that by (auto intro: owning_fresh simp: owned_valid)
  have failed: "owning (slot_fd (?s (-1))) (insert a (insert b (fds w)))" for a b
    unfolding slots by (rule owning_mono [OF owning_invalid]) (use st in auto)
  have parent: "starting B (Suc i) (set_component_at i ((component_at s i)\<lparr>cd_Fd := a, cd_Pid := pid, cd_Node := n\<rparr>) s) w'"
    if "0 \<le> a" "a \<notin> fds w" "fds w' = insert a (fds w)" for a n pid w'
  proof -
    have "slot_fd (set_component_at i ((component_at s i)\<lparr>cd_Fd := a, cd_Pid := pid, cd_Node := n\<rparr>) s) = (slot_fd s)(Fd_Slot i := a)"
      by (simp add: slot_fd_set [OF assms(2)])
    then show ?thesis
      using st that own [of a] unfolding starting_def by auto
  qed
  have child: "forked B ((?s a)\<lparr>br_Epoll_Fd := e\<rparr>) b w'"
    if "0 \<le> a" "0 \<le> b" "a \<noteq> b" "a \<notin> fds w" "b \<notin> fds w" "e < 0"
      "fds w' = (if br_Epoll_Fd s < 0 then {a, b} \<union> fds w else ({a, b} \<union> fds w) - {br_Epoll_Fd s})" for a b e w'
  proof -
    have owned: "owned ((slot_fd s)(Fd_Slot i := a, Epoll_Slot := e)) = insert a (owned (slot_fd s)) - {br_Epoll_Fd s}"
      using owned_close [OF own(1) [OF that(4,1)], of e Epoll_Slot] own(2) [OF that(4,1)] that(6) by simp
    have "br_Epoll_Fd s \<in> owned (slot_fd s)" if "\<not> br_Epoll_Fd s < 0"
      using that by (auto simp: owned_def image_iff intro!: exI [of _ Epoll_Slot])
    moreover have "br_Epoll_Fd s \<notin> owned (slot_fd s)" if "br_Epoll_Fd s < 0"
      using that owned_Valid by fastforce
    ultimately show ?thesis
      using st that unfolding forked_def slot_fd_epoll slots owned by (auto split: if_splits)
  qed
  have inv [simp]: "in_range ((?s a)\<lparr>br_Epoll_Fd := e\<rparr>) = in_range s" "in_range (set_component_at i c s) = in_range s" for a e c
    by (simp_all add: fun_eq_iff in_range_def set_component_at_def)
  show ?thesis
    unfolding start_component_def Result_OK attribute_result.case wp_simps Let_def
  proof (rule pf.wp_pair, goal_cases)
    case (1 w1)
    then show ?case by (simp add: wp_simps none)
  next
    case (2 a b w1)
    then have "component_at (?s a) i = (component_at s i)\<lparr>cd_Fd := a\<rparr>" "insert a (insert b (fds w)) - {b} = insert a (fds w)"
      using assms(2) by auto
    with 2 show ?case
      by (auto simp: wp_simps set_component_at_set started_def failed parent child
          intro!: keeps_wpI [OF calls_keep(1)] keeps_wpI [OF calls_keep(5)] keeps_wpI [OF output_keeps(3)] pf.wp_cl
            keeps_wpI [OF output_keeps(1)])
  qed
qed (use assms in \<open>auto simp: start_component_def wp_simps starting_def intro!: keeps_wpI [OF output_keeps(3)]\<close>)

lemma start_loop_fds:
  "starting B i s w \<Longrightarrow> 1 \<le> i \<Longrightarrow> i + n = length (br_Components s) + 1 \<Longrightarrow> wp (start_loop E X n s i query) (started B) w"
proof (induction n arbitrary: s i query w)
  case 0
  then show ?case by (simp add: wp_simps startingD)
next
  case (Suc n)
  let ?q = "sx_find_sibling_by_name X query ''component''"
  have i: "in_range s (int i)" using Suc.prems by (simp add: in_range_def)
  have "wp (start_component E X s i ?q) (\<lambda>(s, r). wp (case r of Some r \<Rightarrow> ret r
      | None \<Rightarrow> start_loop E X n s (Suc i) (sx_sibling X ?q)) (started B)) w"
  proof (rule wp_mono [OF start_component_fds [OF Suc.prems(1) i]], goal_cases)
    case (1 x w1)
    obtain s' r where x: "x = (s', r)" by (cases x)
    have "length (br_Components s') = length (br_Components s)"
      using 1 x same_range_length by auto
    with 1 x Suc.IH [of "Suc i" s' w1] Suc.prems show ?case
      by (auto simp: wp_simps split: option.splits)
  qed
  with Suc.prems(1) show ?case
    by (simp add: wp_simps Let_def startingD)
qed

lemma initial_broker_starting:
  assumes "0 \<le> efd" and "efd \<notin> fds w" and "fds w' = insert efd (fds w)"
  shows "starting (fds w) 1 (initial_broker X n efd) w'"
proof -
  have nth: "component_at (initial_broker X n efd) i = \<lparr>cd_Fd = -1, cd_Node = sx_initial X, cd_Pid = -1,
       cd_Serv = (\<lambda>_. \<lparr>se_Broker = -1, se_Disp = -1\<rparr>)\<rparr>" if "in_range (initial_broker X n efd) (int i)" for i
    using that unfolding initial_broker_def component_at_def in_range_def broker_state.simps
    by (intro nth_replicate) (simp, linarith)
  have "slot_fd (initial_broker X n efd) sl = (if sl = Epoll_Slot then efd else -1)" for sl
    by (cases sl) (auto simp: nth, simp add: initial_broker_def)
  then have "slot_fd (initial_broker X n efd) = (\<lambda>sl. if sl = Epoll_Slot then efd else -1)" by blast
  with assms show ?thesis
    by (auto simp: starting_def owning_def owned_def inj_on_def split: if_splits)
qed

lemma Construct_broker_fds:
  "wp (Construct_broker E X n) (\<lambda>r w'. pred_option (\<lambda>x. started (fds w) x w') r) w"
proof -
  have init: "wp (Start_Components E X (initial_broker X n efd) (sx_init X)) (\<lambda>r w''. started (fds w) r w'') w'"
    if "0 \<le> efd" "efd \<notin> fds w" "fds w' = insert efd (fds w)" for efd w'
    using start_loop_fds [OF initial_broker_starting [OF that, of X n], of n X "sx_path X (sx_init X) ''/config/component''"]
    by (simp add: Start_Components_def initial_broker_def)
  show ?thesis
  proof (cases "sx_is_open X (sx_init X)")
    case True
    then show ?thesis
      unfolding Construct_broker_def if_not_P [OF not_not [THEN iffD2, OF True]] wp_simps
      by (intro wp_opens_one [OF gneiss_epoll_create_opens]) (simp_all add: init)
  next
    case False
    then show ?thesis
      unfolding Construct_broker_def if_P [OF False] wp_simps by (intro keeps_wpI [OF output_keeps(3)]) simp
  qed
qed

lemma Construct_broker_ok:
  assumes "sxml_document X chain matches" and "run_state (Construct_broker E X n) w = (Some (Parent s), w1)"
  shows "broker_inv X s" "fds_ok s w1"
  using Construct_broker_inv [OF assms(1), of E n w s] Construct_broker_fds [of X n w] assms(2) by (simp_all add: wp_run)

lemma traverse_list_map: "traverse_list (\<lambda>x. f (g x)) xs = traverse_list f (map g xs)"
  by (induction xs) auto

lemma Load_prepare_fds:
  assumes "forked B s d w"
  shows "wp (Load_prepare E X s query) (\<lambda>_ w'. fds w' = insert d B) w"
proof -
  have own: "owned (slot_fd s) = {e \<in> cd_Fd ` set (br_Components s). 0 \<le> e}"
    using assms unfolding forked_def by (intro owned_slots) blast+
  have gone: "fds w' = insert d B" if "fds w' = fds w - {e \<in> set (map cd_Fd (br_Components s)). 0 \<le> e}" for w'
  proof -
    have "fds w' = fds w - owned (slot_fd s)" using that own by simp
    with assms show ?thesis unfolding forked_def by blast
  qed
  show ?thesis
    unfolding Load_prepare_def wp_simps traverse_list_map Let_def
  proof (rule wp_mono [OF pf.wp_close_all], goal_cases)
    case (1 r w1)
    then have w1: "fds w1 = insert d B" using gone by blast
    have "wp (Print_Error E m) (\<lambda>_ w'. fds w' = insert d B) w1" for m
      by (rule keeps_wpI [OF output_keeps(3)]) (use w1 in simp)
    with w1 show ?case by (simp add: wp_simps)
  qed
qed

end

subsection \<open>Finding the component of a descriptor\<close>

definition belongs :: "fd \<Rightarrow> 'n component_definition \<Rightarrow> bool" where
  "belongs d c \<longleftrightarrow> cd_Fd c = d \<or> (\<exists>k. se_Broker (cd_Serv c k) = d)"

lemma dest_loop_first:
  "j < length cs \<Longrightarrow> belongs d (cs ! j) \<Longrightarrow> (\<And>j'. j' < j \<Longrightarrow> \<not> belongs d (cs ! j')) \<Longrightarrow> dest_loop d k cs = k + j"
proof (induction cs arbitrary: j k)
  case (Cons c cs)
  show ?case
  proof (cases j)
    case (Suc j')
    have "\<not> belongs d c" using Cons.prems(3) [of 0] Suc by simp
    moreover have "dest_loop d (k + 1) cs = k + 1 + j'"
      using Cons.prems Suc Cons.prems(3) [of "Suc _"] by (intro Cons.IH) auto
    ultimately show ?thesis using Suc by (simp add: belongs_def)
  qed (use Cons.prems in \<open>simp add: belongs_def\<close>)
qed simp

lemma dest_loop_hit: "dest_loop d (Suc k) cs = i \<Longrightarrow> i \<noteq> 0 \<Longrightarrow> Suc k \<le> i \<and> i - Suc k < length cs \<and> belongs d (cs ! (i - Suc k))"
proof (induction cs arbitrary: k)
  case (Cons c cs)
  show ?case
  proof (cases "belongs d c")
    case False
    with Cons.prems have "dest_loop d (Suc (Suc k)) cs = i" by (simp add: belongs_def)
    from Cons.IH [OF this Cons.prems(2)] have "Suc (Suc k) \<le> i" "i - Suc (Suc k) < length cs" "belongs d (cs ! (i - Suc (Suc k)))"
      by auto
    then show ?thesis by (auto simp: Suc_diff_Suc [symmetric] nth_Cons')
  qed (use Cons.prems in \<open>auto simp: belongs_def\<close>)
qed simp

lemma Get_Dest_belongs:
  assumes "owning (slot_fd s) S" and "Valid d" and "in_range s (int i)"
  shows "Get_Dest s d = i \<longleftrightarrow> belongs d (component_at s i)"
proof
  assume "Get_Dest s d = i"
  with assms dest_loop_hit [of d 0 "br_Components s" i] show "belongs d (component_at s i)"
    by (simp add: Get_Dest_def component_at_def in_range_def split: if_splits)
next
  assume i: "belongs d (component_at s i)"
  have slot: "\<exists>sl. slot_fd s sl = d \<and> (sl = Fd_Slot j \<or> (\<exists>k. sl = Broker_Slot j k))"
    if "belongs d (component_at s j)" "in_range s (int j)" for j
  proof (cases "cd_Fd (component_at s j) = d")
    case True
    with that(2) show ?thesis by (intro exI [of _ "Fd_Slot j"]) simp
  next
    case False
    with that(1) obtain k where "se_Broker (cd_Serv (component_at s j) k) = d" by (auto simp: belongs_def)
    with that(2) show ?thesis by (intro exI [of _ "Broker_Slot j k"]) simp
  qed
  have uniq: "j = i" if "belongs d (component_at s j)" "in_range s (int j)" for j
  proof -
    note both = slot [OF that] slot [OF i assms(3)]
    obtain sl sl' where sl: "slot_fd s sl = d" "sl = Fd_Slot j \<or> (\<exists>k. sl = Broker_Slot j k)"
      and sl': "slot_fd s sl' = d" "sl' = Fd_Slot i \<or> (\<exists>k. sl' = Broker_Slot i k)"
      using both by blast
    have "sl = sl'" using assms(1,2) sl(1) sl'(1) unfolding owning_def by (auto dest: inj_onD)
    with sl(2) sl'(2) show ?thesis by auto
  qed
  have "dest_loop d 1 (br_Components s) = 1 + (i - 1)"
  proof (rule dest_loop_first)
    show "i - 1 < length (br_Components s)" using assms(3) by (auto simp: in_range_def)
    show "belongs d (br_Components s ! (i - 1))" using i by (simp add: component_at_def)
    fix j assume "j < i - 1"
    then have "in_range s (int (Suc j))" "Suc j \<noteq> i" using assms(3) by (auto simp: in_range_def)
    with uniq [of "Suc j"] show "\<not> belongs d (br_Components s ! j)"
      by (auto simp: component_at_def)
  qed
  with assms(2,3) show "Get_Dest s d = i" by (simp add: Get_Dest_def in_range_def)
qed

subsection \<open>Properties\<close>


text \<open>
  A component starts with nothing of the broker's. In the process that the broker forks for a component,
  when \<open>Load\<close> comes to the component's file, the open descriptors are those that were open before
  the broker started and the component's own socket, which is new; the epoll descriptor and the sockets of
  all components that were started before are closed.
\<close>

theorem broker_child_isolated:
  assumes "linux_fds (le_posix E) fds" and "\<forall>x \<in> set (le_control E). \<not> Valid x"
    and "run_state (Construct_broker E X n) w = (Some (Child s d query), w1)"
  shows "wp (Load_prepare E X s query) (\<lambda>_ w2. fds w2 = insert d (fds w) \<and> d \<notin> fds w) w1"
proof -
  have kernel: "linux_receiver E fds"
    using assms(1,2) by (simp add: linux_receiver_def linux_receiver_axioms_def)
  have forked: "linux_receiver.forked fds (fds w) s d w1"
    using linux_receiver.Construct_broker_fds [OF kernel, of X n w] assms(3)
    by (simp add: wp_run linux_receiver.started_simps [OF kernel])
  then have "d \<notin> fds w" by (simp add: linux_receiver.forked_def [OF kernel])
  with linux_receiver.Load_prepare_fds [OF kernel forked] show ?thesis by (auto elim: wp_mono)
qed

lemma boot_laws:
  "linux_fds (le_posix clean_env) sim_fdset" "\<forall>x \<in> set (le_control clean_env). \<not> Valid x"
  "sxml_document boot_document xml_chain xml_matches"
  using sim_fds.linux_fds_axioms xml.sxml_document_axioms by (simp_all add: clean_env_def boot_document_def)

text \<open>The reference kernel with a clean control buffer satisfies the assumptions of the locale.\<close>

interpretation sim_kernel: linux_receiver clean_env sim_fdset
  using boot_laws(1,2) by (simp add: linux_receiver_def linux_receiver_axioms_def)


theorem broker_child_isolated_witness:
  "\<exists>s d query w1. run_state (Construct_broker clean_env boot_document 3) (boot_world [20, 0]) = (Some (Child s d query), w1) \<and>
     wp (Load_prepare clean_env boot_document s query) (\<lambda>_ w2. sim_fdset w2 = insert d {0, 1, 2} \<and> d \<notin> {0, 1, 2}) w1"
proof -
  have "(case result (Construct_broker clean_env boot_document 3) (boot_world [20, 0]) of Some (Child _ _ _) \<Rightarrow> True | _ \<Rightarrow> False)"
    by code_simp
  then obtain s d query w1
    where c: "run_state (Construct_broker clean_env boot_document 3) (boot_world [20, 0]) = (Some (Child s d query), w1)"
    by (cases "run_state (Construct_broker clean_env boot_document 3) (boot_world [20, 0])")
      (auto split: option.splits startup.splits)
  have "sim_fdset (boot_world [20, 0]) = {0, 1, 2}" by (simp add: boot_world_def sim_init_def)
  with broker_child_isolated [OF boot_laws(1,2) c] c show ?thesis by auto
qed

text \<open>
  A finding: with leftover numbers in the control buffer the broker closes its own
  sockets. A message that is not valid and carries one descriptor makes \<open>Read_Message\<close> close
  the descriptors that \<open>read_message\<close> copied from behind the delivered one; here number 5, the
  socket of the second component.
\<close>

theorem Read_Message_closes_foreign:
  "5 \<in> sim_fdset (sample_world\<lparr>sim_queue := [(3, [9], [0])]\<rparr>) \<and>
   5 \<notin> sim_fdset (final (Read_Message (sim_env\<lparr>le_control := [8, 5, -1, -1]\<rparr>) (xml_sxml sample_config) sample_broker 1 3)
     (sample_world\<lparr>sim_queue := [(3, [9], [0])]\<rparr>))"
  by code_simp

end
