(* ===== verification/Linux_Config.thy ===== *)
theory Linux_Config
  imports Linux_Broker_Fds Linux_Buffers
begin

text \<open>
  The configuration of the broker: \<open>gneiss-config.adb\<close>, which maps the file, \<open>Parse\<close> of \<open>gneiss-broker-startup.adb\<close>, and the
  main program \<open>main.adb\<close>. The parser of SXML, a submodule, is the parameter \<open>P\<close>; a document of type
  \<open>'d\<close> is queried through \<open>view\<close>.
\<close>

datatype match_type = Match_OK | Match_None | Match_Invalid | Match_Out_Of_Memory | Match_None_Wellformed
  | Match_Trailing_Data | Match_Depth_Limit

record 'd sxml_parser =
  sp_valid_content :: "int \<Rightarrow> int \<Rightarrow> bool"
  sp_parse :: "string \<Rightarrow> 'd \<Rightarrow> 'd \<times> match_type"

definition report_match :: "'w linux_env \<Rightarrow> match_type \<Rightarrow> ('w, unit) state" where
  "report_match E m = (case m of
       Match_OK \<Rightarrow> Print_Error E ''XML document parsed successfully''
     | Match_None \<Rightarrow> Print_Error E ''No XML data found''
     | Match_Invalid \<Rightarrow> Print_Error E ''Malformed XML data found''
     | Match_Out_Of_Memory \<Rightarrow> Print_Error E ''Out of context buffer memory''
     | Match_None_Wellformed \<Rightarrow> Print_Error E ''Document is not wellformed''
     | Match_Trailing_Data \<Rightarrow> Print_Warning E ''Document successful parsed, but there is trailing data after it''
     | Match_Depth_Limit \<Rightarrow> Print_Error E ''Recursion depth exceeded'')"

definition Startup_Parse :: "'w linux_env \<Rightarrow> 'd sxml_parser \<Rightarrow> string \<Rightarrow> 'd \<Rightarrow> ('w, 'd) state" where
  "Startup_Parse E P data doc =
     (if \<not> sp_valid_content P 1 (int (length data)) then do { Print_Error E ''Invalid content''; ret doc }
      else do {
        let (doc, m) = sp_parse P data doc;
        whenM (m \<noteq> Match_OK) (report_match E m);
        ret doc
      })"

text \<open>\<open>Gneiss.Config.Load\<close>: the data are a string \<open>1 .. Size\<close> on the mapping, empty for a size below 1.\<close>

definition Config_Load ::
  "'w linux_env \<Rightarrow> 'w address_space \<Rightarrow> (string \<Rightarrow> 'd \<Rightarrow> ('w, 'd) state) \<Rightarrow> string \<Rightarrow> 'd \<Rightarrow> ('w, 'd) state" where
  "Config_Load E M parse location doc = do {
     d \<leftarrow> gneiss_open (le_posix E) (takeWhile (\<lambda>c. c \<noteq> CHR 0x00) location) 0;
     if \<not> Valid d then ret doc
     else do {
       m \<leftarrow> gneiss_mmap (le_posix E) d 0;
       if m = null then do {
         _ \<leftarrow> gneiss_close (le_posix E) d;
         ret doc
       } else do {
         sz \<leftarrow> gneiss_fstat_size (le_posix E) d;
         bs \<leftarrow> as_load M m (nat sz);
         doc \<leftarrow> parse (map char_of_byte bs) doc;
         _ \<leftarrow> gneiss_munmap (le_posix E) d m;
         _ \<leftarrow> gneiss_close (le_posix E) d;
         ret doc
       }
     }
   }"

text \<open>\<open>Construct\<close> with the document that was loaded, and \<open>Main\<close>; the state has 128 component slots.\<close>

definition Construct_loaded ::
  "'w linux_env \<Rightarrow> 'w address_space \<Rightarrow> 'd sxml_parser \<Rightarrow> ('d \<Rightarrow> 'n sxml) \<Rightarrow> 'd \<Rightarrow> string \<Rightarrow> ('w, 'd \<times> 'n startup option) state" where
  "Construct_loaded E M P view doc location = do {
     Print_Info E (''Loading config from '' @ location);
     doc \<leftarrow> Config_Load E M (Startup_Parse E P) location doc;
     r \<leftarrow> Construct_broker E (view doc) 128;
     ret (doc, r)
   }"

definition Broker_Main ::
  "'w linux_env \<Rightarrow> 'w address_space \<Rightarrow> 'd sxml_parser \<Rightarrow> ('d \<Rightarrow> 'n sxml) \<Rightarrow> 'd \<Rightarrow> string list \<Rightarrow> ('w, 'd \<times> 'n startup option) state" where
  "Broker_Main E M P view doc args = (case args of
       [_] \<Rightarrow> Construct_loaded E M P view doc ''/etc/gneiss/config.xml''
     | [_, location] \<Rightarrow> Construct_loaded E M P view doc location
     | _ \<Rightarrow> ret (doc, None))"

subsection \<open>Loading the configuration\<close>

text \<open>Access to memory opens and closes no descriptors.\<close>

locale linux_loader = linux_receiver E fds
  for E :: "'w linux_env" and fds :: "'w \<Rightarrow> fd set" +
  fixes M :: "'w address_space"
  assumes load_keeps [keeps_intros]: "keeps fds (as_load M p n)"
begin

lemma print_keeps [keeps_intros]:
  "keeps fds (Print_Info E m)" "keeps fds (Print_Warning E m)" "keeps fds (Print_Error E m)"
  unfolding Print_Info_def Print_Warning_def Print_Error_def gneiss_fputs_def by (rule fputs_keeps)+

lemma report_keeps [keeps_intros]: "keeps fds (report_match E m)"
  unfolding report_match_def by (cases m) (simp_all add: print_keeps)

lemma wp_Startup_Parse:
  "wp (Startup_Parse E P data doc) (\<lambda>doc' w'. fds w' = fds w \<and> (doc' = doc \<or> doc' = fst (sp_parse P data doc))) w"
  unfolding Startup_Parse_def
  by (auto simp: wp_simps split: prod.splits intro!: keeps_wpI [OF print_keeps(3)] keeps_wpI [OF report_keeps])

lemma fstat_size_keeps [keeps_intros]: "keeps fds (gneiss_fstat_size (le_posix E) d)"
  unfolding gneiss_fstat_size_def by (intro keeps_intros)

lemma wp_Config_Load:
  "wp (Config_Load E M (Startup_Parse E P) location doc)
     (\<lambda>doc' w'. fds w' = fds w \<and> (doc' = doc \<or> (\<exists>data. doc' = fst (sp_parse P data doc)))) w"
proof -
  define Q where "Q = (\<lambda>doc' w'. fds w' = fds w \<and> (doc' = doc \<or> (\<exists>data. doc' = fst (sp_parse P data doc))))"
  have "wp (Config_Load E M (Startup_Parse E P) location doc) Q w"
    unfolding Config_Load_def wp_simps
  proof (rule wp_opens_one [OF gneiss_open_opens], goal_cases)
    case (1 d w1)
    then show ?case by (simp add: Q_def)
  next
    case (2 d w1)
    have close: "wp (gneiss_close (le_posix E) d) (\<lambda>_. Q doc') w2"
      if "fds w2 = fds w1" "doc' = doc \<or> (\<exists>data. doc' = fst (sp_parse P data doc))" for w2 doc'
      by (rule pf.wp_cl) (use that 2 in \<open>auto simp: Q_def\<close>)
    have finish: "wp (gneiss_munmap (le_posix E) d m) (\<lambda>_. wp (gneiss_close (le_posix E) d) (\<lambda>_. Q doc')) w2"
      if "fds w2 = fds w1" "doc' = doc \<or> (\<exists>data. doc' = fst (sp_parse P data doc))" for w2 doc' m
      by (rule keeps_wpI [OF mapping_keeps(2)]) (use that in \<open>auto intro: close\<close>)
    have parse: "wp (Startup_Parse E P data doc) (\<lambda>doc'. wp (gneiss_munmap (le_posix E) d m) (\<lambda>_. wp (gneiss_close (le_posix E) d) (\<lambda>_. Q doc'))) w2"
      if "fds w2 = fds w1" for data m w2
      by (rule wp_mono [OF wp_Startup_Parse]) (use that in \<open>auto intro!: finish\<close>)
    have read: "wp (gneiss_fstat_size (le_posix E) d) (\<lambda>sz. wp (as_load M m (nat sz)) (\<lambda>bs. wp (Startup_Parse E P (map char_of_byte bs) doc)
        (\<lambda>doc'. wp (gneiss_munmap (le_posix E) d m) (\<lambda>_. wp (gneiss_close (le_posix E) d) (\<lambda>_. Q doc'))))) w2"
      if "fds w2 = fds w1" for m w2
      by (intro keeps_wpI [OF fstat_size_keeps] keeps_wpI [OF load_keeps] parse) (use that in simp)
    show ?case
      using 2(1) close read by (auto simp: wp_simps intro!: keeps_wpI [OF mapping_keeps(1)])
  qed
  then show ?thesis by (simp add: Q_def)
qed

end

subsection \<open>Properties\<close>

text \<open>
  C21. Loading the configuration leaves nothing behind. Whether the file cannot be opened, cannot be mapped, is not
  valid or is parsed, \<open>Load\<close> ends with the descriptors that were open before, and the
  document is the one from before or what the parser made of some data.
\<close>

theorem config_load_exact:
  assumes "linux_fds (le_posix E) fds" and "\<forall>x \<in> set (le_control E). \<not> Valid x" and "\<forall>p n. keeps fds (as_load M p n)"
  shows "wp (Config_Load E M (Startup_Parse E P) location doc)
     (\<lambda>doc' w'. fds w' = fds w \<and> (doc' = doc \<or> (\<exists>data. doc' = fst (sp_parse P data doc)))) w"
proof -
  have "linux_loader E fds M"
    using assms by (simp add: linux_loader_def linux_receiver_def linux_receiver_axioms_def linux_loader_axioms_def)
  from linux_loader.wp_Config_Load [OF this] show ?thesis .
qed

text \<open>
  C7. A component starts with nothing of the broker's. In the process that the broker forks for a component,
  when \<open>Load\<close> comes to the component's file, the open descriptors are those that were open
  when \<open>main.adb\<close> started and the component's own socket, which is new: the configuration file, the epoll
  descriptor and the sockets of all components that were started before are closed.
\<close>

theorem broker_main_isolated:
  assumes "linux_fds (le_posix E) fds" and "\<forall>x \<in> set (le_control E). \<not> Valid x" and "\<forall>p n. keeps fds (as_load M p n)"
    and "run_state (Broker_Main E M P view doc args) w = ((doc', Some (Child s d query)), w1)"
  shows "wp (Load_prepare E (view doc') s query) (\<lambda>_ w2. fds w2 = insert d (fds w) \<and> d \<notin> fds w) w1"
proof -
  have loader: "linux_loader E fds M"
    using assms by (simp add: linux_loader_def linux_receiver_def linux_receiver_axioms_def linux_loader_axioms_def)
  obtain location where "run_state (Construct_loaded E M P view doc location) w = ((doc', Some (Child s d query)), w1)"
    using assms(4) by (auto simp: Broker_Main_def split: list.splits)
  then obtain w2 w3 where 2: "w2 = final (Print_Info E (''Loading config from '' @ location)) w"
    and 3: "run_state (Config_Load E M (Startup_Parse E P) location doc) w2 = (doc', w3)"
    and c: "run_state (Construct_broker E (view doc') 128) w3 = (Some (Child s d query), w1)"
    by (auto simp: Construct_loaded_def split: prod.splits)
  have "fds w3 = fds w"
    using linux_loader.wp_Config_Load [OF loader, of P location doc w2] 3 2 keepsD [OF linux_loader.print_keeps(1) [OF loader]]
    by (simp add: wp_def)
  with broker_child_isolated [OF assms(1,2) c] show ?thesis by simp
qed

text \<open>The reference kernel boots two components from a file that the parser accepts.\<close>

definition boot_parser :: "bool sxml_parser" where
  "boot_parser = \<lparr> sp_valid_content = (\<lambda>a b. True), sp_parse = (\<lambda>data doc. (True, Match_OK)) \<rparr>"

definition boot_view :: "bool \<Rightarrow> xml list sxml" where
  "boot_view loaded = (if loaded then boot_document else xml_sxml [])"

lemma sim_load_keeps: "keeps sim_fdset (as_load sim_space p n)"
  by (simp add: keeps_def sim_space_def)

interpretation sim_loader: linux_loader clean_env sim_fdset sim_space
  by unfold_locales (rule sim_load_keeps)

theorem config_load_exact_witness:
  "result (Config_Load clean_env sim_space (Startup_Parse clean_env boot_parser) ''c'' False) sim_init = True \<and>
   wp (Config_Load clean_env sim_space (Startup_Parse clean_env boot_parser) ''c'' False) (\<lambda>_ w'. sim_fdset w' = {0, 1, 2}) sim_init"
proof
  show "result (Config_Load clean_env sim_space (Startup_Parse clean_env boot_parser) ''c'' False) sim_init = True" by code_simp
  have "sim_fdset sim_init = {0, 1, 2}" by (simp add: sim_init_def)
  then show "wp (Config_Load clean_env sim_space (Startup_Parse clean_env boot_parser) ''c'' False) (\<lambda>_ w'. sim_fdset w' = {0, 1, 2}) sim_init"
    by (intro wp_mono [OF config_load_exact [OF boot_laws(1,2)]]) (auto simp: sim_load_keeps)
qed

theorem broker_main_isolated_witness:
  "\<exists>doc s d query w1. run_state (Broker_Main clean_env sim_space boot_parser boot_view False [''broker'', ''c'']) (boot_world [20, 0]) =
       ((doc, Some (Child s d query)), w1) \<and>
     wp (Load_prepare clean_env (boot_view doc) s query) (\<lambda>_ w2. sim_fdset w2 = insert d {0, 1, 2} \<and> d \<notin> {0, 1, 2}) w1"
proof -
  have "(case snd (result (Broker_Main clean_env sim_space boot_parser boot_view False [''broker'', ''c'']) (boot_world [20, 0])) of
      Some (Child _ _ _) \<Rightarrow> True | _ \<Rightarrow> False)"
    by code_simp
  then obtain doc s d query w1 where c: "run_state (Broker_Main clean_env sim_space boot_parser boot_view False [''broker'', ''c''])
      (boot_world [20, 0]) = ((doc, Some (Child s d query)), w1)"
    by (cases "run_state (Broker_Main clean_env sim_space boot_parser boot_view False [''broker'', ''c'']) (boot_world [20, 0])")
      (auto split: option.splits startup.splits)
  have "sim_fdset (boot_world [20, 0]) = {0, 1, 2}" by (simp add: boot_world_def sim_init_def)
  with broker_main_isolated [OF boot_laws(1,2) _ c] sim_load_keeps c show ?thesis by auto
qed

end
