(* ===== verification/Linux_Network.thy ===== *)
theory Linux_Network
  imports Linux_Broker_Fds Linux_Dispatcher
begin

text \<open>
  The broker and the components together. Every process runs its own code in its own kernel
  state; the processes meet in the messages. A network keeps the broker's state and descriptors
  and all messages that were ever sent, with the variable of the broker that holds the
  socket: a message may arrive late, more than once or never. The theory shows from the code of
  clients, broker and dispatchers together that a confirmed session is one that the
  configuration grants and that the configured server has accepted.
\<close>

subsection \<open>Messages are what they say\<close>

lemma byte_of_char_inj: "map byte_of_char s = map byte_of_char t \<longleftrightarrow> s = t"
  by (metis char_of_byte_of_char inj_map_eq_map inj_on_inverseI)

lemma wire_msg_inj:
  assumes "length name < 256" and "length label < 256" and "length name' < 256" and "length label' < 256"
    and "wire_msg a k name label ds = wire_msg a' k' name' label' ds'"
  shows "a = a' \<and> k = k' \<and> name = name' \<and> label = label' \<and> ds = ds'"
proof -
  have "wire a k name label = wire a' k' name' label'" "ds = ds'"
    using arg_cong [OF assms(5), of snd_iov] arg_cong [OF assms(5), of rights_of] by simp_all
  moreover have "parse_packet (wire a k name label) = Some \<lparr>p_Action = a, p_Kind = k, p_Name = map byte_of_char name,
      p_Label = map byte_of_char label\<rparr>" if "length name < 256" "length label < 256" for a k name label
    using parse_packet_bytes [of _ "[]"] that by (simp add: wire_def)
  ultimately show ?thesis
    using assms by (metis byte_of_char_inj option.inject packet_fields.iffs)
qed

subsection \<open>The network\<close>

record 'n network =
  nw_broker :: "'n broker_state"
  nw_fds :: "fd set"
  nw_out :: "(slot \<times> send_hdr) set"
  nw_in :: "(nat \<times> send_hdr) set"

definition network_start :: "'n broker_state \<Rightarrow> fd set \<Rightarrow> 'n network" where
  "network_start s F = \<lparr> nw_broker = s, nw_fds = F, nw_out = {}, nw_in = {} \<rparr>"

text \<open>A message arrives with its bytes and as many descriptors as were sent.\<close>

definition arrives :: "(bytes \<times> fd list) list \<Rightarrow> send_hdr \<Rightarrow> bool" where
  "arrives q m \<longleftrightarrow> (case q of [] \<Rightarrow> False | (bs, rs) # rest \<Rightarrow> bs = snd_iov m \<and> length rs = length (rights_of m))"

text \<open>
  The steps: a component asks for a session or registers a service; the dispatcher of a component handles a request that the broker
  sent to it; the broker handles a message of a started component. Component \<open>i\<close> runs in the environment
  \<open>E i\<close>, the broker in \<open>E 0\<close>; \<open>I i\<close> are the procedures of a server.
\<close>

inductive network_step ::
  "(nat \<Rightarrow> 'w linux_env) \<Rightarrow> (nat \<Rightarrow> 'w server_impl) \<Rightarrow> 'n sxml \<Rightarrow> ('w \<Rightarrow> (fd \<times> send_hdr) list) \<Rightarrow>
   ('w \<Rightarrow> fd \<Rightarrow> (bytes \<times> fd list) list) \<Rightarrow> ('w \<Rightarrow> fd set) \<Rightarrow> 'n network \<Rightarrow> 'n network \<Rightarrow> bool"
  for E I X sent queue fds N where
  request: "length label < 256 \<Longrightarrow> length ds \<le> 4 \<Longrightarrow>
    run_state (Client_Initialize (E i) d kind ds label) w = (r, w') \<Longrightarrow> sent w' = sent w @ map (Pair d) ms \<Longrightarrow>
    network_step E I X sent queue fds N (N\<lparr>nw_in := nw_in N \<union> Pair i ` set ms\<rparr>)"
| register: "run_state (Client_Register (E i) d kind) w = (r, w') \<Longrightarrow> sent w' = sent w @ map (Pair d) ms \<Longrightarrow>
    network_step E I X sent queue fds N (N\<lparr>nw_in := nw_in N \<union> Pair i ` set ms\<rparr>)"
| log_event: "(Broker_Slot i Log, m) \<in> nw_out N \<Longrightarrow> Dispatcher_Initialized (lv_dsp s) \<Longrightarrow> Dispatcher_Registered (lv_dsp s) \<Longrightarrow>
    d = dsp_Dispatch_Fd (lv_dsp s) \<Longrightarrow> arrives (queue (lv_world s) d) m \<Longrightarrow>
    run_state (LLog_Dispatch_Event (E i) (I i) a D d) s = (r, s') \<Longrightarrow>
    sent (lv_world s') = sent (lv_world s) @ map (Pair d) ms \<Longrightarrow>
    network_step E I X sent queue fds N (N\<lparr>nw_in := nw_in N \<union> Pair i ` set ms\<rparr>)"
| memory_event: "(Broker_Slot i Memory, m) \<in> nw_out N \<Longrightarrow> Dispatcher_Initialized (lv_dsp s) \<Longrightarrow> Dispatcher_Registered (lv_dsp s) \<Longrightarrow>
    d = dsp_Dispatch_Fd (lv_dsp s) \<Longrightarrow> arrives (queue (lv_world s) d) m \<Longrightarrow>
    run_state (LMemory_Dispatch_Event (E i) (I i) a D d) s = (r, s') \<Longrightarrow>
    sent (lv_world s') = sent (lv_world s) @ map (Pair d) ms \<Longrightarrow>
    network_step E I X sent queue fds N (N\<lparr>nw_in := nw_in N \<union> Pair i ` set ms\<rparr>)"
| message_event: "(Broker_Slot i Message, m) \<in> nw_out N \<Longrightarrow> Dispatcher_Initialized (lv_dsp s) \<Longrightarrow> Dispatcher_Registered (lv_dsp s) \<Longrightarrow>
    d = dsp_Dispatch_Fd (lv_dsp s) \<Longrightarrow> arrives (queue (lv_world s) d) m \<Longrightarrow>
    run_state (LMessage_Dispatch_Event (E i) bits (I i) a D d) s = (r, s') \<Longrightarrow>
    sent (lv_world s') = sent (lv_world s) @ map (Pair d) ms \<Longrightarrow>
    network_step E I X sent queue fds N (N\<lparr>nw_in := nw_in N \<union> Pair i ` set ms\<rparr>)"
| broker: "(i, m) \<in> nw_in N \<Longrightarrow> in_range (nw_broker N) (int i) \<Longrightarrow> Valid (cd_Fd (component_at (nw_broker N) i)) \<Longrightarrow>
    fds w = nw_fds N \<Longrightarrow> arrives (queue w d) m \<Longrightarrow>
    run_state (Read_Message (E 0) X (nw_broker N) i d) w = (Some s', w') \<Longrightarrow> sent w' = sent w @ ms \<Longrightarrow>
    network_step E I X sent queue fds N (N\<lparr>nw_broker := s', nw_fds := fds w',
      nw_out := nw_out N \<union> {(sl, m). Valid (slot_fd s' sl) \<and> (slot_fd s' sl, m) \<in> set ms}\<rparr>)"

subsection \<open>What the messages of a network promise\<close>

definition named :: "'n sxml \<Rightarrow> 'n broker_state \<Rightarrow> nat \<Rightarrow> string \<Rightarrow> bool" where
  "named X s c name \<longleftrightarrow> in_range s (int c) \<and> Valid (cd_Fd (component_at s c)) \<and>
     sx_attribute X (cd_Node (component_at s c)) ''name'' 255 = Result_OK name"

definition unique_names :: "'n sxml \<Rightarrow> 'n broker_state \<Rightarrow> bool" where
  "unique_names X s \<longleftrightarrow> (\<forall>c d name. named X s c name \<longrightarrow> named X s d name \<longrightarrow> c = d)"

text \<open>The configuration gives component \<open>c\<close> the service of component \<open>i\<close> for this kind and label.\<close>

definition grants :: "'n sxml \<Rightarrow> 'n broker_state \<Rightarrow> nat \<Rightarrow> kind_type \<Rightarrow> string \<Rightarrow> nat \<Rightarrow> bool" where
  "grants X s c kind label i \<longleftrightarrow> (\<exists>serv server.
     Match_Service X (cd_Node (component_at s c)) (Image kind) label = Some serv \<and> serv \<noteq> sx_invalid X \<and>
     sx_attribute X serv ''server'' 255 = Result_OK server \<and> named X s i server)"

text \<open>Component \<open>i\<close> was asked by the broker to serve \<open>c\<close>, which had asked for it.\<close>

definition asked :: "'n sxml \<Rightarrow> 'n network \<Rightarrow> nat \<Rightarrow> nat \<Rightarrow> kind_type \<Rightarrow> string \<Rightarrow> string \<Rightarrow> bool" where
  "asked X N c i kind name label \<longleftrightarrow> named X (nw_broker N) c name \<and> grants X (nw_broker N) c kind label i \<and>
     (\<exists>ds. (c, wire_msg Request kind [] label ds) \<in> nw_in N) \<and>
     (\<exists>ds. (Broker_Slot i kind, wire_msg Request kind name label ds) \<in> nw_out N)"

text \<open>What may be sent to the broker, and what the broker may send.\<close>

inductive said :: "'n sxml \<Rightarrow> 'n network \<Rightarrow> nat \<Rightarrow> send_hdr \<Rightarrow> bool" for X N i where
  request: "length label < 256 \<Longrightarrow> length ds \<le> 4 \<Longrightarrow> said X N i (wire_msg Request kind [] label ds)"
| register: "said X N i (wire_msg Register kind [] [] [])"
| reply: "a \<in> {Confirm, Reject} \<Longrightarrow> length ds \<le> 4 \<Longrightarrow> length name < 256 \<Longrightarrow> length label < 256 \<Longrightarrow>
    asked X N c i kind name label \<Longrightarrow> said X N i (wire_msg a kind name label ds)"

inductive told :: "'n sxml \<Rightarrow> 'n network \<Rightarrow> slot \<Rightarrow> send_hdr \<Rightarrow> bool" for X N where
  rejected: "length label < 256 \<Longrightarrow> told X N (Fd_Slot c) (wire_msg Reject kind [] label [])"
| provided: "length label < 256 \<Longrightarrow> kind \<in> {Rom, Timer} \<Longrightarrow> told X N (Fd_Slot c) (wire_msg Confirm kind [] label ds)"
| registered: "(c, wire_msg Register kind [] [] []) \<in> nw_in N \<Longrightarrow> told X N (Fd_Slot c) (wire_msg Confirm kind [] [] ds)"
| confirmed: "length label < 256 \<Longrightarrow> asked X N c i kind name label \<Longrightarrow> (i, wire_msg Confirm kind name label ds) \<in> nw_in N \<Longrightarrow>
    told X N (Fd_Slot c) (wire_msg Confirm kind [] label ds')"
| forwarded: "length name < 256 \<Longrightarrow> length label < 256 \<Longrightarrow> length ds = (if kind = Memory then 3 else 2) \<Longrightarrow> asked X N c i kind name label \<Longrightarrow>
    told X N (Broker_Slot i kind) (wire_msg Request kind name label ds)"

definition network_ok :: "'n sxml \<Rightarrow> 'n network \<Rightarrow> bool" where
  "network_ok X N \<longleftrightarrow> broker_inv X (nw_broker N) \<and> unique_names X (nw_broker N) \<and> owning (slot_fd (nw_broker N)) (nw_fds N) \<and>
     (\<forall>(i, m) \<in> nw_in N. said X N i m) \<and> (\<forall>(sl, m) \<in> nw_out N. told X N sl m)"

text \<open>The network only grows, and the broker keeps the components.\<close>

definition extends :: "'n network \<Rightarrow> 'n network \<Rightarrow> bool" where
  "extends N N' \<longleftrightarrow> same_but_services (nw_broker N) (nw_broker N') \<and> nw_in N \<subseteq> nw_in N' \<and> nw_out N \<subseteq> nw_out N'"

lemma named_same: "same_but_services s s' \<Longrightarrow> named X s' c name = named X s c name"
  by (auto simp: named_def same_but_services_def in_range_def)

lemma grants_same: "same_but_services s s' \<Longrightarrow> grants X s' c kind label i = grants X s c kind label i"
  by (simp add: grants_def named_same) (simp add: same_but_services_def)

lemma asked_extends: "extends N N' \<Longrightarrow> asked X N c i kind name label \<Longrightarrow> asked X N' c i kind name label"
  unfolding extends_def asked_def by (auto simp: named_same grants_same)

lemma said_extends:
  assumes "extends N N'" and "said X N i m"
  shows "said X N' i m"
  using assms(2) by cases (auto intro: said.intros asked_extends [OF assms(1)])

lemma told_extends:
  assumes "extends N N'" and "told X N sl m"
  shows "told X N' sl m"
proof -
  have "nw_in N \<subseteq> nw_in N'" using assms(1) by (simp add: extends_def)
  with assms(2) show ?thesis
    by cases (auto intro: told.intros asked_extends [OF assms(1)])
qed

lemma slot_unique:
  "owning (slot_fd s) F \<Longrightarrow> Valid (slot_fd s sl) \<Longrightarrow> slot_fd s sl' = slot_fd s sl \<Longrightarrow> sl' = sl"
  by (auto simp: owning_def inj_on_def)

text \<open>It is enough to look at the new messages.\<close>

lemma network_ok_in:
  assumes "network_ok X N" and "\<And>m. m \<in> set ms \<Longrightarrow> said X N i m"
  shows "network_ok X (N\<lparr>nw_in := nw_in N \<union> Pair i ` set ms\<rparr>)" (is "network_ok X ?N")
proof -
  have "extends N ?N" by (auto simp: extends_def)
  with assms show ?thesis
    by (auto simp: network_ok_def intro: said_extends told_extends)
qed

lemma network_ok_out:
  assumes "network_ok X N" and "same_but_services (nw_broker N) s'" and "broker_inv X s'" and "owning (slot_fd s') F"
    and "N' = N\<lparr>nw_broker := s', nw_fds := F, nw_out := nw_out N \<union> {(sl, m). Valid (slot_fd s' sl) \<and> (slot_fd s' sl, m) \<in> set ms}\<rparr>"
    and "\<And>sl m. Valid (slot_fd s' sl) \<Longrightarrow> (slot_fd s' sl, m) \<in> set ms \<Longrightarrow> told X N' sl m"
  shows "network_ok X N'"
proof -
  have e: "extends N N'" using assms(2,5) by (auto simp: extends_def)
  have "unique_names X s'" using assms(1,2) by (simp add: network_ok_def unique_names_def named_same)
  moreover have "\<forall>(i, m) \<in> nw_in N'. said X N' i m" "\<forall>(sl, m) \<in> nw_out N. told X N' sl m"
    using assms(1,5) said_extends [OF e] told_extends [OF e] by (auto simp: network_ok_def)
  ultimately show ?thesis
    using assms(3-6) by (auto simp: network_ok_def)
qed

subsection \<open>The code of the processes\<close>

context linux_speaker
begin

lemma client_sent:
  "length label < 256 \<Longrightarrow> wp (Client_Initialize E d kind ds label) (\<lambda>_ w'.
     sent w' = sent w @ [(d, wire_msg Request kind [] label (takeWhile (\<lambda>d. 0 \<le> d) ds))]) w"
  "wp (Client_Register E d kind) (\<lambda>_ w'. sent w' = sent w @ [(d, wire_msg Register kind [] [] [])]) w"
  unfolding Client_Initialize_def Client_Register_def wp_simps
  by (rule wp_mono [OF Packet_Send_sent], simp, simp, rule keeps_wpI [OF Packet_Receive_sent], simp)+

end

context linux_connection
begin

lemma Client_Dispatch_wire:
  assumes "queue w d = (wire a k name label, rs) # rest" and "length name < 256" and "length label < 256"
    and "length rs \<le> n" and "n \<le> length (le_control E)"
  shows "wp (Client_Dispatch E d k n) (\<lambda>r _. \<exists>nm lb ds. r = Inr (nm, lb, ds) \<and> label_text nm = name \<and> label_text lb = label) w"
  unfolding Client_Dispatch_def wp_simps
  by (rule wp_mono [OF Packet_Receive_wire [OF assms]]) (auto simp: same_text_def)

end

text \<open>
  The laws of a network: the document and the kernel are as documented, every process runs the code
  that the message specification gives, and the control buffers of \<open>recvmsg\<close> hold no stale descriptors.
\<close>

locale linux_network =
  fixes E :: "nat \<Rightarrow> 'w linux_env"
    and I :: "nat \<Rightarrow> 'w server_impl"
    and X :: "'n sxml"
    and chain :: "'n \<Rightarrow> 'n list"
    and matches :: "'n \<Rightarrow> string \<Rightarrow> string \<Rightarrow> string \<Rightarrow> bool"
    and peer :: "'w \<Rightarrow> fd \<Rightarrow> fd option"
    and queue :: "'w \<Rightarrow> fd \<Rightarrow> (bytes \<times> fd list) list"
    and sent :: "'w \<Rightarrow> (fd \<times> send_hdr) list"
    and fds :: "'w \<Rightarrow> fd set"
  assumes document: "sxml_document X chain matches"
    and connection: "linux_connection (E i) peer queue"
    and server_code: "linux_server_code (E i) sent fds (I i)"
    and control_length: "4 \<le> length (le_control (E i))"
    and control_clean: "\<forall>x \<in> set (le_control (E i)). \<not> Valid x"
begin

lemma speaker: "linux_speaker (E i) sent"
  using server_code by (rule linux_server_code.axioms(1))

lemma receiver: "linux_receiver (E i) fds"
  using linux_server_code.axioms(2) [OF server_code] control_clean
  by (simp add: linux_receiver_def linux_receiver_axioms_def)

lemma dispatch_said:
  assumes "answer_law (E i) sent kind (if kind = Memory then 3 else 2) vreq D r s s'" and "told X N (Broker_Slot i kind) m"
    and "arrives (queue (lv_world s) (dsp_Dispatch_Fd (lv_dsp s))) m"
    and "sent (lv_world s') = sent (lv_world s) @ map (Pair (dsp_Dispatch_Fd (lv_dsp s))) ms" and "m' \<in> set ms"
  shows "said X N i m'"
proof -
  from assms(2) obtain c name label ds where m: "length name < 256" "length label < 256" "length ds = (if kind = Memory then 3 else 2)"
    "asked X N c i kind name label" "m = wire_msg Request kind name label ds"
    by cases auto
  then obtain rs rest where q: "queue (lv_world s) (dsp_Dispatch_Fd (lv_dsp s)) = (wire Request kind name label, rs) # rest" "length rs = length ds"
    using assms(3) by (auto simp: arrives_def split: list.splits)
  have "wp (Client_Dispatch (E i) (dsp_Dispatch_Fd (lv_dsp s)) kind (if kind = Memory then 3 else 2))
      (\<lambda>r _. \<exists>nm lb ds. r = Inr (nm, lb, ds) \<and> label_text nm = name \<and> label_text lb = label) (lv_world s)"
    using linux_connection.Client_Dispatch_wire [OF connection q(1) m(1,2)] q(2) m(3) control_length [of i] by simp
  then obtain nm lb ds' where "result (Client_Dispatch (E i) (dsp_Dispatch_Fd (lv_dsp s)) kind (if kind = Memory then 3 else 2)) (lv_world s) =
      Inr (nm, lb, ds')" "label_text nm = name" "label_text lb = label"
    by (auto simp: wp_run)
  with assms(1,4) obtain k where "map (Pair (dsp_Dispatch_Fd (lv_dsp s))) ms = map (Pair (dsp_Dispatch_Fd (lv_dsp s)))
      (if k = 0 then [wire_msg Reject kind name label []] else replicate k (wire_msg Confirm kind name label [ds' ! 0]))"
    unfolding answer_law_def by auto
  then have "ms = (if k = 0 then [wire_msg Reject kind name label []] else replicate k (wire_msg Confirm kind name label [ds' ! 0]))"
    by (simp add: inj_map_eq_map inj_def)
  with assms(5) m show ?thesis
    by (auto intro!: said.reply split: if_splits)
qed

subsection \<open>A step of the broker\<close>

lemma Read_Message_handles:
  assumes "arrives (queue w d) (wire_msg a k name label ds)" and "length name < 256" and "length label < 256" and "length ds \<le> 4"
    and "\<And>ds' w1. length ds' = 4 \<Longrightarrow> \<forall>i < length ds. 0 \<le> ds' ! i \<Longrightarrow> sent w1 = sent w \<Longrightarrow> wp (Handle_Message (E i) X s c a k name label ds') Q w1"
  shows "wp (Read_Message (E i) X s c d) Q w"
proof -
  from assms(1) obtain rs rest where q: "queue w d = (wire a k name label, rs) # rest" "length rs \<le> 4" "length rs = length ds"
    using assms(4) by (auto simp: arrives_def split: list.splits)
  show ?thesis
    unfolding Read_Message_def wp_simps
    by (rule wp_mono [OF wp_and [OF linux_connection.Packet_Receive_wire [OF connection q(1) assms(2,3) q(2) control_length]
          keeps_wp [OF linux_speaker.Packet_Receive_sent [OF speaker]]]])
      (use assms(5) q(3) in \<open>auto simp: same_text_def\<close>)
qed

text \<open>A message of the broker to the socket \<open>e\<close> that keeps the promises.\<close>

definition delivered :: "'n network \<Rightarrow> 'n broker_state \<Rightarrow> fd \<Rightarrow> send_hdr \<Rightarrow> bool" where
  "delivered N s' e m \<longleftrightarrow> Valid e \<and> (\<exists>sl. slot_fd s' sl = e \<and> told X (N\<lparr>nw_broker := s', nw_out := insert (sl, m) (nw_out N)\<rparr>) sl m)"

definition broker_keeps :: "'n network \<Rightarrow> 'w \<Rightarrow> 'n broker_state option \<Rightarrow> 'w \<Rightarrow> bool" where
  "broker_keeps N w r w' \<longleftrightarrow> (\<exists>s' ms. r = Some s' \<and> same_but_services (nw_broker N) s' \<and> sent w' = sent w @ ms \<and>
     (\<forall>(e, m) \<in> set ms. delivered N s' e m))"

lemma delivered_main:
  assumes "in_range (nw_broker N) (int c)" and "Valid (cd_Fd (component_at (nw_broker N) c))" and "same_but_services (nw_broker N) s'"
    and "\<And>M. extends N M \<Longrightarrow> told X M (Fd_Slot c) m"
  shows "delivered N s' (cd_Fd (component_at (nw_broker N) c)) m"
proof -
  have "slot_fd s' (Fd_Slot c) = cd_Fd (component_at (nw_broker N) c)"
    using assms(1,3) by (auto simp: same_but_services_def in_range_def)
  moreover have "extends N (N\<lparr>nw_broker := s', nw_out := insert (Fd_Slot c, m) (nw_out N)\<rparr>)"
    using assms(3) by (auto simp: extends_def)
  ultimately show ?thesis
    using assms(2,4) unfolding delivered_def by blast
qed

lemma request_delivered:
  assumes "(c, wire_msg Request kind [] label ds) \<in> nw_in N" and "length label < 256"
    and "in_range (nw_broker N) (int c)" and "Valid (cd_Fd (component_at (nw_broker N) c))" and "same_but_services (nw_broker N) s'"
    and "Match_Service X (cd_Node (component_at (nw_broker N) c)) (Image kind) label = Some serv"
    and "broker_answer X (nw_broker N) s' c kind label serv ms" and "(e, m) \<in> set ms"
  shows "delivered N s' e m"
  using assms(7)
proof cases
  case rejected
  with assms(2,8) show ?thesis by (auto intro!: delivered_main [OF assms(3-5)] told.rejected)
next
  case (confirmed d)
  with assms(2,8) show ?thesis by (auto intro!: delivered_main [OF assms(3-5)] told.provided)
next
  case (forwarded server i name fs)
  let ?m = "wire_msg Request kind name label fs"
  let ?N = "N\<lparr>nw_broker := s', nw_out := insert (Broker_Slot i kind, ?m) (nw_out N)\<rparr>"
  have len: "length name < 256" using sxml_document.attribute_fits [OF document forwarded(8)] by simp
  have "named X (nw_broker N) i server" "named X (nw_broker N) c name"
    using forwarded assms(3,4) by (auto simp: named_def attribute_is_def Compare_def split: attribute_result.splits)
  moreover from this have "grants X (nw_broker N) c kind label i"
    using assms(6) forwarded by (auto simp: grants_def)
  ultimately have "asked X ?N c i kind name label"
    using assms(1) by (auto simp: asked_def named_same [OF assms(5)] grants_same [OF assms(5)])
  then have "told X ?N (Broker_Slot i kind) ?m"
    using len assms(2) forwarded by (intro told.forwarded) auto
  moreover have "slot_fd s' (Broker_Slot i kind) = se_Broker (cd_Serv (component_at s' i) kind)"
    using forwarded(5) assms(5) by (simp add: in_range_def same_but_services_def)
  ultimately show ?thesis
    using forwarded(1,9) assms(8) unfolding delivered_def by (intro conjI exI [of _ "Broker_Slot i kind"]) simp_all
qed (use assms(8) in simp)

lemma broker_delivers:
  assumes "network_ok X N" and "(c, m) \<in> nw_in N" and "in_range (nw_broker N) (int c)"
    and "Valid (cd_Fd (component_at (nw_broker N) c))" and "arrives (queue w d) m"
  shows "wp (Read_Message (E i) X (nw_broker N) c d) (broker_keeps N w) w"
proof -
  have "said X N c m" using assms(1,2) by (auto simp: network_ok_def)
  then show ?thesis
  proof cases
    case (request label ds kind)
    have "wp (Process_Request (E i) X (nw_broker N) c kind label ds') (broker_keeps N w) w1" if "sent w1 = sent w" for ds' w1
      by (rule wp_mono [OF linux_speaker.Process_Request_sent [OF speaker document request(2) assms(4)]])
        (use that request_delivered [OF assms(2) [unfolded request(1)] request(2) assms(3,4)] in \<open>fastforce simp: broker_keeps_def\<close>)
    with request show ?thesis
      using assms(5) by (intro Read_Message_handles [of w d Request kind "[]" label ds]) (simp_all add: Handle_Message_def)
  next
    case (register kind)
    have "wp (Process_Register (E i) (nw_broker N) c kind) (\<lambda>s'. broker_keeps N w (Some s')) w1" if "sent w1 = sent w" for w1
    proof (rule wp_mono [OF linux_speaker.register_sent [OF speaker]], goal_cases)
      case (1 s' w')
      have "delivered N s' (cd_Fd (component_at (nw_broker N) c)) m'"
        if "m' \<in> {wire_msg Confirm kind [] [] fs, wire_msg Reject kind [] [] []}" for m' fs
        using that assms(2) register 1
        by (intro delivered_main [OF assms(3,4)]) (auto simp: extends_def intro: told.registered told.rejected)
      with 1 that show ?case unfolding broker_keeps_def by fastforce
    qed
    with register show ?thesis
      using assms(5) by (intro Read_Message_handles [of w d Register kind "[]" "[]" "[]"]) (simp_all add: Handle_Message_def wp_simps)
  next
    case (reply a ds name label b kind)
    have c: "j = b" if "Find_Component_By_Name X (nw_broker N) name = Some j" for j
      using Find_Component_By_Name_Some [OF that] reply(6) assms(1)
      by (auto simp: asked_def named_def network_ok_def unique_names_def attribute_is_def Compare_def split: attribute_result.splits)
    have "named X (nw_broker N) b name" using reply(6) by (simp add: asked_def)
    then have b: "in_range (nw_broker N) (int b)" "Valid (cd_Fd (component_at (nw_broker N) b))" by (simp_all add: named_def)
    have del: "delivered N (nw_broker N) (cd_Fd (component_at (nw_broker N) b)) m'"
      if "m' = wire_msg Reject kind [] label [] \<or> a = Confirm \<and> m' = wire_msg Confirm kind [] label fs" for m' fs
    proof (rule delivered_main [OF b])
      fix M assume e: "extends N M"
      then have "(c, m) \<in> nw_in M" using assms(2) by (auto simp: extends_def)
      with that reply show "told X M (Fd_Slot b) m'"
        by (auto intro: told.rejected told.confirmed [OF _ asked_extends [OF e reply(6)]])
    qed simp
    have "wp (Handle_Message (E i) X (nw_broker N) c a kind name label ds') (broker_keeps N w) w1" if "sent w1 = sent w" for ds' w1
      by (rule wp_mono [OF linux_speaker.reply_sent [OF speaker reply(2,5)]])
        (use that del c in \<open>auto simp: broker_keeps_def split: option.splits if_splits\<close>)
    with reply show ?thesis
      using assms(5) by (intro Read_Message_handles [of w d a kind name label ds]) simp_all
  qed
qed

lemma dispatch_ok:
  assumes "network_ok X N" and "(Broker_Slot i kind, m) \<in> nw_out N"
    and "answer_law (E i) sent kind (if kind = Memory then 3 else 2) vreq D r s s'"
    and "d = dsp_Dispatch_Fd (lv_dsp s)" and "arrives (queue (lv_world s) d) m"
    and "sent (lv_world s') = sent (lv_world s) @ map (Pair d) ms"
  shows "network_ok X (N\<lparr>nw_in := nw_in N \<union> Pair i ` set ms\<rparr>)"
proof (rule network_ok_in [OF assms(1)])
  have t: "told X N (Broker_Slot i kind) m" using assms(1,2) by (auto simp: network_ok_def)
  show "said X N i m'" if "m' \<in> set ms" for m'
    by (rule dispatch_said [OF assms(3) t _ _ that]) (use assms(4-6) in simp_all)
qed

lemma network_step_ok:
  assumes "network_step E I X sent queue fds N N'" and "network_ok X N"
  shows "network_ok X N'"
  using assms(1)
proof cases
  case (request label ds i d kind w r w' ms)
  then have "map (Pair d) ms = [(d, wire_msg Request kind [] label (takeWhile (\<lambda>d. 0 \<le> d) ds))]"
    using linux_speaker.client_sent(1) [OF speaker, of label i d kind ds w] by (simp add: wp_run)
  with request show ?thesis
    using assms(2) le_trans [OF length_takeWhile_le] by (auto intro!: network_ok_in said.request)
next
  case (register i d kind w r w' ms)
  then have "map (Pair d) ms = [(d, wire_msg Register kind [] [] [])]"
    using linux_speaker.client_sent(2) [OF speaker, of i d kind w] by (simp add: wp_run)
  with register show ?thesis using assms(2) by (auto intro!: network_ok_in said.register)
next
  case (log_event i m s d a D r s' ms)
  then have "answer_law (E i) sent Log 2 LLog_Valid_Session_Request D r s s'"
    using linux_server_code.requests_answered(1) [OF server_code log_event(3,4) refl, of i a D] by (simp add: wp_run)
  with log_event show ?thesis
    by (simp del: append_same_eq) (rule dispatch_ok [OF assms(2), of i Log], simp_all)
next
  case (memory_event i m s d a D r s' ms)
  then have "answer_law (E i) sent Memory 3 LMemory_Valid_Session_Request D r s s'"
    using linux_server_code.requests_answered(2) [OF server_code memory_event(3,4) refl, of i a D] by (simp add: wp_run)
  with memory_event show ?thesis
    by (simp del: append_same_eq) (rule dispatch_ok [OF assms(2), of i Memory], simp_all)
next
  case (message_event i m s d bits a D r s' ms)
  then have "answer_law (E i) sent Message 2 LMessage_Valid_Session_Request D r s s'"
    using linux_server_code.requests_answered(3) [OF server_code message_event(3,4) refl, of i bits a D] by (simp add: wp_run)
  with message_event show ?thesis
    by (simp del: append_same_eq) (rule dispatch_ok [OF assms(2), of i Message], simp_all)
next
  case (broker i m w d s' w' ms)
  have inv: "broker_inv X (nw_broker N)" "owning (slot_fd (nw_broker N)) (fds w)" using assms(2) broker(5) by (simp_all add: network_ok_def)
  have s': "broker_inv X s'" "owning (slot_fd s') (fds w')"
    using inv.Read_Message_kept [OF inv(1), of "E 0" X i d w] broker(7)
      linux_receiver.Read_Message_fds [OF receiver inv(2,1) broker(3), of 0 X d] by (simp_all add: wp_run)
  have "broker_keeps N w (Some s') w'"
    using broker_delivers [OF assms(2) broker(2-4,6), of 0] broker(7) by (simp add: wp_run)
  with broker(8) have keeps: "same_but_services (nw_broker N) s'" "\<And>e m. (e, m) \<in> set ms \<Longrightarrow> delivered N s' e m"
    by (auto simp: broker_keeps_def)
  show ?thesis
  proof (rule network_ok_out [OF assms(2) keeps(1) s' broker(1)])
    fix sl m assume sl: "Valid (slot_fd s' sl)" "(slot_fd s' sl, m) \<in> set ms"
    from keeps(2) [OF sl(2)] obtain sl' where
      t: "slot_fd s' sl' = slot_fd s' sl" "told X (N\<lparr>nw_broker := s', nw_out := insert (sl', m) (nw_out N)\<rparr>) sl' m"
      by (auto simp: delivered_def)
    have "sl' = sl" using slot_unique [OF s'(2) sl(1) t(1)] .
    with sl broker(1) have "extends (N\<lparr>nw_broker := s', nw_out := insert (sl', m) (nw_out N)\<rparr>) N'" by (auto simp: extends_def)
    from told_extends [OF this t(2)] \<open>sl' = sl\<close> show "told X N' sl m" by simp
  qed
qed

lemma network_runs_ok: "(network_step E I X sent queue fds)\<^sup>*\<^sup>* N N' \<Longrightarrow> network_ok X N \<Longrightarrow> network_ok X N'"
  by (induction rule: rtranclp_induct) (auto dest: network_step_ok)

end

subsection \<open>Properties\<close>


subsection \<open>A session on the reference kernel\<close>

text \<open>The two components of the sample configuration, after start-up of the broker.\<close>

definition boot_broker :: "xml list broker_state" where
  "boot_broker = (case result (Construct_broker clean_env boot_document 3) (boot_world [20, 21]) of
     Some (Parent s) \<Rightarrow> s | _ \<Rightarrow> sample_broker)"

definition booted :: sim where
  "booted = final (Construct_broker clean_env boot_document 3) (boot_world [20, 21])"

text \<open>The request at the broker, at the server, and the server's confirmation at the broker.\<close>

definition client_asks :: sim where
  "client_asks = booted\<lparr>sim_queue := [(4, wire Request Log [] ''a'', [])]\<rparr>"

definition server_asked :: "(sim, llog_server) dispatching" where
  "server_asked = request_state\<lparr>lv_world := request_world\<lparr>sim_queue := [(5, wire Request Log ''client'' ''a'', [7, 8])]\<rparr>\<rparr>"

definition asking_broker :: "xml list broker_state" where
  "asking_broker = (case result (Read_Message clean_env boot_document boot_broker 1 4) client_asks of Some s \<Rightarrow> s | None \<Rightarrow> boot_broker)"

definition server_confirms :: sim where
  "server_confirms = (final (Read_Message clean_env boot_document boot_broker 1 4) client_asks)\<lparr>
     sim_queue := [(8, wire Confirm Log ''client'' ''a'', [0])]\<rparr>"

abbreviation sim_step :: "xml list network \<Rightarrow> xml list network \<Rightarrow> bool" where
  "sim_step \<equiv> network_step (\<lambda>_. clean_env) (\<lambda>_. sample_impl) boot_document sim_sent sim_waiting sim_fdset"

interpretation sim_network: linux_network "\<lambda>_. clean_env" "\<lambda>_. sample_impl" boot_document xml_chain xml_matches
  sim_peer_of sim_waiting sim_sent sim_fdset
proof (rule linux_network.intro)
  show "sxml_document boot_document xml_chain xml_matches" by (rule boot_laws)
  show "linux_connection clean_env sim_peer_of sim_waiting"
    using sim_conn.linux_connection_axioms
    by (simp add: linux_connection_def linux_client_def linux_client_axioms_def clean_env_def)
  show "linux_server_code clean_env sim_sent sim_fdset sample_impl"
    using sample_code.linux_server_code_axioms
    by (simp add: linux_server_code_def linux_speaker_def linux_client_def linux_client_axioms_def clean_env_def)
qed (simp_all add: clean_env_def)

lemma boot_run: "run_state (Construct_broker clean_env boot_document 3) (boot_world [20, 21]) = (Some (Parent boot_broker), booted)"
proof -
  obtain s w1 where "run_state (Construct_broker clean_env boot_document 3) (boot_world [20, 21]) = (Some (Parent s), w1)"
    by (rule boot_parent)
  then show ?thesis by (simp add: boot_broker_def booted_def)
qed

lemma boot_names: "unique_names boot_document boot_broker"
proof -
  have l: "length (br_Components boot_broker) = 3" by code_simp
  have n: "cd_Fd (component_at boot_broker 3) = -1"
    "sx_attribute boot_document (cd_Node (component_at boot_broker 1)) ''name'' 255 = Result_OK ''client''"
    "sx_attribute boot_document (cd_Node (component_at boot_broker 2)) ''name'' 255 = Result_OK ''srv''"
    by code_simp+
  have c: "c = 1 \<or> c = 2" if "named boot_document boot_broker c name" for c name
  proof -
    have "c = 1 \<or> c = 2 \<or> c = 3" using that l by (auto simp: named_def in_range_def)
    moreover have "c \<noteq> 3" using that n(1) by (auto simp: named_def)
    ultimately show ?thesis by blast
  qed
  show ?thesis
    unfolding unique_names_def
  proof (intro allI impI)
    fix c d name
    assume a: "named boot_document boot_broker c name" "named boot_document boot_broker d name"
    show "c = d" using c [OF a(1)] c [OF a(2)] a n(2,3) unfolding named_def by auto
  qed
qed

text \<open>The four steps: the client asks, the broker forwards, the server confirms, the broker confirms.\<close>

lemma boot_request: "sim_step N (N\<lparr>nw_in := nw_in N \<union> Pair 1 ` set [wire_msg Request Log [] ''a'' []]\<rparr>)"
proof (rule network_step.request [OF _ _ prod.collapse [symmetric]])
  show "sim_sent (final (Client_Initialize clean_env 3 Log [-1] ''a'') sim_pair) =
    sim_sent sim_pair @ map (Pair 3) [wire_msg Request Log [] ''a'' []]" by code_simp
qed simp_all

lemma boot_forward:
  assumes "nw_broker N = boot_broker" and "nw_fds N = sim_fdset booted" and "(1, wire_msg Request Log [] ''a'' []) \<in> nw_in N"
  obtains N' where "sim_step N N'" and "nw_broker N' = asking_broker" and "nw_fds N' = sim_fdset server_confirms"
    and "nw_in N' = nw_in N" and "(Broker_Slot 2 Log, wire_msg Request Log ''client'' ''a'' [6, 7]) \<in> nw_out N'"
proof -
  let ?m = "Read_Message clean_env boot_document boot_broker 1 4"
  have "result ?m client_asks \<noteq> None" by code_simp
  then have run: "run_state ?m client_asks = (Some asking_broker, final ?m client_asks)"
    unfolding asking_broker_def by (intro prod_eqI) auto
  have sent: "sim_sent (final ?m client_asks) = sim_sent client_asks @ [(8, wire_msg Request Log ''client'' ''a'' [6, 7])]"
    and slot: "slot_fd asking_broker (Broker_Slot 2 Log) = 8" and "in_range boot_broker 1" "Valid (cd_Fd (component_at boot_broker 1))"
    by code_simp+
  moreover have "sim_fdset client_asks = sim_fdset booted" by (simp add: client_asks_def)
  moreover have "arrives (sim_waiting client_asks 4) (wire_msg Request Log [] ''a'' [])"
    by (simp add: client_asks_def sim_waiting_def arrives_def)
  ultimately have "sim_step N (N\<lparr>nw_broker := asking_broker, nw_fds := sim_fdset (final ?m client_asks),
      nw_out := nw_out N \<union> {(sl, m). Valid (slot_fd asking_broker sl) \<and>
        (slot_fd asking_broker sl, m) \<in> set [(8, wire_msg Request Log ''client'' ''a'' [6, 7])]}\<rparr>)"
    using assms run by (intro network_step.broker [where i = 1 and w = client_asks and d = 4]) simp_all
  then show ?thesis by (rule that) (use slot in \<open>simp_all add: server_confirms_def\<close>)
qed

lemma boot_confirm:
  assumes "(Broker_Slot 2 Log, wire_msg Request Log ''client'' ''a'' [6, 7]) \<in> nw_out N"
  shows "sim_step N (N\<lparr>nw_in := nw_in N \<union> Pair 2 ` set [wire_msg Confirm Log ''client'' ''a'' [6]]\<rparr>)"
proof (rule network_step.log_event [OF assms _ _ _ _ prod.collapse [symmetric]])
  show "sim_sent (lv_world (final (LLog_Dispatch_Event clean_env sample_impl sample_server_site accept_at_zero 5) server_asked)) =
    sim_sent (lv_world server_asked) @ map (Pair 5) [wire_msg Confirm Log ''client'' ''a'' [6]]" by code_simp
  show "Dispatcher_Initialized (lv_dsp server_asked)" "Dispatcher_Registered (lv_dsp server_asked)"
    "5 = dsp_Dispatch_Fd (lv_dsp server_asked)" by code_simp+
  show "arrives (sim_waiting (lv_world server_asked) 5) (wire_msg Request Log ''client'' ''a'' [6, 7])"
    by (simp add: server_asked_def sim_waiting_def arrives_def)
qed

lemma boot_grant:
  assumes "nw_broker N = asking_broker" and "nw_fds N = sim_fdset server_confirms" and "(2, wire_msg Confirm Log ''client'' ''a'' [6]) \<in> nw_in N"
  obtains N' where "sim_step N N'" and "(Fd_Slot 1, wire_msg Confirm Log [] ''a'' [10]) \<in> nw_out N'"
proof -
  let ?m = "Read_Message clean_env boot_document asking_broker 2 8"
  let ?s = "the (result ?m server_confirms)"
  have "result ?m server_confirms \<noteq> None" by code_simp
  then have run: "run_state ?m server_confirms = (Some ?s, final ?m server_confirms)"
    by (intro prod_eqI) auto
  have sent: "sim_sent (final ?m server_confirms) = sim_sent server_confirms @ [(4, wire_msg Confirm Log [] ''a'' [10])]"
    and slot: "slot_fd ?s (Fd_Slot 1) = 4" and "in_range asking_broker 2" "Valid (cd_Fd (component_at asking_broker 2))"
    by code_simp+
  moreover have "arrives (sim_waiting server_confirms 8) (wire_msg Confirm Log ''client'' ''a'' [6])"
    by (simp add: server_confirms_def sim_waiting_def arrives_def)
  ultimately have "sim_step N (N\<lparr>nw_broker := ?s, nw_fds := sim_fdset (final ?m server_confirms),
      nw_out := nw_out N \<union> {(sl, m). Valid (slot_fd ?s sl) \<and> (slot_fd ?s sl, m) \<in> set [(4, wire_msg Confirm Log [] ''a'' [10])]}\<rparr>)"
    using assms run by (intro network_step.broker [where i = 2 and w = server_confirms and d = 8]) simp_all
  then show ?thesis by (rule that) (use slot in simp)
qed


text \<open>
  A finding: the broker keeps every descriptor that it hands out. After the exchange above, both ends of the
  session's channel and the copy that came with the confirmation (6, 7 and 10) are still open in the broker next to
  its own sockets; they are in no variable any more and stay open for the life of the broker.
\<close>

theorem broker_keeps_session_fds:
  "sim_fdset booted = {0, 1, 2, 3, 4, 5} \<and>
   sim_fdset (final (Read_Message clean_env boot_document asking_broker 2 8) server_confirms) = {0, 1, 2, 3, 4, 5, 6, 7, 8, 9, 10} \<and>
   se_Broker (cd_Serv (component_at asking_broker 2) Log) = 8 \<and> se_Disp (cd_Serv (component_at asking_broker 2) Log) = 9"
  by code_simp

lemma find_named: "unique_names X s \<Longrightarrow> named X s v name \<Longrightarrow> name \<noteq> [] \<Longrightarrow> Find_Component_By_Name X s name = Some v"
proof -
  assume u: "unique_names X s" and n: "named X s v name" and "name \<noteq> []"
  then have "Find_Component_By_Name X s name \<noteq> None"
    by (auto simp: Find_Component_By_Name_find find_None_iff named_def in_range_def)
  then obtain j where j: "Find_Component_By_Name X s name = Some j" by blast
  have "named X s j name"
    using Find_Component_By_Name_Some [OF j] by (auto simp: named_def attribute_is_def Compare_def split: attribute_result.splits)
  with u n j show ?thesis by (auto simp: unique_names_def)
qed

text \<open>
  A finding: the broker does not check who confirms. A confirmation from any started component is passed
  on, with its descriptor, to the component that it names, whether this component has asked for a session
  or not and whether the sender is its server; \<open>linux_sessions_authorized\<close> rests on the code of the dispatchers alone.
\<close>

theorem broker_accepts_any_confirm:
  assumes "linux_network E I X chain matches peer queue sent fds" and "unique_names X s" and "named X s v name" and "name \<noteq> []"
    and "kind \<in> {Message, Log, Memory}" and "length name + length label < 256"
    and "arrives (queue w d) (wire_msg Confirm kind name label [x])"
  shows "wp (Read_Message (E 0) X s c d) (\<lambda>r w'. r = Some s \<and>
    (\<exists>y \<ge> 0. sent w' = sent w @ [(cd_Fd (component_at s v), wire_msg Confirm kind [] label [y])])) w"
proof (rule linux_network.Read_Message_handles [OF assms(1,7)])
  fix ds' :: "fd list" and w1
  assume ds: "length ds' = 4" "\<forall>i < length [x]. 0 \<le> ds' ! i" and w1: "sent w1 = sent w"
  then have "ds' \<noteq> []" "0 \<le> hd ds'" by (cases ds'; simp)+
  with w1 show "wp (Handle_Message (E 0) X s c Confirm kind name label ds') (\<lambda>r w'. r = Some s \<and>
      (\<exists>y \<ge> 0. sent w' = sent w @ [(cd_Fd (component_at s v), wire_msg Confirm kind [] label [y])])) w1"
    by (intro wp_mono [OF linux_speaker.reply_sent [OF linux_network.speaker [OF assms(1)]]])
      (use assms(5,6) find_named [OF assms(2-4)] in auto)
qed (use assms(6) in simp_all)

end
