(* ===== verification/Genode_Base.thy ===== *)
theory Genode_Base
  imports Gneiss_Prelude
begin

text \<open>
  The Genode platform layer: the object factory of \<open>platform/genode/cai_factory.h\<close> and the
  component life cycle of \<open>platform/genode/cai_main.cc\<close>. The Genode framework itself (heap,
  RPC, signals, sessions) is not part of the repository: it is the parameter \<open>G\<close> of type
  \<open>'w genode\<close>, one field per framework call of the sources, and what the code relies on
  is stated in the locale \<open>genode_heap\<close>. A framework constructor or call that may throw
  returns \<open>False\<close> or \<open>None\<close> when it throws.
\<close>

subsection \<open>The framework calls of the sources\<close>

text \<open>The arguments of a session request (\<open>ram_quota\<close>, \<open>cap_quota\<close>, \<open>label\<close>, \<open>memory_size\<close>).\<close>

record session_args =
  sa_ram_quota :: u64
  sa_cap_quota :: u64
  sa_label :: string
  sa_memory_size :: "u64 option"

record 'w genode =
  \<comment> \<open>\<open>Genode::Constructible<Factory>\<close>, \<open>operator new/delete\<close> on its heap, \<open>Genode::destroy\<close>\<close>
  g_constructed :: "('w, bool) state"
  g_construct :: "('w, unit) state"
  g_alloc :: "string \<Rightarrow> ('w, addr option) state"
  g_delete :: "addr \<Rightarrow> ('w, unit) state"
  g_destroy :: "addr \<Rightarrow> ('w, unit) state"
  g_warning :: "string \<Rightarrow> ('w, unit) state"
  \<comment> \<open>signals, the parent interface\<close>
  g_submit :: "u64 \<Rightarrow> ('w, unit) state"
  g_signal_valid :: "u64 \<Rightarrow> bool"
  g_signal_handler :: "addr \<Rightarrow> ('w, u64 option) state"
  g_exit :: "int \<Rightarrow> ('w, unit) state"
  g_announce :: "addr \<Rightarrow> ('w, unit) state"
  g_root_component :: "addr \<Rightarrow> ('w, bool) state"
  \<comment> \<open>\<open>Genode::Connection\<close>: request and close a session for the object at an address\<close>
  g_connection :: "addr \<Rightarrow> string \<Rightarrow> session_args \<Rightarrow> ('w, bool) state"
  g_disconnect :: "addr \<Rightarrow> ('w, unit) state"
  g_attach :: "u64 \<Rightarrow> ('w, addr option) state"
  \<comment> \<open>RPC calls of the Gneiss session interfaces, by the address of the client object\<close>
  g_rpc_dataspace :: "addr \<Rightarrow> ('w, u64 option) state"
  g_rpc_sigh :: "addr \<Rightarrow> u64 \<Rightarrow> ('w, bool) state"
  g_rpc_write :: "addr \<Rightarrow> bytes \<Rightarrow> ('w, unit) state"
  g_rpc_read :: "addr \<Rightarrow> ('w, bytes) state"
  g_rpc_avail :: "addr \<Rightarrow> ('w, bool) state"
  \<comment> \<open>framework sessions: LOG, ROM, Timer, and the RAM dataspace of a server\<close>
  g_log_connection :: "addr \<Rightarrow> string \<Rightarrow> ('w, bool) state"
  g_log_write :: "addr \<Rightarrow> string \<Rightarrow> ('w, unit) state"
  g_rom_dataspace :: "addr \<Rightarrow> string \<Rightarrow> ('w, bool) state"
  g_rom_update :: "addr \<Rightarrow> ('w, unit) state"
  g_rom_local_addr :: "addr \<Rightarrow> ('w, addr) state"
  g_rom_size :: "addr \<Rightarrow> ('w, u64) state"
  g_timer_connection :: "addr \<Rightarrow> string \<Rightarrow> ('w, bool) state"
  g_elapsed_us :: "addr \<Rightarrow> ('w, u64) state"
  g_timeout_scheduled :: "addr \<Rightarrow> ('w, bool) state"
  g_timeout_discard :: "addr \<Rightarrow> ('w, unit) state"
  g_timeout_schedule :: "addr \<Rightarrow> u64 \<Rightarrow> ('w, unit) state"
  g_ram_dataspace :: "addr \<Rightarrow> u64 \<Rightarrow> ('w, (addr \<times> u64 \<times> u64) option) state"
  \<comment> \<open>\<open>Arg_string\<close> and \<open>Session_label\<close>\<close>
  g_arg_value :: "string \<Rightarrow> string \<Rightarrow> u64 \<Rightarrow> u64"
  g_label_from_args :: "string \<Rightarrow> string"
  g_label_prefix :: "string \<Rightarrow> string"
  g_label_last_element :: "string \<Rightarrow> string"
  g_label_length :: "string \<Rightarrow> nat"

subsection \<open>The factory\<close>

definition check_factory :: "'w genode \<Rightarrow> ('w, unit) state" where
  "check_factory G = do {
     c \<leftarrow> g_constructed G;
     whenM (\<not> c) (g_construct G)
   }"

text \<open>
  \<open>create2<T>(args)\<close>: allocate on the heap and run the constructor \<open>ctor\<close> in place. A
  constructor that throws yields \<open>None\<close>; C++ then returns the memory and the handler turns
  the exception into \<open>nullptr\<close>. A constructor that succeeds may give a value to its caller
  (the stores it makes through the references it was passed).
\<close>

definition create2 ::
  "'w genode \<Rightarrow> string \<Rightarrow> (addr \<Rightarrow> ('w, 'a option) state) \<Rightarrow> ('w, (addr \<times> 'a) option) state" where
  "create2 G T ctor = do {
     m \<leftarrow> g_alloc G T;
     case m of None \<Rightarrow> ret None
     | Some p \<Rightarrow> do {
         r \<leftarrow> ctor p;
         case r of None \<Rightarrow> do { g_delete G p; ret None }
         | Some a \<Rightarrow> ret (Some (p, a))
       }
   }"

definition create ::
  "'w genode \<Rightarrow> string \<Rightarrow> (addr \<Rightarrow> ('w, 'a option) state) \<Rightarrow> ('w, (addr \<times> 'a) option) state" where
  "create G T ctor = do {
     g_warning G ''create is deprecated'';
     create2 G T ctor
   }"

definition destroy :: "'w genode \<Rightarrow> addr \<Rightarrow> ('w, unit) state" where
  "destroy G obj = g_destroy G obj"

definition destroy_void :: "'w genode \<Rightarrow> addr \<Rightarrow> ('w, unit) state" where
  "destroy_void G obj = do {
     g_warning G ''destroy is deprecated'';
     destroy G obj
   }"

text \<open>The pointer that results from \<open>create2\<close>, and a constructor that only reports success.\<close>

definition ptr :: "(addr \<times> 'a) option \<Rightarrow> addr" where
  "ptr r = (case r of None \<Rightarrow> null | Some (p, _) \<Rightarrow> p)"

lemma ptr_simps [simp]: "ptr None = null" "ptr (Some (p, a)) = p"
  by (simp_all add: ptr_def)

definition succeeds :: "('w, bool) state \<Rightarrow> ('w, unit option) state" where
  "succeeds m = do {
     ok \<leftarrow> m;
     ret (if ok then Some () else None)
   }"

lemma keeps_succeeds [keeps_intros]: "keeps f m \<Longrightarrow> keeps f (succeeds m)"
  by (auto simp: succeeds_def intro!: keeps_intros)

subsection \<open>What the code relies on\<close>

text \<open>
  \<open>fheap w\<close> is \<open>None\<close> while the factory is not constructed, otherwise the set of objects on
  its heap. Constructing the factory a second time would replace its heap and lose every
  object: \<open>g_construct\<close> always ends with an empty heap.
\<close>

definition objects :: "addr set option \<Rightarrow> addr set" where
  "objects h = (case h of None \<Rightarrow> {} | Some S \<Rightarrow> S)"

lemma objects_simps [simp]: "objects None = {}" "objects (Some S) = S"
  by (simp_all add: objects_def)

locale genode_heap =
  fixes G :: "'w genode"
    and fheap :: "'w \<Rightarrow> addr set option"
  assumes constructed_law: "wp (g_constructed G) (\<lambda>b w'. b = (fheap w \<noteq> None) \<and> fheap w' = fheap w) w"
    and construct_law: "wp (g_construct G) (\<lambda>_ w'. fheap w' = Some {}) w"
    and alloc_law: "fheap w = Some S \<Longrightarrow> wp (g_alloc G T) (\<lambda>r w'. case r of
          None \<Rightarrow> fheap w' = Some S
        | Some p \<Rightarrow> p \<noteq> null \<and> p \<notin> S \<and> fheap w' = Some (insert p S)) w"
    and delete_law: "fheap w = Some S \<Longrightarrow> wp (g_delete G p) (\<lambda>_ w'. fheap w' = Some (S - {p})) w"
    and destroy_law: "fheap w = Some S \<Longrightarrow> wp (g_destroy G p) (\<lambda>_ w'. fheap w' = Some (S - {p})) w"
    and warning_keeps [keeps_intros]: "keeps fheap (g_warning G s)"
    and submit_keeps [keeps_intros]: "keeps fheap (g_submit G c)"
    and handler_keeps [keeps_intros]: "keeps fheap (g_signal_handler G p)"
    and announce_keeps [keeps_intros]: "keeps fheap (g_announce G p)"
    and root_component_keeps [keeps_intros]: "keeps fheap (g_root_component G p)"
    and connection_keeps [keeps_intros]: "keeps fheap (g_connection G p sv a)"
    and disconnect_keeps [keeps_intros]: "keeps fheap (g_disconnect G p)"
    and attach_keeps [keeps_intros]: "keeps fheap (g_attach G c)"
    and rpc_dataspace_keeps [keeps_intros]: "keeps fheap (g_rpc_dataspace G p)"
    and rpc_sigh_keeps [keeps_intros]: "keeps fheap (g_rpc_sigh G p c)"
    and log_connection_keeps [keeps_intros]: "keeps fheap (g_log_connection G p l)"
    and rom_dataspace_keeps [keeps_intros]: "keeps fheap (g_rom_dataspace G p l)"
    and timer_connection_keeps [keeps_intros]: "keeps fheap (g_timer_connection G p l)"
    and ram_dataspace_keeps [keeps_intros]: "keeps fheap (g_ram_dataspace G p n)"
    and ram_dataspace_addr: "result (g_ram_dataspace G p n) w = Some (la, sz, ds) \<Longrightarrow> la \<noteq> null"
begin

text \<open>\<open>check_factory\<close> makes the heap usable and never loses an object.\<close>

lemma wp_check_factory:
  assumes "\<And>w'. fheap w' = Some (objects (fheap w)) \<Longrightarrow> Q () w'"
  shows "wp (check_factory G) Q w"
  unfolding check_factory_def wp_simps
proof (rule wp_mono [OF constructed_law], goal_cases)
  case (1 b w')
  then show ?case
    using assms wp_mono [OF construct_law, where Q = Q] by auto
qed

lemma wp_destroy:
  "fheap w = Some S \<Longrightarrow> (\<And>w'. fheap w' = Some (S - {p}) \<Longrightarrow> Q () w') \<Longrightarrow> wp (destroy G p) Q w"
  unfolding destroy_def by (rule wp_mono [OF destroy_law]) auto

lemma wp_create2_val:
  assumes "fheap w = Some S" and "\<And>p. keeps fheap (ctor p)"
    and val: "\<And>p w a. result (ctor p) w = Some a \<Longrightarrow> R a"
    and none: "\<And>w'. fheap w' = Some S \<Longrightarrow> Q None w'"
    and some: "\<And>p a w'. p \<noteq> null \<Longrightarrow> p \<notin> S \<Longrightarrow> R a \<Longrightarrow> fheap w' = Some (insert p S) \<Longrightarrow> Q (Some (p, a)) w'"
  shows "wp (create2 G T ctor) Q w"
  unfolding create2_def wp_simps
proof (rule wp_mono [OF alloc_law [OF assms(1)]], goal_cases)
  case (1 m w1)
  show ?case
  proof (cases m)
    case None
    with 1 none show ?thesis by simp
  next
    case (Some p)
    with 1 have p: "p \<noteq> null" "p \<notin> S" "fheap w1 = Some (insert p S)" by auto
    have "wp (ctor p) (\<lambda>a w2. (\<forall>b. a = Some b \<longrightarrow> R b) \<and> fheap w2 = Some (insert p S)) w1"
      using keepsD [OF assms(2), of p w1] p(3) val [of p w1] by (simp add: wp_run)
    then have "wp (ctor p) (\<lambda>a. case a of None \<Rightarrow> wp (g_delete G p) (\<lambda>_. Q None) | Some a \<Rightarrow> Q (Some (p, a))) w1"
    proof (rule wp_mono, goal_cases)
      case (1 r w2)
      then have h: "fheap w2 = Some (insert p S)" and R: "\<forall>b. r = Some b \<longrightarrow> R b" by simp_all
      from p(2) show ?case
        using wp_mono [OF delete_law [OF h, of p], where Q = "\<lambda>_. Q None"] none some [OF p(1,2) _ h] R
        by (cases r) simp_all
    qed
    with Some show ?thesis by (simp add: wp_simps cong: option.case_cong)
  qed
qed

lemma wp_create2:
  assumes "fheap w = Some S" and "\<And>p. keeps fheap (ctor p)"
    and "\<And>w'. fheap w' = Some S \<Longrightarrow> Q None w'"
    and "\<And>p a w'. p \<noteq> null \<Longrightarrow> p \<notin> S \<Longrightarrow> fheap w' = Some (insert p S) \<Longrightarrow> Q (Some (p, a)) w'"
  shows "wp (create2 G T ctor) Q w"
  by (rule wp_create2_val [where R = "\<lambda>_. True"]) (use assms in auto)

lemma wp_create:
  assumes "fheap w = Some S" and "\<And>p. keeps fheap (ctor p)"
    and "\<And>w'. fheap w' = Some S \<Longrightarrow> Q None w'"
    and "\<And>p a w'. p \<noteq> null \<Longrightarrow> p \<notin> S \<Longrightarrow> fheap w' = Some (insert p S) \<Longrightarrow> Q (Some (p, a)) w'"
  shows "wp (create G T ctor) Q w"
  unfolding create_def wp_simps
  by (rule keeps_wpI [OF warning_keeps], rule wp_create2) (use assms in auto)

lemma wp_destroy_void:
  "fheap w = Some S \<Longrightarrow> (\<And>w'. fheap w' = Some (S - {p}) \<Longrightarrow> Q () w') \<Longrightarrow> wp (destroy_void G p) Q w"
  unfolding destroy_void_def wp_simps
  by (rule keeps_wpI [OF warning_keeps], rule wp_destroy) auto

end

subsection \<open>Clients of the factory\<close>

text \<open>
  The contract every Gneiss client session keeps with the factory: \<open>initialize\<close> stores
  either a null pointer and leaves the heap alone or the address of exactly one new object,
  and \<open>finalize\<close> destroys the object the session points to.
\<close>

locale factory_client = genode_heap G fheap
  for G :: "'w genode" and fheap :: "'w \<Rightarrow> addr set option" +
  fixes init :: "'c \<Rightarrow> ('w, 'c) state"
    and fin :: "'c \<Rightarrow> ('w, 'c) state"
    and obj :: "'c \<Rightarrow> addr"
  assumes init_law: "wp (init c) (\<lambda>c' w'.
      (obj c' = null \<and> fheap w' = Some (objects (fheap w))) \<or>
      (obj c' \<noteq> null \<and> obj c' \<notin> objects (fheap w) \<and> fheap w' = Some (insert (obj c') (objects (fheap w))))) w"
    and fin_law: "fheap w = Some S \<Longrightarrow> wp (fin c) (\<lambda>_ w'. fheap w' = Some (S - {obj c})) w"
begin

text \<open>Opening and closing a session is balanced, whether or not the session came up.\<close>

lemma session_balanced:
  assumes "null \<notin> objects (fheap w)"
  shows "wp (State_Monad.bind (init c) fin) (\<lambda>_ w'. fheap w' = Some (objects (fheap w))) w"
  unfolding wp_bind
proof (rule wp_mono [OF init_law], goal_cases)
  case (1 c' w1)
  then show ?case
  proof
    assume "obj c' = null \<and> fheap w1 = Some (objects (fheap w))"
    with assms show ?thesis using fin_law [of w1 "objects (fheap w)" c'] by simp
  next
    assume "obj c' \<noteq> null \<and> obj c' \<notin> objects (fheap w) \<and> fheap w1 = Some (insert (obj c') (objects (fheap w)))"
    with assms show ?thesis using fin_law [of w1 "insert (obj c') (objects (fheap w))" c'] by simp
  qed
qed

end

subsection \<open>Sessions driven by component code\<close>

text \<open>What a session holds on the heap.\<close>

definition held :: "('c \<Rightarrow> bool) \<Rightarrow> ('c \<Rightarrow> addr) \<Rightarrow> 'c \<Rightarrow> addr set" where
  "held initialized obj c = (if initialized c then {obj c} else {})"

text \<open>
  \<open>owned_by\<close>: the heap is the part \<open>S\<close> of others and, if the session is initialized, its
  object; a session that is not initialized has no object.
\<close>

definition owned_by :: "('c \<Rightarrow> bool) \<Rightarrow> ('c \<Rightarrow> addr) \<Rightarrow> addr set \<Rightarrow> 'c \<Rightarrow> addr set option \<Rightarrow> bool" where
  "owned_by initialized obj S c h \<longleftrightarrow> null \<notin> S \<and> h = Some (S \<union> held initialized obj c) \<and>
     (if initialized c then obj c \<noteq> null \<and> obj c \<notin> S else obj c = null)"

locale ada_session = genode_heap G fheap
  for G :: "'w genode" and fheap :: "'w \<Rightarrow> addr set option" +
  fixes initialized :: "'c \<Rightarrow> bool"
    and ini :: "'c \<Rightarrow> ('w, 'c) state"
    and fin :: "'c \<Rightarrow> ('w, 'c) state"
    and obj :: "'c \<Rightarrow> addr"
  assumes init_noop: "initialized c \<Longrightarrow> ini c = ret c"
    and init_law: "\<not> initialized c \<Longrightarrow> wp (ini c) (\<lambda>c' w'.
      (\<not> initialized c' \<and> obj c' = null \<and> fheap w' = Some (objects (fheap w))) \<or>
      (initialized c' \<and> obj c' \<noteq> null \<and> obj c' \<notin> objects (fheap w) \<and>
       fheap w' = Some (insert (obj c') (objects (fheap w))))) w"
    and fin_law: "fheap w = Some S \<Longrightarrow> null \<notin> S \<Longrightarrow> initialized c \<or> obj c = null \<Longrightarrow>
      wp (fin c) (\<lambda>c' w'. \<not> initialized c' \<and> obj c' = null \<and> fheap w' = Some (S - {obj c})) w"
begin

lemma init_owned:
  assumes "owned_by initialized obj S c (fheap w)"
  shows "wp (ini c) (\<lambda>c' w'. owned_by initialized obj S c' (fheap w')) w"
proof (cases "initialized c")
  case True
  with assms show ?thesis by (simp add: init_noop wp_simps)
next
  case False
  show ?thesis
    by (rule wp_mono [OF init_law [OF False]])
      (use assms False in \<open>auto simp: owned_by_def held_def\<close>)
qed

lemma fin_owned:
  assumes "owned_by initialized obj S c (fheap w)"
  shows "wp (fin c) (\<lambda>c' w'. owned_by initialized obj S c' (fheap w') \<and> \<not> initialized c') w"
proof -
  from assms have "fheap w = Some (S \<union> held initialized obj c)" "null \<notin> S \<union> held initialized obj c"
      "initialized c \<or> obj c = null"
    by (auto simp: owned_by_def held_def split: if_splits)
  from fin_law [OF this] show ?thesis
    by (rule wp_mono) (use assms in \<open>auto simp: owned_by_def held_def split: if_splits\<close>)
qed

lemma run_session_owned:
  "owned_by initialized obj S c (fheap w) \<Longrightarrow>
   wp (run_session ini fin ops c) (\<lambda>c' w'. owned_by initialized obj S c' (fheap w')) w"
proof (induction ops arbitrary: c w)
  case Nil
  then show ?case by (simp add: wp_simps)
next
  case (Cons op ops)
  then show ?case
    by (cases op) (auto simp: wp_bind intro: wp_mono [OF init_owned] wp_mono [OF fin_owned])
qed

text \<open>A session that is finalized last leaves the heap as it was without the session.\<close>

lemma run_session_released:
  assumes "owned_by initialized obj S c (fheap w)"
  shows "wp (run_session ini fin (ops @ [Op_Finalize]) c) (\<lambda>c' w'. \<not> initialized c' \<and> fheap w' = Some S) w"
  using assms
proof (induction ops arbitrary: c w)
  case Nil
  then show ?case
    by (auto simp: wp_simps intro!: wp_mono [OF fin_owned] simp: owned_by_def held_def)
next
  case (Cons op ops)
  then show ?case
    by (cases op) (auto simp: wp_bind intro: wp_mono [OF init_owned] wp_mono [OF fin_owned])
qed

end

text \<open>The address of an Ada subprogram, which is never null.\<close>

locale genode_component = genode_heap G fheap
  for G :: "'w genode" and fheap :: "'w \<Rightarrow> addr set option" +
  fixes cb :: addr
  assumes cb_not_null: "cb \<noteq> null"

end
