(* ===== verification/Genode_Reference.thy ===== *)
theory Genode_Reference
  imports Genode_Base
begin

text \<open>
  An executable Genode environment: a heap with a bump allocator, a list of answers that
  decides which allocations and framework constructors fail, and a trace of what reaches the
  outside. It discharges the laws of \<open>genode_heap\<close> and carries the concrete runs of the
  development.
\<close>

datatype gevent = Warned string | Wrote string | Exited int | Submitted u64 | Announced addr
  | Requested string session_args | Scheduled u64 | Discarded | Rom_Updated | Received bytes

record gsim =
  gs_up :: bool
  gs_objects :: "addr list"
  gs_next :: addr
  gs_answers :: "bool list"
  gs_trace :: "gevent list"

definition gsim_init :: gsim where
  "gsim_init = \<lparr> gs_up = False, gs_objects = [], gs_next = 16, gs_answers = [], gs_trace = [] \<rparr>"

text \<open>The next answer; an exhausted list answers that the call succeeds.\<close>

definition gs_answer :: "(gsim, bool) state" where
  "gs_answer = State (\<lambda>w. case gs_answers w of [] \<Rightarrow> (True, w) | b # bs \<Rightarrow> (b, w\<lparr>gs_answers := bs\<rparr>))"

definition gs_log :: "gevent \<Rightarrow> (gsim, unit) state" where
  "gs_log e = State (\<lambda>w. ((), w\<lparr>gs_trace := gs_trace w @ [e]\<rparr>))"

definition gs_try :: "'a \<Rightarrow> (gsim, 'a option) state" where
  "gs_try a = do {
     ok \<leftarrow> gs_answer;
     ret (if ok then Some a else None)
   }"

definition gs_fresh :: "gsim \<Rightarrow> addr" where
  "gs_fresh w = (if gs_next w \<noteq> null \<and> gs_next w \<notin> set (gs_objects w) then gs_next w else null)"

definition gs_alloc :: "(gsim, addr option) state" where
  "gs_alloc = do {
     ok \<leftarrow> gs_answer;
     State (\<lambda>w. if \<not> ok \<or> gs_fresh w = null then (None, w)
        else (Some (gs_fresh w), w\<lparr>gs_objects := gs_fresh w # gs_objects w, gs_next := gs_next w + 16\<rparr>))
   }"

definition gs_release :: "addr \<Rightarrow> (gsim, unit) state" where
  "gs_release p = State (\<lambda>w. ((), w\<lparr>gs_objects := filter (\<lambda>q. q \<noteq> p) (gs_objects w)\<rparr>))"

text \<open>Session arguments of the form \<open>label;ram_quota;memory_size\<close> are not parsed: a fixed table.\<close>

definition gs_arg :: "string \<Rightarrow> string \<Rightarrow> u64 \<Rightarrow> u64" where
  "gs_arg args key dflt = (if key = ''ram_quota'' \<and> args \<noteq> [] then 8192
     else if key = ''memory_size'' \<and> args \<noteq> [] then 4096 else dflt)"

text \<open>A label \<open>a -> b\<close>, with the separator written as one character \<open>>\<close>.\<close>

definition gs_prefix :: "string \<Rightarrow> string" where
  "gs_prefix l = (if CHR ''>'' \<in> set l then rev (tl (dropWhile (\<lambda>c. c \<noteq> CHR ''>'') (rev l))) else [])"

definition gs_last_element :: "string \<Rightarrow> string" where
  "gs_last_element l = rev (takeWhile (\<lambda>c. c \<noteq> CHR ''>'') (rev l))"

definition gsim_genode :: "gsim genode" where
  "gsim_genode = \<lparr>
     g_constructed = State (\<lambda>w. (gs_up w, w)),
     g_construct = State (\<lambda>w. ((), w\<lparr>gs_up := True, gs_objects := []\<rparr>)),
     g_alloc = (\<lambda>_. gs_alloc),
     g_delete = gs_release,
     g_destroy = gs_release,
     g_warning = (\<lambda>s. gs_log (Warned s)),
     g_submit = (\<lambda>c. gs_log (Submitted c)),
     g_signal_valid = (\<lambda>c. c \<noteq> 0),
     g_signal_handler = (\<lambda>p. gs_try (p + 1)),
     g_exit = (\<lambda>s. gs_log (Exited s)),
     g_announce = (\<lambda>p. gs_log (Announced p)),
     g_root_component = (\<lambda>_. gs_answer),
     g_connection = (\<lambda>_ sv a. do { gs_log (Requested sv a); gs_answer }),
     g_disconnect = (\<lambda>_. ret ()),
     g_attach = (\<lambda>c. gs_try (c + 0x1000)),
     g_rpc_dataspace = (\<lambda>p. gs_try (p + 2)),
     g_rpc_sigh = (\<lambda>_ _. gs_answer),
     g_rpc_write = (\<lambda>_ _. ret ()),
     g_rpc_read = (\<lambda>_. ret (replicate 128 0)),
     g_rpc_avail = (\<lambda>_. gs_answer),
     g_log_connection = (\<lambda>_ _. gs_answer),
     g_log_write = (\<lambda>_ s. gs_log (Wrote s)),
     g_rom_dataspace = (\<lambda>_ _. gs_answer),
     g_rom_update = (\<lambda>_. gs_log Rom_Updated),
     g_rom_local_addr = (\<lambda>p. ret (p + 0x2000)),
     g_rom_size = (\<lambda>_. ret 4096),
     g_timer_connection = (\<lambda>_ _. gs_answer),
     g_elapsed_us = (\<lambda>_. ret 1234567),
     g_timeout_scheduled = (\<lambda>_. gs_answer),
     g_timeout_discard = (\<lambda>_. gs_log Discarded),
     g_timeout_schedule = (\<lambda>_ d. gs_log (Scheduled d)),
     g_ram_dataspace = (\<lambda>p n. gs_try (0x3000, n, p + 3)),
     g_arg_value = gs_arg,
     g_label_from_args = (\<lambda>a. a),
     g_label_prefix = gs_prefix,
     g_label_last_element = gs_last_element,
     g_label_length = (\<lambda>l. Suc (length l))
   \<rparr>"

definition gsim_heap :: "gsim \<Rightarrow> addr set option" where
  "gsim_heap w = (if gs_up w then Some (set (gs_objects w)) else None)"

lemma gs_answer_keeps [keeps_intros]: "keeps gsim_heap gs_answer"
  by (simp add: keeps_def gs_answer_def gsim_heap_def split: list.splits)

lemma gs_log_keeps [keeps_intros]: "keeps gsim_heap (gs_log e)"
  by (simp add: keeps_def gs_log_def gsim_heap_def)

lemma gs_try_keeps [keeps_intros]: "keeps gsim_heap (gs_try a)"
  unfolding gs_try_def by (intro keeps_intros)

lemma gs_alloc_law:
  assumes "gsim_heap w = Some S"
  shows "wp gs_alloc (\<lambda>r w'. case r of None \<Rightarrow> gsim_heap w' = Some S
      | Some p \<Rightarrow> p \<noteq> null \<and> p \<notin> S \<and> gsim_heap w' = Some (insert p S)) w"
  unfolding gs_alloc_def wp_simps
  by (rule keeps_wpI [OF gs_answer_keeps])
    (use assms in \<open>auto simp: wp_def gsim_heap_def gs_fresh_def split: if_splits\<close>)

interpretation gsim: genode_heap gsim_genode gsim_heap
proof unfold_locales
  fix w :: gsim and S T
  assume "gsim_heap w = Some S"
  then show "wp (g_alloc gsim_genode T) (\<lambda>r w'. case r of None \<Rightarrow> gsim_heap w' = Some S
      | Some p \<Rightarrow> p \<noteq> null \<and> p \<notin> S \<and> gsim_heap w' = Some (insert p S)) w"
    by (simp add: gsim_genode_def gs_alloc_law)
next
  fix p n w a sz c
  assume "result (g_ram_dataspace gsim_genode p n) w = Some (a, sz, c)"
  then show "a \<noteq> null"
    by (auto simp: gsim_genode_def gs_try_def split: prod.splits if_splits)
qed (auto simp: gsim_genode_def gsim_heap_def wp_def gs_release_def split: if_splits
      intro!: keeps_intros)

interpretation gsim_comp: genode_component gsim_genode gsim_heap "0x400"
  by unfold_locales simp

subsection \<open>Composed systems\<close>

text \<open>Code of one component in a world with several, and the framework as that component sees it.\<close>

definition at_part :: "('x \<Rightarrow> 's) \<Rightarrow> ('s \<Rightarrow> 'x \<Rightarrow> 'x) \<Rightarrow> ('s, 'a) state \<Rightarrow> ('x, 'a) state" where
  "at_part get put m = State (\<lambda>x. case run_state m (get x) of (a, s) \<Rightarrow> (a, put s x))"

lemma wp_at_part: "wp (at_part get put m) Q x \<longleftrightarrow> wp m (\<lambda>a s. Q a (put s x)) (get x)"
  by (simp add: at_part_def wp_def split: prod.splits)

definition lift_genode :: "('x \<Rightarrow> 'w) \<Rightarrow> ('w \<Rightarrow> 'x \<Rightarrow> 'x) \<Rightarrow> 'w genode \<Rightarrow> 'x genode" where
  "lift_genode get put G = \<lparr>
     g_constructed = at_part get put (g_constructed G),
     g_construct = at_part get put (g_construct G),
     g_alloc = (\<lambda>a. at_part get put (g_alloc G a)),
     g_delete = (\<lambda>a. at_part get put (g_delete G a)),
     g_destroy = (\<lambda>a. at_part get put (g_destroy G a)),
     g_warning = (\<lambda>a. at_part get put (g_warning G a)),
     g_submit = (\<lambda>a. at_part get put (g_submit G a)),
     g_signal_valid = g_signal_valid G,
     g_signal_handler = (\<lambda>a. at_part get put (g_signal_handler G a)),
     g_exit = (\<lambda>a. at_part get put (g_exit G a)),
     g_announce = (\<lambda>a. at_part get put (g_announce G a)),
     g_root_component = (\<lambda>a. at_part get put (g_root_component G a)),
     g_connection = (\<lambda>a b c. at_part get put (g_connection G a b c)),
     g_disconnect = (\<lambda>a. at_part get put (g_disconnect G a)),
     g_attach = (\<lambda>a. at_part get put (g_attach G a)),
     g_rpc_dataspace = (\<lambda>a. at_part get put (g_rpc_dataspace G a)),
     g_rpc_sigh = (\<lambda>a b. at_part get put (g_rpc_sigh G a b)),
     g_rpc_write = (\<lambda>a b. at_part get put (g_rpc_write G a b)),
     g_rpc_read = (\<lambda>a. at_part get put (g_rpc_read G a)),
     g_rpc_avail = (\<lambda>a. at_part get put (g_rpc_avail G a)),
     g_log_connection = (\<lambda>a b. at_part get put (g_log_connection G a b)),
     g_log_write = (\<lambda>a b. at_part get put (g_log_write G a b)),
     g_rom_dataspace = (\<lambda>a b. at_part get put (g_rom_dataspace G a b)),
     g_rom_update = (\<lambda>a. at_part get put (g_rom_update G a)),
     g_rom_local_addr = (\<lambda>a. at_part get put (g_rom_local_addr G a)),
     g_rom_size = (\<lambda>a. at_part get put (g_rom_size G a)),
     g_timer_connection = (\<lambda>a b. at_part get put (g_timer_connection G a b)),
     g_elapsed_us = (\<lambda>a. at_part get put (g_elapsed_us G a)),
     g_timeout_scheduled = (\<lambda>a. at_part get put (g_timeout_scheduled G a)),
     g_timeout_discard = (\<lambda>a. at_part get put (g_timeout_discard G a)),
     g_timeout_schedule = (\<lambda>a b. at_part get put (g_timeout_schedule G a b)),
     g_ram_dataspace = (\<lambda>a b. at_part get put (g_ram_dataspace G a b)),
     g_arg_value = g_arg_value G,
     g_label_from_args = g_label_from_args G,
     g_label_prefix = g_label_prefix G,
     g_label_last_element = g_label_last_element G,
     g_label_length = g_label_length G
   \<rparr>"

end
