(* ===== verification/Genode_Clients.thy ===== *)
theory Genode_Clients
  imports Genode_Reference
begin

text \<open>
  The client sessions on Genode: the C++ classes \<open>Log_Client\<close>, \<open>Memory_Client\<close>,
  \<open>Message_Client\<close>, \<open>Rom_Client\<close> and \<open>Timer::Client\<close>, and the Ada bodies
  \<open>Gneiss.*.Client\<close> on top of them. The Ada record and the C++ object are the same memory:
  one HOL record per class. A C++ pointer to an object the session owns is the address and,
  where the object has fields of its own, their values. A call through a null pointer is the
  framework call at address \<open>null\<close>, of which nothing is known. \<open>Session_Index_Option\<close> is
  an option, \<open>Label & ASCII.NUL\<close> a C string that ends at its first NUL.
\<close>

definition c_string :: "string \<Rightarrow> string" where
  "c_string s = takeWhile (\<lambda>c. c \<noteq> CHR 0x00) s"

lemma c_string_id: "CHR 0x00 \<notin> set s \<Longrightarrow> c_string s = s"
  unfolding c_string_def takeWhile_eq_all_conv by blast

subsection \<open>Log client\<close>

record log_client =
  lc_session :: addr
  lc_buffer :: string
  lc_cursor :: nat

definition log_client_new :: log_client where
  "log_client_new = \<lparr> lc_session = null, lc_buffer = replicate 4096 (CHR 0x00), lc_cursor = 0 \<rparr>"

definition log_client_initialize :: "'w genode \<Rightarrow> string \<Rightarrow> log_client \<Rightarrow> ('w, log_client) state" where
  "log_client_initialize G label c = do {
     check_factory G;
     s \<leftarrow> create2 G ''Genode::Log_connection'' (\<lambda>p. succeeds (g_log_connection G p label));
     ret (c\<lparr>lc_session := ptr s\<rparr>)
   }"

definition log_client_write :: "'w genode \<Rightarrow> log_client \<Rightarrow> string \<Rightarrow> ('w, unit) state" where
  "log_client_write G c msg = g_log_write G (lc_session c) msg"

definition log_client_finalize :: "'w genode \<Rightarrow> log_client \<Rightarrow> ('w, log_client) state" where
  "log_client_finalize G c = do {
     destroy G (lc_session c);
     ret (c\<lparr>lc_session := null\<rparr>)
   }"

text \<open>\<open>Gneiss.Log.Client\<close>: the cursor is set whether or not the session came up.\<close>

definition Log_Client_Initialized :: "log_client \<Rightarrow> bool" where
  "Log_Client_Initialized c \<longleftrightarrow> lc_session c \<noteq> null \<and> 1 \<le> lc_cursor c \<and> lc_cursor c \<le> 4096"

definition Log_Client_Initialize :: "'w genode \<Rightarrow> string \<Rightarrow> log_client \<Rightarrow> ('w, log_client) state" where
  "Log_Client_Initialize G label c =
     (if Log_Client_Initialized c then ret c
      else do {
        c \<leftarrow> log_client_initialize G (c_string label) c;
        ret (c\<lparr>lc_cursor := 1\<rparr>)
      })"

definition Log_Client_Finalize :: "'w genode \<Rightarrow> log_client \<Rightarrow> ('w, log_client) state" where
  "Log_Client_Finalize G c =
     (if \<not> Log_Client_Initialized c then ret c
      else do {
        c \<leftarrow> log_client_finalize G c;
        ret (c\<lparr>lc_session := null\<rparr>)
      })"

subsection \<open>Memory client\<close>

definition RAM_QUOTA_memory :: u64 where "RAM_QUOTA_memory = 8 * 1024"
definition CAP_QUOTA_memory :: u64 where "CAP_QUOTA_memory = 3"

record memory_connection =
  mc_addr :: addr
  mc_size :: u64

record memory_client =
  mcl_session :: "(addr \<times> memory_connection) option"
  mcl_index :: "nat option"

definition memory_client_new :: memory_client where
  "memory_client_new = \<lparr> mcl_session = None, mcl_index = None \<rparr>"

text \<open>\<open>Memory_Session::service_name\<close> and the RPC stub \<open>Memory_Session_Client::dataspace\<close>.\<close>

definition memory_service_name :: string where
  "memory_service_name = ''Gneiss_Memory''"

definition memory_session_dataspace :: "'w genode \<Rightarrow> addr \<Rightarrow> ('w, u64 option) state" where
  "memory_session_dataspace G p = g_rpc_dataspace G p"

definition memory_connection_ctor ::
  "'w genode \<Rightarrow> u64 \<Rightarrow> string \<Rightarrow> addr \<Rightarrow> ('w, memory_connection option) state" where
  "memory_connection_ctor G sz label p = do {
     ok \<leftarrow> g_connection G p memory_service_name
       \<lparr> sa_ram_quota = RAM_QUOTA_memory + sz, sa_cap_quota = CAP_QUOTA_memory,
         sa_label = label, sa_memory_size = Some sz \<rparr>;
     if \<not> ok then ret None else do {
       ds \<leftarrow> memory_session_dataspace G p;
       a \<leftarrow> case ds of None \<Rightarrow> ret None | Some cap \<Rightarrow> g_attach G cap;
       case a of None \<Rightarrow> do { g_disconnect G p; ret None }
       | Some a \<Rightarrow> ret (Some \<lparr> mc_addr = a, mc_size = sz \<rparr>)
     }
   }"

definition memory_connection_size :: "memory_connection \<Rightarrow> u64" where
  "memory_connection_size m = mc_size m"

definition memory_connection_local_addr :: "memory_connection \<Rightarrow> addr" where
  "memory_connection_local_addr m = mc_addr m"

definition memory_client_initialize ::
  "'w genode \<Rightarrow> string \<Rightarrow> int \<Rightarrow> memory_client \<Rightarrow> ('w, memory_client) state" where
  "memory_client_initialize G label sz c = do {
     check_factory G;
     s \<leftarrow> create2 G ''Gneiss::Memory_Connection'' (memory_connection_ctor G (word_of_int sz) label);
     ret (c\<lparr>mcl_session := s\<rparr>)
   }"

text \<open>\<open>address\<close> and \<open>size\<close> dereference the session pointer: \<open>None\<close> if it is null.\<close>

definition memory_client_address :: "memory_client \<Rightarrow> addr option" where
  "memory_client_address c = map_option (\<lambda>(_, m). memory_connection_local_addr m) (mcl_session c)"

definition memory_client_size :: "memory_client \<Rightarrow> int option" where
  "memory_client_size c = map_option (\<lambda>(_, m). sint (memory_connection_size m)) (mcl_session c)"

definition memory_client_finalize :: "'w genode \<Rightarrow> memory_client \<Rightarrow> ('w, memory_client) state" where
  "memory_client_finalize G c = do {
     destroy G (ptr (mcl_session c));
     ret (c\<lparr>mcl_session := None\<rparr>)
   }"

text \<open>\<open>Gneiss.Memory.Client\<close>.\<close>

definition Memory_Client_Initialized :: "memory_client \<Rightarrow> bool" where
  "Memory_Client_Initialized c \<longleftrightarrow> ptr (mcl_session c) \<noteq> null \<and> mcl_index c \<noteq> None"

definition Memory_Client_Initialize ::
  "'w genode \<Rightarrow> string \<Rightarrow> int \<Rightarrow> nat \<Rightarrow> memory_client \<Rightarrow> ('w, memory_client) state" where
  "Memory_Client_Initialize G label sz idx c =
     (if Memory_Client_Initialized c \<or> sz < 0 then ret c
      else do {
        c \<leftarrow> memory_client_initialize G (c_string label) sz c;
        ret (if ptr (mcl_session c) \<noteq> null then c\<lparr>mcl_index := Some idx\<rparr> else c)
      })"

definition Memory_Client_Finalize :: "'w genode \<Rightarrow> memory_client \<Rightarrow> ('w, memory_client) state" where
  "Memory_Client_Finalize G c = do {
     c \<leftarrow> memory_client_finalize G c;
     ret (c\<lparr>mcl_index := None\<rparr>)
   }"

subsection \<open>Message client\<close>

definition RAM_QUOTA_message :: u64 where "RAM_QUOTA_message = 8192"
definition CAP_QUOTA_message :: u64 where "CAP_QUOTA_message = 3"

text \<open>
  A \<open>Message_Connection\<close> is bound to one of its two event methods and points to its client; the
  client's \<open>_connection\<close> is the address and the object.
\<close>

datatype event_method = Event | Dummy_Event

record message_connection =
  mcn_event_sigh :: event_method
  mcn_client :: addr

record message_client =
  msc_object :: "(addr \<times> message_connection) option"
  msc_index :: "nat option"
  msc_event :: addr

abbreviation msc_connection :: "message_client \<Rightarrow> addr" where
  "msc_connection c \<equiv> ptr (msc_object c)"

definition message_client_new :: message_client where
  "message_client_new = \<lparr> msc_object = None, msc_index = None, msc_event = null \<rparr>"

text \<open>\<open>Message_Session::service_name\<close> and the RPC stubs of \<open>Message_Session_Client\<close>.\<close>

definition message_service_name :: string where
  "message_service_name = ''Gneiss_Message''"

definition message_session_sigh :: "'w genode \<Rightarrow> addr \<Rightarrow> u64 \<Rightarrow> ('w, bool) state" where
  "message_session_sigh G p cap = g_rpc_sigh G p cap"

definition message_session_write :: "'w genode \<Rightarrow> addr \<Rightarrow> bytes \<Rightarrow> ('w, unit) state" where
  "message_session_write G p buf = g_rpc_write G p buf"

definition message_session_read :: "'w genode \<Rightarrow> addr \<Rightarrow> ('w, bytes) state" where
  "message_session_read G p = g_rpc_read G p"

definition message_session_avail :: "'w genode \<Rightarrow> addr \<Rightarrow> ('w, bool) state" where
  "message_session_avail G p = g_rpc_avail G p"

lemmas session_stubs = memory_session_dataspace_def message_session_sigh_def message_session_write_def
  message_session_read_def message_session_avail_def memory_connection_local_addr_def

definition message_connection_ctor ::
  "'w genode \<Rightarrow> string \<Rightarrow> addr \<Rightarrow> addr \<Rightarrow> ('w, message_connection option) state" where
  "message_connection_ctor G label client p = do {
     ok \<leftarrow> g_connection G p message_service_name
       \<lparr> sa_ram_quota = RAM_QUOTA_message, sa_cap_quota = CAP_QUOTA_message,
         sa_label = label, sa_memory_size = None \<rparr>;
     if \<not> ok then ret None else do {
       h \<leftarrow> g_signal_handler G p;
       ok \<leftarrow> case h of None \<Rightarrow> ret False | Some cap \<Rightarrow> message_session_sigh G p cap;
       if \<not> ok then do { g_disconnect G p; ret None }
       else ret (Some \<lparr> mcn_event_sigh = Event, mcn_client = client \<rparr>)
     }
   }"

text \<open>The constructor for a connection without a client, whose signals \<open>dummy_event\<close> receives.\<close>

definition message_connection_dummy :: "'w genode \<Rightarrow> string \<Rightarrow> addr \<Rightarrow> ('w, message_connection option) state" where
  "message_connection_dummy G label p = do {
     ok \<leftarrow> g_connection G p message_service_name
       \<lparr> sa_ram_quota = RAM_QUOTA_message, sa_cap_quota = CAP_QUOTA_message,
         sa_label = label, sa_memory_size = None \<rparr>;
     if \<not> ok then ret None else do {
       h \<leftarrow> g_signal_handler G p;
       case h of None \<Rightarrow> do { g_disconnect G p; ret None }
       | Some _ \<Rightarrow> ret (Some \<lparr> mcn_event_sigh = Dummy_Event, mcn_client = null \<rparr>)
     }
   }"

text \<open>
  \<open>event\<close> calls the client's procedure; \<open>call\<close> is the code at an address, \<open>clients\<close> the client
  objects of the component by address. \<open>message_connection_signal\<close> is the arrival of a signal.
\<close>

definition message_connection_event ::
  "(addr \<Rightarrow> ('w, unit) state) \<Rightarrow> (addr \<Rightarrow> message_client) \<Rightarrow> message_connection \<Rightarrow> ('w, unit) state" where
  "message_connection_event call clients m = call (msc_event (clients (mcn_client m)))"

definition message_connection_dummy_event :: "('w, unit) state" where
  "message_connection_dummy_event = ret ()"

definition message_connection_signal ::
  "(addr \<Rightarrow> ('w, unit) state) \<Rightarrow> (addr \<Rightarrow> message_client) \<Rightarrow> message_connection \<Rightarrow> ('w, unit) state" where
  "message_connection_signal call clients m = (case mcn_event_sigh m of
       Event \<Rightarrow> message_connection_event call clients m
     | Dummy_Event \<Rightarrow> message_connection_dummy_event)"

text \<open>\<open>self\<close> is the address of the client object (\<open>this\<close>).\<close>

definition message_client_initialize ::
  "'w genode \<Rightarrow> addr \<Rightarrow> string \<Rightarrow> message_client \<Rightarrow> ('w, message_client) state" where
  "message_client_initialize G self label c = do {
     check_factory G;
     s \<leftarrow> create2 G ''Gneiss::Message_Connection'' (message_connection_ctor G label self);
     ret (c\<lparr>msc_object := s\<rparr>)
   }"

text \<open>The C++ \<open>finalize\<close> leaves the connection pointer as it is.\<close>

definition message_client_finalize :: "'w genode \<Rightarrow> message_client \<Rightarrow> ('w, message_client) state" where
  "message_client_finalize G c = do {
     destroy G (msc_connection c);
     ret c
   }"

definition message_client_write :: "'w genode \<Rightarrow> message_client \<Rightarrow> bytes \<Rightarrow> ('w, unit) state" where
  "message_client_write G c buf = message_session_write G (msc_connection c) buf"

definition message_client_read :: "'w genode \<Rightarrow> message_client \<Rightarrow> ('w, bytes) state" where
  "message_client_read G c = message_session_read G (msc_connection c)"

definition message_client_avail :: "'w genode \<Rightarrow> message_client \<Rightarrow> ('w, int) state" where
  "message_client_avail G c = do {
     b \<leftarrow> message_session_avail G (msc_connection c);
     ret (of_bool b)
   }"

text \<open>\<open>Gneiss.Message.Client\<close>.\<close>

definition Message_Client_Initialized :: "message_client \<Rightarrow> bool" where
  "Message_Client_Initialized c \<longleftrightarrow> msc_connection c \<noteq> null \<and> msc_event c \<noteq> null \<and> msc_index c \<noteq> None"

definition Message_Client_Initialize ::
  "'w genode \<Rightarrow> addr \<Rightarrow> addr \<Rightarrow> string \<Rightarrow> nat \<Rightarrow> message_client \<Rightarrow> ('w, message_client) state" where
  "Message_Client_Initialize G event self label idx c =
     (if Message_Client_Initialized c then ret c
      else do {
        c \<leftarrow> message_client_initialize G self (c_string label) (c\<lparr>msc_event := event\<rparr>);
        ret (if msc_connection c \<noteq> null then c\<lparr>msc_index := Some idx\<rparr> else c\<lparr>msc_event := null\<rparr>)
      })"

definition Message_Client_Finalize :: "'w genode \<Rightarrow> message_client \<Rightarrow> ('w, message_client) state" where
  "Message_Client_Finalize G c =
     (if \<not> Message_Client_Initialized c then ret c
      else do {
        c \<leftarrow> message_client_finalize G c;
        ret (c\<lparr>msc_object := None, msc_event := null, msc_index := None\<rparr>)
      })"

definition Message_Client_Available :: "'w genode \<Rightarrow> message_client \<Rightarrow> ('w, bool) state" where
  "Message_Client_Available G c = do {
     a \<leftarrow> message_client_avail G c;
     ret (a = 1)
   }"

definition Message_Client_Write :: "'w genode \<Rightarrow> message_client \<Rightarrow> bytes \<Rightarrow> ('w, unit) state" where
  "Message_Client_Write G c content = message_client_write G c content"

definition Message_Client_Read :: "'w genode \<Rightarrow> message_client \<Rightarrow> ('w, bytes) state" where
  "Message_Client_Read G c = message_client_read G c"

subsection \<open>ROM client\<close>

record rom_client =
  rc_index :: "nat option"
  rc_rom :: addr
  rc_read :: addr

definition rom_client_new :: rom_client where
  "rom_client_new = \<lparr> rc_index = None, rc_rom = null, rc_read = null \<rparr>"

definition rom_client_initialize :: "'w genode \<Rightarrow> string \<Rightarrow> rom_client \<Rightarrow> ('w, rom_client) state" where
  "rom_client_initialize G label c = do {
     check_factory G;
     s \<leftarrow> create2 G ''Genode::Attached_rom_dataspace''
       (\<lambda>p. succeeds (g_rom_dataspace G p (if label = [] then ''config'' else label)));
     ret (c\<lparr>rc_rom := ptr s\<rparr>)
   }"

text \<open>\<open>update\<close> refreshes the dataspace and passes its address and size (as C \<open>int\<close>) to \<open>_read\<close>.\<close>

definition rom_client_update ::
  "'w genode \<Rightarrow> rom_client \<Rightarrow> (addr \<Rightarrow> int \<Rightarrow> 'c \<Rightarrow> ('w, 'c) state) \<Rightarrow> 'c \<Rightarrow> ('w, 'c) state" where
  "rom_client_update G c read ctx = do {
     g_rom_update G (rc_rom c);
     a \<leftarrow> g_rom_local_addr G (rc_rom c);
     n \<leftarrow> g_rom_size G (rc_rom c);
     read a (to_c_int (uint n)) ctx
   }"

definition rom_client_finalize :: "'w genode \<Rightarrow> rom_client \<Rightarrow> ('w, rom_client) state" where
  "rom_client_finalize G c = do {
     destroy G (rc_rom c);
     ret c
   }"

text \<open>\<open>Gneiss.Rom.Client\<close>.\<close>

definition Rom_Client_Initialized :: "rom_client \<Rightarrow> bool" where
  "Rom_Client_Initialized c \<longleftrightarrow> rc_index c \<noteq> None \<and> rc_rom c \<noteq> null \<and> rc_read c \<noteq> null"

definition Rom_Client_Initialize ::
  "'w genode \<Rightarrow> addr \<Rightarrow> string \<Rightarrow> nat \<Rightarrow> rom_client \<Rightarrow> ('w, rom_client) state" where
  "Rom_Client_Initialize G modify label idx c =
     (if Rom_Client_Initialized c then ret c
      else do {
        c \<leftarrow> rom_client_initialize G (c_string label) (c\<lparr>rc_index := Some idx, rc_read := modify\<rparr>);
        ret (if rc_rom c = null then c\<lparr>rc_index := None, rc_read := null\<rparr> else c)
      })"

definition Rom_Client_Finalize :: "'w genode \<Rightarrow> rom_client \<Rightarrow> ('w, rom_client) state" where
  "Rom_Client_Finalize G c =
     (if \<not> Rom_Client_Initialized c then ret c
      else do {
        c \<leftarrow> rom_client_finalize G c;
        ret (c\<lparr>rc_index := None, rc_read := null, rc_rom := null\<rparr>)
      })"

subsection \<open>Timer client\<close>

text \<open>\<open>Timer_Session\<close>: the connection and its one-shot timeout are framework objects at its address.\<close>

record timer_session =
  ts_client :: addr
  ts_callback :: addr

record timer_client =
  tc_object :: "(addr \<times> timer_session) option"
  tc_index :: "nat option"

abbreviation tc_session :: "timer_client \<Rightarrow> addr" where
  "tc_session c \<equiv> ptr (tc_object c)"

definition timer_client_new :: timer_client where
  "timer_client_new = \<lparr> tc_object = None, tc_index = None \<rparr>"

definition timer_client_initialized :: "timer_client \<Rightarrow> bool" where
  "timer_client_initialized c \<longleftrightarrow> tc_session c \<noteq> null"

definition timer_session_ctor ::
  "'w genode \<Rightarrow> addr \<Rightarrow> addr \<Rightarrow> string \<Rightarrow> addr \<Rightarrow> ('w, timer_session option) state" where
  "timer_session_ctor G callback client label p = do {
     ok \<leftarrow> g_timer_connection G p label;
     ret (if ok then Some \<lparr> ts_client = client, ts_callback = callback \<rparr> else None)
   }"

definition timer_session_timer :: "addr \<Rightarrow> addr" where
  "timer_session_timer p = p"

text \<open>The timeout calls \<open>handle_event\<close>; \<open>call\<close> is the code at an address.\<close>

definition timer_handle_event :: "(addr \<Rightarrow> ('w, unit) state) \<Rightarrow> timer_session \<Rightarrow> ('w, unit) state" where
  "timer_handle_event call s = call (ts_callback s)"

definition timer_client_initialize ::
  "'w genode \<Rightarrow> addr \<Rightarrow> addr \<Rightarrow> string \<Rightarrow> timer_client \<Rightarrow> ('w, timer_client) state" where
  "timer_client_initialize G self callback label c = do {
     check_factory G;
     s \<leftarrow> create G ''Timer_Session'' (timer_session_ctor G callback self label);
     ret (c\<lparr>tc_object := s\<rparr>)
   }"

definition timer_client_clock :: "'w genode \<Rightarrow> timer_client \<Rightarrow> ('w, u64) state" where
  "timer_client_clock G c = do {
     us \<leftarrow> g_elapsed_us G (timer_session_timer (tc_session c));
     ret (us * 1000)
   }"

definition update_timeout :: "'w genode \<Rightarrow> addr \<Rightarrow> u64 \<Rightarrow> ('w, unit) state" where
  "update_timeout G p d = do {
     s \<leftarrow> g_timeout_scheduled G p;
     whenM s (g_timeout_discard G p);
     g_timeout_schedule G p d
   }"

definition timer_client_set_timeout :: "'w genode \<Rightarrow> timer_client \<Rightarrow> u64 \<Rightarrow> ('w, unit) state" where
  "timer_client_set_timeout G c duration = update_timeout G (tc_session c) (duration div 1000)"

definition timer_client_finalize :: "'w genode \<Rightarrow> timer_client \<Rightarrow> ('w, timer_client) state" where
  "timer_client_finalize G c = do {
     destroy_void G (tc_session c);
     ret (c\<lparr>tc_object := None\<rparr>)
   }"

text \<open>\<open>Gneiss.Timer.Client\<close>: the index stays set after \<open>Finalize\<close>.\<close>

definition Timer_Client_Initialized :: "timer_client \<Rightarrow> bool" where
  "Timer_Client_Initialized c \<longleftrightarrow> timer_client_initialized c \<and> tc_index c \<noteq> None"

definition Timer_Client_Initialize ::
  "'w genode \<Rightarrow> addr \<Rightarrow> addr \<Rightarrow> string \<Rightarrow> nat \<Rightarrow> timer_client \<Rightarrow> ('w, timer_client) state" where
  "Timer_Client_Initialize G event self label idx c =
     (if Timer_Client_Initialized c then ret c
      else do {
        c \<leftarrow> timer_client_initialize G self event (c_string label) c;
        ret (if timer_client_initialized c then c\<lparr>tc_index := Some idx\<rparr> else c)
      })"

definition Timer_Client_Finalize :: "'w genode \<Rightarrow> timer_client \<Rightarrow> ('w, timer_client) state" where
  "Timer_Client_Finalize G c =
     (if \<not> Timer_Client_Initialized c then ret c else timer_client_finalize G c)"

definition Timer_Client_Clock :: "'w genode \<Rightarrow> timer_client \<Rightarrow> ('w, u64) state" where
  "Timer_Client_Clock G c = timer_client_clock G c"

definition Timer_Client_Set_Timeout :: "'w genode \<Rightarrow> timer_client \<Rightarrow> u64 \<Rightarrow> ('w, unit) state" where
  "Timer_Client_Set_Timeout G c d = timer_client_set_timeout G c d"

subsection \<open>Every client keeps the factory contract\<close>

context genode_heap
begin

lemma memory_connection_ctor_keeps [keeps_intros]: "keeps fheap (memory_connection_ctor G sz l p)"
  unfolding memory_connection_ctor_def session_stubs by (intro keeps_intros)

lemma message_connection_ctor_keeps [keeps_intros]: "keeps fheap (message_connection_ctor G l cl p)"
  unfolding message_connection_ctor_def session_stubs by (intro keeps_intros)

end

sublocale genode_heap \<subseteq> log_cl: factory_client G fheap "log_client_initialize G l" "log_client_finalize G" lc_session
  for l
  by unfold_locales
    (auto simp: log_client_initialize_def log_client_finalize_def wp_simps
      intro!: wp_check_factory wp_create2 wp_destroy keeps_intros)

sublocale genode_heap \<subseteq> mem_cl: factory_client G fheap "memory_client_initialize G l sz" "memory_client_finalize G"
  "\<lambda>c. ptr (mcl_session c)" for l sz
  by unfold_locales
    (auto simp: memory_client_initialize_def memory_client_finalize_def wp_simps
      intro!: wp_check_factory wp_create2 wp_destroy keeps_intros)

sublocale genode_heap \<subseteq> msg_cl: factory_client G fheap "message_client_initialize G self l" "message_client_finalize G"
  "\<lambda>c. msc_connection c" for self l
  by unfold_locales
    (auto simp: message_client_initialize_def message_client_finalize_def wp_simps
      intro!: wp_check_factory wp_create2 wp_destroy keeps_intros)

sublocale genode_heap \<subseteq> rom_cl: factory_client G fheap "rom_client_initialize G l" "rom_client_finalize G"
  rc_rom for l
  by unfold_locales
    (auto simp: rom_client_initialize_def rom_client_finalize_def wp_simps
      intro!: wp_check_factory wp_create2 wp_destroy keeps_intros)

sublocale genode_heap \<subseteq> tim_cl: factory_client G fheap "timer_client_initialize G self ev l" "timer_client_finalize G"
  "\<lambda>c. tc_session c" for self ev l
  by unfold_locales
    (auto simp: timer_client_initialize_def timer_session_ctor_def timer_client_finalize_def wp_simps
      intro!: wp_check_factory wp_create wp_destroy_void keeps_intros)

subsection \<open>Every client keeps the session contract\<close>

lemmas session_defs =
  Log_Client_Initialize_def Log_Client_Finalize_def Log_Client_Initialized_def log_client_finalize_def
  Memory_Client_Initialize_def Memory_Client_Finalize_def Memory_Client_Initialized_def memory_client_finalize_def
  Message_Client_Initialize_def Message_Client_Finalize_def Message_Client_Initialized_def message_client_finalize_def
  Rom_Client_Initialize_def Rom_Client_Finalize_def Rom_Client_Initialized_def rom_client_finalize_def
  Timer_Client_Initialize_def Timer_Client_Finalize_def Timer_Client_Initialized_def timer_client_finalize_def
  timer_client_initialized_def

sublocale genode_heap \<subseteq> log_ses: ada_session G fheap Log_Client_Initialized
  "Log_Client_Initialize G l" "Log_Client_Finalize G" lc_session for l
proof unfold_locales
  fix c w assume "\<not> Log_Client_Initialized c"
  then show "wp (Log_Client_Initialize G l c) (\<lambda>c' w'.
      (\<not> Log_Client_Initialized c' \<and> lc_session c' = null \<and> fheap w' = Some (objects (fheap w))) \<or>
      (Log_Client_Initialized c' \<and> lc_session c' \<noteq> null \<and> lc_session c' \<notin> objects (fheap w) \<and>
       fheap w' = Some (insert (lc_session c') (objects (fheap w))))) w"
    using log_cl.init_law [of "c_string l" c w]
    by (auto simp: Log_Client_Initialize_def wp_simps elim!: wp_mono) (auto simp: Log_Client_Initialized_def)
qed (auto simp: session_defs wp_simps intro!: wp_destroy)

sublocale genode_heap \<subseteq> tim_ses: ada_session G fheap Timer_Client_Initialized
  "Timer_Client_Initialize G ev self l idx" "Timer_Client_Finalize G" "\<lambda>c. tc_session c" for ev self l idx
proof unfold_locales
  fix c w assume "\<not> Timer_Client_Initialized c"
  then show "wp (Timer_Client_Initialize G ev self l idx c) (\<lambda>c' w'.
      (\<not> Timer_Client_Initialized c' \<and> tc_session c' = null \<and> fheap w' = Some (objects (fheap w))) \<or>
      (Timer_Client_Initialized c' \<and> tc_session c' \<noteq> null \<and> tc_session c' \<notin> objects (fheap w) \<and>
       fheap w' = Some (insert (tc_session c') (objects (fheap w))))) w"
    using tim_cl.init_law [of self ev "c_string l" c w]
    by (auto simp: Timer_Client_Initialize_def wp_simps elim!: wp_mono) (auto simp: session_defs)
qed (auto simp: session_defs wp_simps intro!: wp_destroy wp_destroy_void)

sublocale genode_heap \<subseteq> mem_ses: ada_session G fheap Memory_Client_Initialized
  "Memory_Client_Initialize G l (int sz) idx" "Memory_Client_Finalize G" "\<lambda>c. ptr (mcl_session c)" for l sz idx
proof unfold_locales
  fix c w assume "\<not> Memory_Client_Initialized c"
  then show "wp (Memory_Client_Initialize G l (int sz) idx c) (\<lambda>c' w'.
      (\<not> Memory_Client_Initialized c' \<and> ptr (mcl_session c') = null \<and> fheap w' = Some (objects (fheap w))) \<or>
      (Memory_Client_Initialized c' \<and> ptr (mcl_session c') \<noteq> null \<and> ptr (mcl_session c') \<notin> objects (fheap w) \<and>
       fheap w' = Some (insert (ptr (mcl_session c')) (objects (fheap w))))) w"
    using mem_cl.init_law [of "c_string l" "int sz" c w]
    by (auto simp: Memory_Client_Initialize_def wp_simps elim!: wp_mono) (auto simp: session_defs)
qed (auto simp: session_defs wp_simps intro!: wp_destroy wp_destroy_void)

text \<open>The C++ initialization stores only the pointer.\<close>

lemma message_client_initialize_frame:
  "wp (message_client_initialize G self l c) (\<lambda>c' _. msc_event c' = msc_event c \<and> msc_index c' = msc_index c) w"
  by (simp add: message_client_initialize_def wp_simps wp_run)

lemma rom_client_initialize_frame:
  "wp (rom_client_initialize G l c) (\<lambda>c' _. rc_read c' = rc_read c \<and> rc_index c' = rc_index c) w"
  by (simp add: rom_client_initialize_def wp_simps wp_run)

sublocale genode_component \<subseteq> msg_ses: ada_session G fheap Message_Client_Initialized
  "Message_Client_Initialize G cb self l idx" "Message_Client_Finalize G" "\<lambda>c. msc_connection c" for self l idx
proof unfold_locales
  fix c w assume "\<not> Message_Client_Initialized c"
  then show "wp (Message_Client_Initialize G cb self l idx c) (\<lambda>c' w'.
      (\<not> Message_Client_Initialized c' \<and> msc_connection c' = null \<and> fheap w' = Some (objects (fheap w))) \<or>
      (Message_Client_Initialized c' \<and> msc_connection c' \<noteq> null \<and> msc_connection c' \<notin> objects (fheap w) \<and>
       fheap w' = Some (insert (msc_connection c') (objects (fheap w))))) w"
    using wp_and [OF msg_cl.init_law message_client_initialize_frame, of
        self "c_string l" "c\<lparr>msc_event := cb\<rparr>" w] cb_not_null
    by (auto simp: Message_Client_Initialize_def wp_simps elim!: wp_mono) (auto simp: session_defs)
qed (auto simp: session_defs wp_simps intro!: wp_destroy wp_destroy_void)

sublocale genode_component \<subseteq> rom_ses: ada_session G fheap Rom_Client_Initialized
  "Rom_Client_Initialize G cb l idx" "Rom_Client_Finalize G" rc_rom for l idx
proof unfold_locales
  fix c w assume "\<not> Rom_Client_Initialized c"
  then show "wp (Rom_Client_Initialize G cb l idx c) (\<lambda>c' w'.
      (\<not> Rom_Client_Initialized c' \<and> rc_rom c' = null \<and> fheap w' = Some (objects (fheap w))) \<or>
      (Rom_Client_Initialized c' \<and> rc_rom c' \<noteq> null \<and> rc_rom c' \<notin> objects (fheap w) \<and>
       fheap w' = Some (insert (rc_rom c') (objects (fheap w))))) w"
    using wp_and [OF rom_cl.init_law rom_client_initialize_frame, of
        "c_string l" "c\<lparr>rc_index := Some idx, rc_read := cb\<rparr>" w] cb_not_null
    by (auto simp: Rom_Client_Initialize_def wp_simps elim!: wp_mono) (auto simp: session_defs)
qed (auto simp: session_defs wp_simps intro!: wp_destroy wp_destroy_void)

context genode_heap
begin

lemmas log_released = log_ses.run_session_released
lemmas mem_released = mem_ses.run_session_released
lemmas tim_released = tim_ses.run_session_released

end

context genode_component
begin

lemmas msg_released = msg_ses.run_session_released
lemmas rom_released = rom_ses.run_session_released

end

subsection \<open>Properties\<close>

text \<open>
  C28. On Genode every client session is balanced: whatever sequence of \<open>Initialize\<close> and
  \<open>Finalize\<close> a component calls on a fresh Log, Memory, Message, ROM or Timer client, and
  whatever allocations and session requests fail on the way, after a final \<open>Finalize\<close> the
  session is not initialized and the factory heap is exactly what it was before: no object
  leaks and none is destroyed twice.
\<close>

theorem genode_sessions_balanced:
  assumes "genode_component G fheap cb" and "fheap w = Some S" and "null \<notin> S"
  shows "wp (run_session (Log_Client_Initialize G l) (Log_Client_Finalize G) (ops @ [Op_Finalize]) log_client_new)
      (\<lambda>c w'. \<not> Log_Client_Initialized c \<and> fheap w' = Some S) w \<and>
    wp (run_session (Memory_Client_Initialize G l (int n) idx) (Memory_Client_Finalize G) (ops @ [Op_Finalize]) memory_client_new)
      (\<lambda>c w'. \<not> Memory_Client_Initialized c \<and> fheap w' = Some S) w \<and>
    wp (run_session (Message_Client_Initialize G cb self l idx) (Message_Client_Finalize G) (ops @ [Op_Finalize]) message_client_new)
      (\<lambda>c w'. \<not> Message_Client_Initialized c \<and> fheap w' = Some S) w \<and>
    wp (run_session (Rom_Client_Initialize G cb l idx) (Rom_Client_Finalize G) (ops @ [Op_Finalize]) rom_client_new)
      (\<lambda>c w'. \<not> Rom_Client_Initialized c \<and> fheap w' = Some S) w \<and>
    wp (run_session (Timer_Client_Initialize G ev self l idx) (Timer_Client_Finalize G) (ops @ [Op_Finalize]) timer_client_new)
      (\<lambda>c w'. \<not> Timer_Client_Initialized c \<and> fheap w' = Some S) w"
proof -
  have h: "genode_heap G fheap"
    using assms(1) by (simp add: genode_component_def)
  have new: "owned_by Log_Client_Initialized lc_session S log_client_new (fheap w)"
    "owned_by Memory_Client_Initialized (\<lambda>c. ptr (mcl_session c)) S memory_client_new (fheap w)"
    "owned_by Message_Client_Initialized (\<lambda>c. msc_connection c) S message_client_new (fheap w)"
    "owned_by Rom_Client_Initialized rc_rom S rom_client_new (fheap w)"
    "owned_by Timer_Client_Initialized (\<lambda>c. tc_session c) S timer_client_new (fheap w)"
    using assms(2,3)
    by (simp_all add: owned_by_def held_def session_defs log_client_new_def memory_client_new_def
        message_client_new_def rom_client_new_def timer_client_new_def)
  show ?thesis
    using genode_heap.log_released [OF h new(1)] genode_heap.mem_released [OF h new(2)]
      genode_component.msg_released [OF assms(1) new(3)] genode_component.rom_released [OF assms(1) new(4)]
      genode_heap.tim_released [OF h new(5)]
    by blast
qed

text \<open>A run in which the second object cannot be allocated.\<close>

theorem genode_sessions_balanced_witness:
  "gsim_heap (gsim_init\<lparr>gs_up := True, gs_objects := [8], gs_answers := [True, True, False]\<rparr>) = Some {8} \<and>
   wp (run_session (Message_Client_Initialize gsim_genode 0x400 0x500 ''label'' 1) (Message_Client_Finalize gsim_genode)
        ([Op_Initialize, Op_Initialize, Op_Finalize, Op_Initialize] @ [Op_Finalize]) message_client_new)
      (\<lambda>c w'. \<not> Message_Client_Initialized c \<and> gsim_heap w' = Some {8})
      (gsim_init\<lparr>gs_up := True, gs_objects := [8], gs_answers := [True, True, False]\<rparr>)"
proof -
  define w where "w = gsim_init\<lparr>gs_up := True, gs_objects := [8], gs_answers := [True, True, False]\<rparr>"
  have w: "gsim_heap w = Some {8}" by (simp add: w_def gsim_heap_def)
  show ?thesis
    using genode_sessions_balanced [OF gsim_comp.genode_component_axioms w,
        where l = "''label''" and ops = "[Op_Initialize, Op_Initialize, Op_Finalize, Op_Initialize]"
          and idx = 1 and self = "0x500"] w
    unfolding w_def by simp
qed

text \<open>
  The Genode timer converts between nanoseconds and the microseconds of the Timer
  session: a timeout of \<open>d\<close> nanoseconds is scheduled after \<open>d div 1000\<close> microseconds, a
  pending timeout is discarded first and never left beside the new one, and the clock in
  nanoseconds is exact as long as the elapsed microseconds stay below \<open>2 ^ 64 div 1000\<close>.
\<close>

theorem timer_client_units:
  "timer_client_set_timeout G c d = do {
     pending \<leftarrow> g_timeout_scheduled G (tc_session c);
     (if pending then g_timeout_discard G (tc_session c) else ret ());
     g_timeout_schedule G (tc_session c) (d div 1000)
   } \<and>
   uint (d div 1000) * 1000 + uint (d mod 1000) = uint d \<and> uint (d mod 1000) < 1000 \<and>
   (\<forall>w. uint (result (g_elapsed_us G (tc_session c)) w) \<le> 2 ^ 64 div 1000 \<longrightarrow>
      uint (result (timer_client_clock G c) w) = uint (result (g_elapsed_us G (tc_session c)) w) * 1000)"
proof (intro conjI allI impI)
  show "timer_client_set_timeout G c d = do {
     pending \<leftarrow> g_timeout_scheduled G (tc_session c);
     (if pending then g_timeout_discard G (tc_session c) else ret ());
     g_timeout_schedule G (tc_session c) (d div 1000)
   }"
    by (simp add: timer_client_set_timeout_def update_timeout_def whenM_def)
  show "uint (d div 1000) * 1000 + uint (d mod 1000) = uint d"
    by (simp add: uint_div_distrib uint_mod_distrib)
  show "uint (d mod 1000) < 1000"
    by (simp add: uint_mod_distrib)
next
  fix w assume "uint (result (g_elapsed_us G (tc_session c)) w) \<le> 2 ^ 64 div 1000"
  then show "uint (result (timer_client_clock G c) w) = uint (result (g_elapsed_us G (tc_session c)) w) * 1000"
    by (cases "run_state (g_elapsed_us G (tc_session c)) w") (simp add: timer_client_clock_def timer_session_timer_def uint_word_ariths)
qed

theorem timer_client_units_witness:
  "uint (result (timer_client_clock gsim_genode (timer_client_new\<lparr>tc_object := Some (16, \<lparr> ts_client = 0x500, ts_callback = 0x400 \<rparr>)\<rparr>)) gsim_init) = 1234567000"
proof -
  have e: "result (g_elapsed_us gsim_genode (tc_session (timer_client_new\<lparr>tc_object := Some (16, \<lparr> ts_client = 0x500, ts_callback = 0x400 \<rparr>)\<rparr>))) gsim_init = 1234567"
    by (simp add: gsim_genode_def)
  have "uint (result (timer_client_clock gsim_genode (timer_client_new\<lparr>tc_object := Some (16, \<lparr> ts_client = 0x500, ts_callback = 0x400 \<rparr>)\<rparr>)) gsim_init) =
      uint (1234567 :: u64) * 1000"
    unfolding e [symmetric]
    by (rule timer_client_units [of gsim_genode _ 0, THEN conjunct2, THEN conjunct2, THEN conjunct2, rule_format])
      (simp add: gsim_genode_def)
  then show ?thesis by simp
qed

end
