(* ===== verification/Genode_Log.thy ===== *)
theory Genode_Log
  imports Genode_Clients
begin

text \<open>
  The buffered output of \<open>Gneiss.Log.Client\<close> on Genode (\<open>gneiss-log-client.adb\<close>): \<open>Print\<close>
  collects text in a 4096-character buffer, \<open>Flush\<close> and overlong messages are cut into
  slices of at most 216 characters, each of which becomes one call of the LOG session.
  \<open>Basalt.Slicer\<close>, which cuts the range, is not part of the repository: it is the parameter
  \<open>L\<close>, with its documented behaviour in the locale \<open>slicer\<close>. An Ada string is its
  characters and its first index.
\<close>

subsection \<open>The slicer\<close>

record 's basalt_slicer =
  sl_create :: "nat \<Rightarrow> nat \<Rightarrow> nat \<Rightarrow> 's"
  sl_get_slice :: "'s \<Rightarrow> nat \<times> nat"
  sl_has_next :: "'s \<Rightarrow> bool"
  sl_next :: "'s \<Rightarrow> 's"

text \<open>\<open>at s a b n c\<close>: slicing \<open>a .. b\<close> in slices of length \<open>n\<close>, the current one starts at \<open>c\<close>.\<close>

locale slicer =
  fixes L :: "'s basalt_slicer"
    and at :: "'s \<Rightarrow> nat \<Rightarrow> nat \<Rightarrow> nat \<Rightarrow> nat \<Rightarrow> bool"
  assumes create_at: "a \<le> b \<Longrightarrow> 0 < n \<Longrightarrow> at (sl_create L a b n) a b n a"
    and slice_at: "at s a b n c \<Longrightarrow> sl_get_slice L s = (c, min b (c + n - 1))"
    and has_next_at: "at s a b n c \<Longrightarrow> sl_has_next L s \<longleftrightarrow> c + n \<le> b"
    and next_at: "at s a b n c \<Longrightarrow> c + n \<le> b \<Longrightarrow> at (sl_next L s) a b n (c + n)"

subsection \<open>The client\<close>

definition Maximum_Message_Length :: nat where
  "Maximum_Message_Length = 216"

text \<open>\<open>M (f .. l)\<close> for an Ada string with first index \<open>lo\<close>.\<close>

definition ada_slice :: "nat \<Rightarrow> string \<Rightarrow> nat \<Rightarrow> nat \<Rightarrow> string" where
  "ada_slice lo M f l = take (Suc l - f) (drop (f - lo) M)"

text \<open>The loop of \<open>Write\<close>; \<open>False\<close> when the fuel does not suffice.\<close>

fun Write_loop ::
  "'w genode \<Rightarrow> 's basalt_slicer \<Rightarrow> log_client \<Rightarrow> nat \<Rightarrow> string \<Rightarrow> 's \<Rightarrow> nat \<Rightarrow> ('w, bool) state" where
  "Write_loop G L c lo M s 0 = ret False"
| "Write_loop G L c lo M s (Suc n) = do {
     log_client_write G c (c_string (case sl_get_slice L s of (f, l) \<Rightarrow> ada_slice lo M f l));
     if \<not> sl_has_next L s then ret True
     else Write_loop G L c lo M (sl_next L s) n
   }"

definition Log_Write :: "'w genode \<Rightarrow> 's basalt_slicer \<Rightarrow> log_client \<Rightarrow> nat \<Rightarrow> string \<Rightarrow> ('w, bool) state" where
  "Log_Write G L c lo M =
     Write_loop G L c lo M (sl_create L lo (lo + length M - 1) Maximum_Message_Length) (length M)"

definition Log_Flush :: "'w genode \<Rightarrow> 's basalt_slicer \<Rightarrow> log_client \<Rightarrow> ('w, log_client) state" where
  "Log_Flush G L c = do {
     (if 1 < lc_cursor c then do { Log_Write G L c 1 (take (lc_cursor c - 1) (lc_buffer c)); ret () }
      else ret ());
     ret (c\<lparr>lc_cursor := 1\<rparr>)
   }"

definition Log_Print :: "'w genode \<Rightarrow> 's basalt_slicer \<Rightarrow> log_client \<Rightarrow> nat \<Rightarrow> string \<Rightarrow> ('w, log_client) state" where
  "Log_Print G L c lo msg =
     (if length msg = 0 then ret c
      else if int (length msg) > 4096 - int (lc_cursor c) then do {
        c \<leftarrow> Log_Flush G L c;
        Log_Write G L c lo msg;
        ret c
      } else ret (c\<lparr>lc_buffer := take (lc_cursor c - 1) (lc_buffer c) @ msg @
                     drop (lc_cursor c - 1 + length msg) (lc_buffer c),
                   lc_cursor := lc_cursor c + length msg\<rparr>))"

definition log_blue :: string where "log_blue = CHR 0x1B # ''[34m''"
definition log_red :: string where "log_red = CHR 0x1B # ''[31m''"
definition log_reset :: string where "log_reset = CHR 0x1B # ''[0m''"
definition LF :: string where "LF = [CHR 0x0A]"

definition Log_Newline :: "'w genode \<Rightarrow> 's basalt_slicer \<Rightarrow> bool \<Rightarrow> log_client \<Rightarrow> ('w, log_client) state" where
  "Log_Newline G L newline c =
     (if newline then do { c \<leftarrow> Log_Print G L c 1 LF; Log_Flush G L c } else ret c)"

definition Log_Info :: "'w genode \<Rightarrow> 's basalt_slicer \<Rightarrow> log_client \<Rightarrow> nat \<Rightarrow> string \<Rightarrow> bool \<Rightarrow> ('w, log_client) state" where
  "Log_Info G L c lo msg newline = do {
     c \<leftarrow> Log_Print G L c lo msg;
     Log_Newline G L newline c
   }"

definition Log_Prefixed ::
  "string \<Rightarrow> string \<Rightarrow> 'w genode \<Rightarrow> 's basalt_slicer \<Rightarrow> log_client \<Rightarrow> nat \<Rightarrow> string \<Rightarrow> bool \<Rightarrow> ('w, log_client) state" where
  "Log_Prefixed colour title G L c lo msg newline = do {
     c \<leftarrow> Log_Print G L c 1 colour;
     c \<leftarrow> Log_Print G L c 1 title;
     c \<leftarrow> Log_Print G L c lo msg;
     c \<leftarrow> Log_Print G L c 1 log_reset;
     Log_Newline G L newline c
   }"

definition Log_Warning ::
  "'w genode \<Rightarrow> 's basalt_slicer \<Rightarrow> log_client \<Rightarrow> nat \<Rightarrow> string \<Rightarrow> bool \<Rightarrow> ('w, log_client) state" where
  "Log_Warning = Log_Prefixed log_blue ''Warning: ''"

definition Log_Error ::
  "'w genode \<Rightarrow> 's basalt_slicer \<Rightarrow> log_client \<Rightarrow> nat \<Rightarrow> string \<Rightarrow> bool \<Rightarrow> ('w, log_client) state" where
  "Log_Error = Log_Prefixed log_red ''Error: ''"

subsection \<open>The stream of text\<close>

text \<open>
  A LOG session that appends each written string to a list \<open>written\<close>, as long as the session at the
  address is \<open>live\<close> and the string is not too long. The abstract state of the client is the text it
  has been given: what was written and what is still buffered.
\<close>

definition buffered :: "log_client \<Rightarrow> string" where
  "buffered c = take (lc_cursor c - 1) (lc_buffer c)"

definition log_ok :: "log_client \<Rightarrow> bool" where
  "log_ok c \<longleftrightarrow> length (lc_buffer c) = 4096 \<and> 1 \<le> lc_cursor c \<and> lc_cursor c \<le> 4096 \<and>
     CHR 0x00 \<notin> set (buffered c)"

locale log_sink = slicer L at
  for L :: "'s basalt_slicer" and at :: "'s \<Rightarrow> nat \<Rightarrow> nat \<Rightarrow> nat \<Rightarrow> nat \<Rightarrow> bool" +
  fixes G :: "'w genode"
    and live :: "addr \<Rightarrow> 'w \<Rightarrow> bool"
    and written :: "'w \<Rightarrow> string list"
  assumes write_law: "live p w \<Longrightarrow> length m \<le> Maximum_Message_Length \<Longrightarrow>
      wp (g_log_write G p m) (\<lambda>_ w'. live p w' \<and> written w' = written w @ [m]) w"
begin

text \<open>\<open>emits p t w w'\<close>: between the two states the text \<open>t\<close> was written to the session, in short slices.\<close>

definition sliced :: "string \<Rightarrow> 'w \<Rightarrow> 'w \<Rightarrow> bool" where
  "sliced t w w' \<longleftrightarrow> (\<exists>ms. written w' = written w @ ms \<and> concat ms = t \<and>
     (\<forall>m \<in> set ms. length m \<le> Maximum_Message_Length))"

definition emits :: "addr \<Rightarrow> string \<Rightarrow> 'w \<Rightarrow> 'w \<Rightarrow> bool" where
  "emits p t w w' \<longleftrightarrow> (live p w \<longrightarrow> live p w' \<and> sliced t w w')"

lemma emits_refl: "emits p [] w w"
  by (auto simp: emits_def sliced_def)

lemma sliced_trans: "sliced s w1 w2 \<Longrightarrow> sliced t w2 w3 \<Longrightarrow> sliced (s @ t) w1 w3"
  unfolding sliced_def by (elim exE conjE, rule exI [of _ "ms @ msa" for ms msa]) auto

lemma emits_trans: "emits p s w1 w2 \<Longrightarrow> emits p t w2 w3 \<Longrightarrow> emits p (s @ t) w1 w3"
  unfolding emits_def using sliced_trans by blast

lemma write_emits:
  assumes "length m \<le> Maximum_Message_Length"
  shows "wp (g_log_write G p m) (\<lambda>_ w'. emits p m w w') w"
proof (cases "live p w")
  case True
  from wp_mono [OF write_law [OF True assms]] assms show ?thesis by (auto simp: emits_def sliced_def elim!: wp_mono)
qed (simp add: emits_def)

lemma slice_split:
  assumes "lo \<le> a" and "0 < n" and "a + n \<le> lo + length M"
  shows "ada_slice lo M a (a + n - 1) @ drop (a + n - lo) M = drop (a - lo) M"
proof -
  from assms have "a + n - lo = n + (a - lo)" "Suc (a + n - 1) - a = n" by simp_all
  then show ?thesis
    using append_take_drop_id [of n "drop (a - lo) M"] by (simp add: ada_slice_def)
qed

lemma Write_loop_emits:
  assumes "at s lo (lo + length M - 1) Maximum_Message_Length a" "lo \<le> a" "a < lo + length M"
    "lo + length M - a \<le> n" "CHR 0x00 \<notin> set M"
  shows "wp (Write_loop G L c lo M s n) (\<lambda>ok w'. ok \<and> emits (lc_session c) (drop (a - lo) M) w w') w"
  using assms
proof (induction n arbitrary: s a w)
  case 0
  then show ?case by simp
next
  case (Suc n)
  let ?N = Maximum_Message_Length
  let ?l = "min (lo + length M - 1) (a + ?N - 1)"
  let ?m = "ada_slice lo M a ?l"
  have N: "?N = 216" by (simp add: Maximum_Message_Length_def)
  have slice: "sl_get_slice L s = (a, ?l)" and has: "sl_has_next L s \<longleftrightarrow> a + ?N \<le> lo + length M - 1"
    using slice_at [OF Suc.prems(1)] has_next_at [OF Suc.prems(1)] by simp_all
  have m: "c_string ?m = ?m"
    using Suc.prems(5) by (intro c_string_id) (auto simp: ada_slice_def dest!: in_set_takeD in_set_dropD)
  have len: "length ?m \<le> ?N"
    using Suc.prems(2,3) by (simp add: ada_slice_def N)
  show ?case
    unfolding Write_loop.simps log_client_write_def slice prod.case m wp_simps
  proof (rule wp_mono [OF write_emits [OF len]], goal_cases)
    case w1: (1 u w1)
    show ?case
    proof (cases "a + ?N \<le> lo + length M - 1")
      case True
      then have split: "?m @ drop (a + ?N - lo) M = drop (a - lo) M"
        using slice_split [OF Suc.prems(2), of ?N M] Suc.prems(3) N
        by (simp add: min_absorb2)
      have "wp (Write_loop G L c lo M (sl_next L s) n)
          (\<lambda>ok w'. ok \<and> emits (lc_session c) (drop (a + ?N - lo) M) w1 w') w1"
        by (rule Suc.IH [OF next_at [OF Suc.prems(1) True]]) (use Suc.prems True N in auto)
      then show ?thesis
        using True has emits_trans [OF w1] by (auto simp: wp_simps split [symmetric] elim!: wp_mono)
    next
      case False
      then have "?m = drop (a - lo) M"
        using Suc.prems(2,3) by (simp add: ada_slice_def)
      with False has w1 show ?thesis by (simp add: wp_simps)
    qed
  qed
qed

lemma Log_Write_emits:
  assumes "M \<noteq> []" "CHR 0x00 \<notin> set M"
  shows "wp (Log_Write G L c lo M) (\<lambda>ok w'. ok \<and> emits (lc_session c) M w w') w"
proof -
  have "at (sl_create L lo (lo + length M - 1) Maximum_Message_Length) lo (lo + length M - 1) Maximum_Message_Length lo"
    using assms(1) by (intro create_at) (cases M, simp_all add: Maximum_Message_Length_def)
  from Write_loop_emits [OF this, of "length M"] assms show ?thesis
    by (simp add: Log_Write_def)
qed

lemma Log_Flush_emits:
  assumes "log_ok c"
  shows "wp (Log_Flush G L c) (\<lambda>c' w'. log_ok c' \<and> lc_session c' = lc_session c \<and> buffered c' = [] \<and>
     emits (lc_session c) (buffered c) w w') w"
proof (cases "1 < lc_cursor c")
  case True
  with assms have "buffered c \<noteq> []" "CHR 0x00 \<notin> set (buffered c)"
    by (auto simp: log_ok_def buffered_def)
  from Log_Write_emits [OF this, of c 1 w] True assms show ?thesis
    by (auto simp: Log_Flush_def wp_simps buffered_def log_ok_def elim!: wp_mono)
next
  case False
  with assms show ?thesis
    by (auto simp: Log_Flush_def wp_simps buffered_def log_ok_def emits_refl)
qed

text \<open>\<open>streams t c w c' w'\<close>: the step adds \<open>t\<close> to the text of the client.\<close>

definition streams :: "string \<Rightarrow> log_client \<Rightarrow> 'w \<Rightarrow> log_client \<Rightarrow> 'w \<Rightarrow> bool" where
  "streams t c w c' w' \<longleftrightarrow> log_ok c' \<and> lc_session c' = lc_session c \<and>
     (\<exists>e. emits (lc_session c) e w w' \<and> e @ buffered c' = buffered c @ t)"

lemma streams_trans: "streams s c1 w1 c2 w2 \<Longrightarrow> streams t c2 w2 c3 w3 \<Longrightarrow> streams (s @ t) c1 w1 c3 w3"
  unfolding streams_def by (metis append.assoc emits_trans)

lemma streams_refl: "log_ok c \<Longrightarrow> streams [] c w c w"
  unfolding streams_def using emits_refl by auto

lemma Log_Flush_streams: "log_ok c \<Longrightarrow> wp (Log_Flush G L c) (\<lambda>c' w'. streams [] c w c' w' \<and> buffered c' = []) w"
  by (erule wp_mono [OF Log_Flush_emits]) (auto simp: streams_def)

lemma Log_Print_streams:
  assumes "log_ok c" and "CHR 0x00 \<notin> set msg"
  shows "wp (Log_Print G L c lo msg) (streams msg c w) w"
proof (cases "length msg = 0 \<or> int (length msg) \<le> 4096 - int (lc_cursor c)")
  case True
  with assms show ?thesis
    using streams_refl [OF assms(1)]
    by (auto simp: Log_Print_def wp_simps streams_def log_ok_def buffered_def intro!: exI [of _ "[]"] emits_refl)
next
  case False
  then have "msg \<noteq> []" by auto
  note wr = Log_Write_emits [OF this assms(2)]
  show ?thesis
    using False unfolding Log_Print_def
    by (simp add: wp_simps)
      (rule wp_mono [OF Log_Flush_emits [OF assms(1)]], rule wp_mono [OF wr],
       auto simp: streams_def intro: emits_trans)
qed

text \<open>Sequences of prints, as the message procedures compose them.\<close>

lemma wp_streams_bind:
  assumes "wp m (streams s c w) w"
    and "\<And>c' w'. streams s c w c' w' \<Longrightarrow> log_ok c' \<Longrightarrow> wp (f c') (streams t c' w') w'"
  shows "wp (State_Monad.bind m f) (streams (s @ t) c w) w"
  unfolding wp_bind
proof (rule wp_mono [OF assms(1)], goal_cases)
  case (1 c' w')
  then have "wp (f c') (streams t c' w') w'"
    using assms(2) by (auto simp: streams_def)
  then show ?case
    by (rule wp_mono) (rule streams_trans [OF 1])
qed

lemma Log_Newline_streams:
  "log_ok c \<Longrightarrow> wp (Log_Newline G L nl c) (streams (if nl then LF else []) c w) w"
proof (cases nl)
  case True
  assume c: "log_ok c"
  have "wp (State_Monad.bind (Log_Print G L c 1 LF) (Log_Flush G L)) (streams (LF @ []) c w) w"
    by (rule wp_streams_bind [OF Log_Print_streams [OF c]])
      (auto simp: LF_def elim!: wp_mono [OF Log_Flush_streams])
  with True show ?thesis by (simp add: Log_Newline_def)
qed (simp add: Log_Newline_def wp_simps streams_refl)

end

subsection \<open>Operations of a component\<close>

datatype log_op = Op_Print nat string | Op_Info nat string bool | Op_Warning nat string bool
  | Op_Error nat string bool | Op_Flush

fun run_log_op :: "'w genode \<Rightarrow> 's basalt_slicer \<Rightarrow> log_op \<Rightarrow> log_client \<Rightarrow> ('w, log_client) state" where
  "run_log_op G L (Op_Print lo m) c = Log_Print G L c lo m"
| "run_log_op G L (Op_Info lo m nl) c = Log_Info G L c lo m nl"
| "run_log_op G L (Op_Warning lo m nl) c = Log_Warning G L c lo m nl"
| "run_log_op G L (Op_Error lo m nl) c = Log_Error G L c lo m nl"
| "run_log_op G L Op_Flush c = Log_Flush G L c"

fun run_log_ops :: "'w genode \<Rightarrow> 's basalt_slicer \<Rightarrow> log_op list \<Rightarrow> log_client \<Rightarrow> ('w, log_client) state" where
  "run_log_ops G L [] c = ret c"
| "run_log_ops G L (op # ops) c = do { c \<leftarrow> run_log_op G L op c; run_log_ops G L ops c }"

text \<open>The text an operation means, and the text it is given by the caller.\<close>

fun log_text :: "log_op \<Rightarrow> string" where
  "log_text (Op_Print lo m) = m"
| "log_text (Op_Info lo m nl) = m @ (if nl then LF else [])"
| "log_text (Op_Warning lo m nl) = log_blue @ ''Warning: '' @ m @ log_reset @ (if nl then LF else [])"
| "log_text (Op_Error lo m nl) = log_red @ ''Error: '' @ m @ log_reset @ (if nl then LF else [])"
| "log_text Op_Flush = []"

fun log_arg :: "log_op \<Rightarrow> string" where
  "log_arg (Op_Print lo m) = m"
| "log_arg (Op_Info lo m nl) = m"
| "log_arg (Op_Warning lo m nl) = m"
| "log_arg (Op_Error lo m nl) = m"
| "log_arg Op_Flush = []"

context log_sink
begin

lemma Log_Info_streams:
  assumes "log_ok c" "CHR 0x00 \<notin> set m"
  shows "wp (Log_Info G L c lo m nl) (streams (m @ (if nl then LF else [])) c w) w"
  unfolding Log_Info_def
  by (rule wp_streams_bind [OF Log_Print_streams [OF assms]], rule Log_Newline_streams)

lemma Log_Prefixed_streams:
  assumes "log_ok c" "CHR 0x00 \<notin> set m" "CHR 0x00 \<notin> set colour" "CHR 0x00 \<notin> set title"
  shows "wp (Log_Prefixed colour title G L c lo m nl)
    (streams (colour @ title @ m @ log_reset @ (if nl then LF else [])) c w) w"
  unfolding Log_Prefixed_def
  by (intro wp_streams_bind Log_Print_streams Log_Newline_streams assms) (auto simp: log_reset_def)

lemma run_log_op_streams:
  assumes "log_ok c" "CHR 0x00 \<notin> set (log_arg op)"
  shows "wp (run_log_op G L op c) (streams (log_text op) c w) w"
proof (cases op)
  case (Op_Warning lo m nl)
  with assms show ?thesis
    unfolding Op_Warning run_log_op.simps log_text.simps Log_Warning_def
    by (intro Log_Prefixed_streams) (simp_all add: log_blue_def)
next
  case (Op_Error lo m nl)
  with assms show ?thesis
    unfolding Op_Error run_log_op.simps log_text.simps Log_Error_def
    by (intro Log_Prefixed_streams) (simp_all add: log_red_def)
next
  case Op_Flush
  with assms show ?thesis
    using Log_Flush_streams [OF assms(1), of w] by (auto elim!: wp_mono)
qed (use assms in \<open>auto simp only: run_log_op.simps log_text.simps log_arg.simps
      intro!: Log_Print_streams Log_Info_streams\<close>)

lemma run_log_ops_streams:
  "log_ok c \<Longrightarrow> \<forall>op \<in> set ops. CHR 0x00 \<notin> set (log_arg op) \<Longrightarrow>
   wp (run_log_ops G L ops c) (streams (concat (map log_text ops)) c w) w"
proof (induction ops arbitrary: c w)
  case Nil
  then show ?case by (simp add: wp_simps streams_refl)
next
  case (Cons op ops)
  then show ?case
    by (simp only: run_log_ops.simps list.map concat.simps)
      (rule wp_streams_bind [OF run_log_op_streams], auto)
qed

text \<open>With a flush at the end everything has left the client.\<close>

lemma run_log_ops_flush:
  assumes "log_ok c" "\<forall>op \<in> set ops. CHR 0x00 \<notin> set (log_arg op)" "live (lc_session c) w"
  shows "wp (State_Monad.bind (run_log_ops G L ops c) (Log_Flush G L)) (\<lambda>c' w'. live (lc_session c) w' \<and>
     (\<exists>ms. written w' = written w @ ms \<and> concat ms = buffered c @ concat (map log_text ops) \<and>
       (\<forall>m \<in> set ms. length m \<le> Maximum_Message_Length))) w"
  unfolding wp_bind
proof (rule wp_mono [OF run_log_ops_streams [OF assms(1,2)]], goal_cases)
  case (1 c1 w1)
  then obtain e where e: "emits (lc_session c) e w w1" "e @ buffered c1 = buffered c @ concat (map log_text ops)"
    "log_ok c1" "lc_session c1 = lc_session c"
    by (auto simp: streams_def)
  show ?case
  proof (rule wp_mono [OF Log_Flush_emits [OF e(3)]], goal_cases)
    case (1 c2 w2)
    with e emits_trans [OF e(1)] have "emits (lc_session c) (buffered c @ concat (map log_text ops)) w w2" by metis
    with assms(3) show ?case by (simp add: emits_def sliced_def)
  qed
qed

end

subsection \<open>An executable slicer and the property\<close>

definition ref_slicer :: "(nat \<times> nat \<times> nat \<times> nat) basalt_slicer" where
  "ref_slicer = \<lparr>
     sl_create = (\<lambda>a b n. (a, b, n, a)),
     sl_get_slice = (\<lambda>(a, b, n, c). (c, min b (c + n - 1))),
     sl_has_next = (\<lambda>(a, b, n, c). c + n \<le> b),
     sl_next = (\<lambda>(a, b, n, c). (a, b, n, c + n))
   \<rparr>"

definition ref_at :: "nat \<times> nat \<times> nat \<times> nat \<Rightarrow> nat \<Rightarrow> nat \<Rightarrow> nat \<Rightarrow> nat \<Rightarrow> bool" where
  "ref_at s a b n c \<longleftrightarrow> s = (a, b, n, c)"

definition gs_written :: "gsim \<Rightarrow> string list" where
  "gs_written w = List.map_filter (\<lambda>e. case e of Wrote m \<Rightarrow> Some m | _ \<Rightarrow> None) (gs_trace w)"

interpretation ref_sink: log_sink ref_slicer ref_at gsim_genode "\<lambda>_ _. True" gs_written
  by unfold_locales
    (auto simp: ref_slicer_def ref_at_def gsim_genode_def gs_log_def gs_written_def wp_def map_filter_def)

text \<open>
  C8. The buffered log output loses, reorders and duplicates nothing: for any sequence of
  \<open>Print\<close>, \<open>Info\<close>, \<open>Warning\<close>, \<open>Error\<close> and \<open>Flush\<close> calls with text free of NUL, followed by
  a \<open>Flush\<close>, the strings that reached the LOG session concatenate to what was buffered
  before followed by the texts of the calls in order, and none is longer than 216
  characters. The slicing loop never runs out of its fuel.
\<close>

theorem log_output_complete:
  assumes "log_sink L at G live written" and "log_ok c" and "\<forall>op \<in> set ops. CHR 0x00 \<notin> set (log_arg op)"
    and "live (lc_session c) w"
  shows "wp (do { c \<leftarrow> run_log_ops G L ops c; Log_Flush G L c }) (\<lambda>c' w'.
     \<exists>ms. written w' = written w @ ms \<and> concat ms = buffered c @ concat (map log_text ops) \<and>
       (\<forall>m \<in> set ms. length m \<le> Maximum_Message_Length)) w"
  by (rule wp_mono [OF log_sink.run_log_ops_flush [OF assms]]) simp

definition sample_log :: log_client where
  "sample_log = \<lparr> lc_session = 16, lc_buffer = replicate 4096 (CHR 0x00), lc_cursor = 1 \<rparr>"

theorem log_output_complete_witness:
  "log_ok sample_log \<and>
   wp (do { c \<leftarrow> run_log_ops gsim_genode ref_slicer [Op_Info 1 ''hello'' True, Op_Error 5 ''x'' False] sample_log;
            Log_Flush gsim_genode ref_slicer c }) (\<lambda>c' w'.
     \<exists>ms. gs_written w' = gs_written gsim_init @ ms \<and>
       concat ms = buffered sample_log @ concat (map log_text [Op_Info 1 ''hello'' True, Op_Error 5 ''x'' False]) \<and>
       (\<forall>m \<in> set ms. length m \<le> Maximum_Message_Length)) gsim_init"
proof
  show ok: "log_ok sample_log"
    by (simp add: log_ok_def sample_log_def buffered_def)
  show "wp (do { c \<leftarrow> run_log_ops gsim_genode ref_slicer [Op_Info 1 ''hello'' True, Op_Error 5 ''x'' False] sample_log;
            Log_Flush gsim_genode ref_slicer c }) (\<lambda>c' w'.
     \<exists>ms. gs_written w' = gs_written gsim_init @ ms \<and>
       concat ms = buffered sample_log @ concat (map log_text [Op_Info 1 ''hello'' True, Op_Error 5 ''x'' False]) \<and>
       (\<forall>m \<in> set ms. length m \<le> Maximum_Message_Length)) gsim_init"
    by (rule log_output_complete [OF ref_sink.log_sink_axioms ok]) simp_all
qed

text \<open>
  One message: \<open>Write\<close> returns for every non-empty NUL-free string, and the strings it
  passes to the LOG session are the message cut into pieces of at most 216 characters.
\<close>

theorem Log_Write_slices:
  assumes "log_sink L at G live written" and "M \<noteq> []" and "CHR 0x00 \<notin> set M" and "live (lc_session c) w"
  shows "wp (Log_Write G L c lo M) (\<lambda>ok w'. ok \<and> (\<exists>ms. written w' = written w @ ms \<and> concat ms = M \<and>
     (\<forall>m \<in> set ms. length m \<le> Maximum_Message_Length))) w"
  by (rule wp_mono [OF log_sink.Log_Write_emits [OF assms(1-3)]])
    (use assms(4) in \<open>simp add: log_sink.emits_def [OF assms(1)] log_sink.sliced_def [OF assms(1)]\<close>)

theorem Log_Write_slices_witness:
  "wp (Log_Write gsim_genode ref_slicer sample_log 1 (replicate 300 (CHR ''a''))) (\<lambda>ok w'. ok \<and>
     (\<exists>ms. gs_written w' = gs_written gsim_init @ ms \<and> concat ms = replicate 300 (CHR ''a'') \<and>
     (\<forall>m \<in> set ms. length m \<le> Maximum_Message_Length))) gsim_init"
  by (rule Log_Write_slices [OF ref_sink.log_sink_axioms]) simp_all

end
