(* ===== verification/Genode_Root.thy ===== *)
theory Genode_Root
  imports Genode_Reference
begin

text \<open>
  What the three Gneiss services on Genode (Log, Memory, Message) have in common: a
  dispatcher object, a root object that serves session requests, and the server objects of
  the component. A request makes the root call the component's \<open>Dispatch\<close> procedure, which
  answers by calling \<open>Session_Initialize\<close>, \<open>Session_Accept\<close> and \<open>Session_Cleanup\<close> on its
  server objects. The state \<open>service\<close> holds the dispatcher fields, the root's \<open>_accepted\<close>
  pointer, the server objects by number and the live session components with their fields.
\<close>

record ('w, 's, 'c) service =
  sv_world :: 'w
  sv_root :: addr
  sv_env :: addr
  sv_index :: "nat option"
  sv_dispatch :: addr
  sv_accepted :: addr
  sv_servers :: "nat \<Rightarrow> 's"
  sv_components :: "addr \<Rightarrow> 'c option"

datatype root_error = Insufficient_ram_quota | Service_denied

definition in_world :: "('w, 'a) state \<Rightarrow> (('w, 's, 'c) service, 'a) state" where
  "in_world m = State (\<lambda>s. case run_state m (sv_world s) of (a, w) \<Rightarrow> (a, s\<lparr>sv_world := w\<rparr>))"

lemma wp_in_world [wp_simps]:
  "wp (in_world m) Q = (\<lambda>s. wp m (\<lambda>a w. Q a (s\<lparr>sv_world := w\<rparr>)) (sv_world s))"
  by (auto simp: wp_def in_world_def fun_eq_iff split: prod.splits)

definition set_server :: "nat \<Rightarrow> 's \<Rightarrow> (('w, 's, 'c) service, unit) state" where
  "set_server i srv = update (\<lambda>s. s\<lparr>sv_servers := (sv_servers s)(i := srv)\<rparr>)"

definition set_component :: "addr \<Rightarrow> 'c option \<Rightarrow> (('w, 's, 'c) service, unit) state" where
  "set_component p c = update (\<lambda>s. s\<lparr>sv_components := (sv_components s)(p := c)\<rparr>)"

lemma wp_set_server [wp_simps]:
  "wp (set_server i srv) Q = (\<lambda>s. Q () (s\<lparr>sv_servers := (sv_servers s)(i := srv)\<rparr>))"
  by (simp add: set_server_def wp_update)

lemma wp_set_component [wp_simps]:
  "wp (set_component p c) Q = (\<lambda>s. Q () (s\<lparr>sv_components := (sv_components s)(p := c)\<rparr>))"
  by (simp add: set_component_def wp_update)

subsection \<open>The shape of a session request\<close>

text \<open>
  The bodies of the three \<open>_create_session\<close> functions agree up to types; this is their
  common shape, with the capability \<open>cap\<close> that carries no session. It is what the lemmas
  below are about; each service states its own function and proves that it has this shape.
\<close>

definition create_session_shape ::
  "'w genode \<Rightarrow> u64 \<Rightarrow> ('k \<Rightarrow> string \<Rightarrow> string \<Rightarrow> (('w, 's, 'c) service, unit) state) \<Rightarrow> 'k \<Rightarrow> string \<Rightarrow>
   (('w, 's, 'c) service, root_error + addr) state" where
  "create_session_shape G sz disp cap args =
     (if g_arg_value G args ''ram_quota'' 0 < max 4096 sz
      then do {
        in_world (g_warning G (''Insufficient_ram_quota ('' @ args @ '')''));
        ret (Inl Insufficient_ram_quota)
      } else do {
        update (\<lambda>s. s\<lparr>sv_accepted := null\<rparr>);
        (let label = g_label_from_args G args; name = g_label_prefix G label;
             last = g_label_last_element G label
         in if 1 < g_label_length G name then disp cap name last else disp cap last name);
        s \<leftarrow> getS;
        if sv_accepted s = null then do {
          in_world (g_warning G (''Service_denied ('' @ args @ '')''));
          ret (Inl Service_denied)
        } else ret (Inr (sv_accepted s))
      })"

lemma create_quota:
  "wp (create_session_shape G sz disp cap args) (\<lambda>r _. r = Inl Insufficient_ram_quota \<longleftrightarrow>
     g_arg_value G args ''ram_quota'' 0 < max 4096 sz) s"
  by (simp add: create_session_shape_def wp_simps wp_run Let_def)

subsection \<open>Component code\<close>

text \<open>
  The calls a \<open>Dispatch\<close> procedure makes. SPARK proves that a component calls them only
  where their preconditions hold; \<open>run_dispatch\<close> therefore skips a call whose precondition
  fails: \<open>Session_Initialize\<close> needs a request (no session in the capability) and a server
  that is not initialized, \<open>Session_Accept\<close> a request and an initialized server.
\<close>

fun run_dispatch ::
  "('s \<Rightarrow> bool) \<Rightarrow> (nat \<Rightarrow> nat \<Rightarrow> (('w, 's, 'c) service, unit) state) \<Rightarrow>
   (nat \<Rightarrow> (('w, 's, 'c) service, unit) state) \<Rightarrow> (nat \<Rightarrow> (('w, 's, 'c) service, unit) state) \<Rightarrow>
   bool \<Rightarrow> dispatch_op list \<Rightarrow> (('w, 's, 'c) service, unit) state" where
  "run_dispatch ini s_init s_acc s_clean req [] = ret ()"
| "run_dispatch ini s_init s_acc s_clean req (D_Initialize i idx # ops) = do {
     s \<leftarrow> getS;
     whenM (req \<and> \<not> ini (sv_servers s i)) (s_init i idx);
     run_dispatch ini s_init s_acc s_clean req ops
   }"
| "run_dispatch ini s_init s_acc s_clean req (D_Accept i # ops) = do {
     s \<leftarrow> getS;
     whenM (req \<and> ini (sv_servers s i)) (s_acc i);
     run_dispatch ini s_init s_acc s_clean req ops
   }"
| "run_dispatch ini s_init s_acc s_clean req (D_Cleanup i # ops) = do {
     s_clean i;
     run_dispatch ini s_init s_acc s_clean req ops
   }"

subsection \<open>The invariant of a service\<close>

text \<open>
  Live session components are on the factory heap, and an initialized server points to a
  live component that points back to it; so two servers never share a component. The
  predicate \<open>swf\<close> is what the service keeps of every server object.
\<close>

definition service_ok ::
  "('w \<Rightarrow> addr set option) \<Rightarrow> ('s \<Rightarrow> bool) \<Rightarrow> ('s \<Rightarrow> bool) \<Rightarrow> ('s \<Rightarrow> addr) \<Rightarrow> ('c \<Rightarrow> nat) \<Rightarrow>
   ('w, 's, 'c) service \<Rightarrow> bool" where
  "service_ok fheap swf ini cmpt owner s \<longleftrightarrow>
     (\<forall>i. swf (sv_servers s i)) \<and>
     (\<exists>H. fheap (sv_world s) = Some H \<and> null \<notin> H \<and> dom (sv_components s) \<subseteq> H) \<and>
     (\<forall>i. ini (sv_servers s i) \<longrightarrow>
        (\<exists>c. sv_components s (cmpt (sv_servers s i)) = Some c \<and> owner c = i))"

text \<open>A pointer that is null or the component of an initialized server.\<close>

definition served :: "('s \<Rightarrow> bool) \<Rightarrow> ('s \<Rightarrow> addr) \<Rightarrow> addr \<Rightarrow> ('w, 's, 'c) service \<Rightarrow> bool" where
  "served ini cmpt p s \<longleftrightarrow> p = null \<or> (\<exists>i. ini (sv_servers s i) \<and> cmpt (sv_servers s i) = p)"

text \<open>Callbacks of the component may create objects, but destroy none of the service.\<close>

definition grows :: "('w \<Rightarrow> addr set option) \<Rightarrow> ('w, 'a) state \<Rightarrow> bool" where
  "grows fheap m \<longleftrightarrow> (\<forall>w H. fheap w = Some H \<longrightarrow> null \<notin> H \<longrightarrow>
     wp m (\<lambda>_ w'. \<exists>H'. fheap w' = Some H' \<and> H \<subseteq> H' \<and> null \<notin> H') w)"

lemma keeps_grows: "keeps fheap m \<Longrightarrow> grows fheap m"
  unfolding grows_def by (auto simp: wp_run keeps_def)

text \<open>\<open>frame i s s'\<close>: only server \<open>i\<close>, the components and the world changed.\<close>

definition frame :: "nat \<Rightarrow> ('w, 's, 'c) service \<Rightarrow> ('w, 's, 'c) service \<Rightarrow> bool" where
  "frame i s s' \<longleftrightarrow> sv_root s' = sv_root s \<and> sv_env s' = sv_env s \<and> sv_dispatch s' = sv_dispatch s \<and>
     sv_index s' = sv_index s \<and> sv_accepted s' = sv_accepted s \<and>
     (\<forall>j. j \<noteq> i \<longrightarrow> sv_servers s' j = sv_servers s j)"

text \<open>How the operations of a service change the invariant.\<close>

lemma service_ok_attach:
  assumes "service_ok fheap swf ini cmpt owner s"
    and "fheap (sv_world s) = Some H" "fheap (sv_world s') = Some (insert p H)" "p \<noteq> null" "p \<notin> H"
    and "sv_components s' = (sv_components s)(p := Some c)" "owner c = i"
    and "sv_servers s' = (sv_servers s)(i := srv)" "swf srv" "ini srv \<Longrightarrow> cmpt srv = p"
  shows "service_ok fheap swf ini cmpt owner s'"
proof -
  have "p \<notin> dom (sv_components s)"
    using assms(1,2,5) by (auto simp: service_ok_def)
  then have "cmpt (sv_servers s j) \<noteq> p" if "ini (sv_servers s j)" for j
    using assms(1) that by (auto simp: service_ok_def)
  with assms show ?thesis by (auto simp: service_ok_def)
qed

lemma service_ok_detach:
  assumes "service_ok fheap swf ini cmpt owner s" "ini (sv_servers s i)"
    and "fheap (sv_world s) = Some H" "fheap (sv_world s') = Some (H - {cmpt (sv_servers s i)})"
    and "sv_components s' = (sv_components s)(cmpt (sv_servers s i) := None)"
    and "sv_servers s' = (sv_servers s)(i := srv)" "swf srv" "\<not> ini srv"
  shows "service_ok fheap swf ini cmpt owner s'"
proof -
  have "cmpt (sv_servers s j) \<noteq> cmpt (sv_servers s i)" if "ini (sv_servers s j)" "j \<noteq> i" for j
    using assms(1,2) that unfolding service_ok_def by (metis option.inject)
  with assms show ?thesis by (auto simp: service_ok_def)
qed

lemma service_ok_idle:
  assumes "service_ok fheap swf ini cmpt owner s"
    and "fheap (sv_world s') = fheap (sv_world s)" "sv_components s' = sv_components s"
    and "sv_servers s' = (sv_servers s)(i := srv)" "swf srv" "\<not> ini srv"
  shows "service_ok fheap swf ini cmpt owner s'"
  using assms by (auto simp: service_ok_def)

lemma service_ok_grow:
  assumes "service_ok fheap swf ini cmpt owner s" "fheap (sv_world s) = Some H"
    and "fheap w = Some H'" "H \<subseteq> H'" "null \<notin> H'"
  shows "service_ok fheap swf ini cmpt owner (s\<lparr>sv_world := w\<rparr>)"
  using assms by (auto simp: service_ok_def)

text \<open>\<open>steps P i m s\<close>: the code \<open>m\<close>, run in \<open>s\<close>, reaches \<open>P\<close> and changes no server but \<open>i\<close>.\<close>

definition steps ::
  "(('w, 's, 'c) service \<Rightarrow> bool) \<Rightarrow> nat \<Rightarrow> (('w, 's, 'c) service, 'a) state \<Rightarrow> ('w, 's, 'c) service \<Rightarrow> bool" where
  "steps P i m s \<longleftrightarrow> wp m (\<lambda>_ s'. P s' \<and> frame i s s') s"

lemma frame_refl [simp]: "frame i s s"
  by (simp add: frame_def)

lemma frame_trans: "frame i s s' \<Longrightarrow> frame i s' s'' \<Longrightarrow> frame i s s''"
  by (simp add: frame_def)

lemma frame_world [simp]: "frame i s (s\<lparr>sv_world := w\<rparr>)"
  by (simp add: frame_def)

lemma steps_seq:
  assumes "steps R i m s" and "\<And>a s'. R s' \<Longrightarrow> frame i s s' \<Longrightarrow> steps P i (f a) s'"
  shows "steps P i (State_Monad.bind m f) s"
  unfolding steps_def wp_bind
proof (rule wp_mono [OF assms(1) [unfolded steps_def]], goal_cases)
  case (1 a s')
  with assms(2) have "wp (f a) (\<lambda>_ s''. P s'' \<and> frame i s' s'') s'"
    by (simp add: steps_def)
  then show ?case
    by (rule wp_mono) (use 1 in \<open>auto intro: frame_trans\<close>)
qed

lemmas steps_bind = steps_seq [where R = P and P = P for P]

lemma steps_get: "steps P i (f s) s \<Longrightarrow> steps P i (State_Monad.bind State_Monad.get f) s"
  by (simp add: steps_def wp_simps)

lemma steps_return: "P s \<Longrightarrow> steps P i (ret a) s"
  by (simp add: steps_def wp_simps)

lemma steps_if: "(b \<Longrightarrow> steps P i m s) \<Longrightarrow> (\<not> b \<Longrightarrow> steps P i n s) \<Longrightarrow> steps P i (if b then m else n) s"
  by simp

lemma steps_whenM: "P s \<Longrightarrow> (b \<Longrightarrow> steps P i m s) \<Longrightarrow> steps P i (whenM b m) s"
  by (simp add: steps_def wp_simps)

locale session_server = genode_heap G fheap
  for G :: "'w genode" and fheap :: "'w \<Rightarrow> addr set option" +
  fixes swf :: "'s \<Rightarrow> bool"
    and ini :: "'s \<Rightarrow> bool"
    and cmpt :: "'s \<Rightarrow> addr"
    and owner :: "'c \<Rightarrow> nat"
    and sess :: "'k \<Rightarrow> addr"
    and s_init :: "'k \<Rightarrow> nat \<Rightarrow> nat \<Rightarrow> (('w, 's, 'c) service, unit) state"
    and s_acc :: "nat \<Rightarrow> (('w, 's, 'c) service, unit) state"
    and s_clean :: "'k \<Rightarrow> nat \<Rightarrow> (('w, 's, 'c) service, unit) state"
  assumes init_law: "service_ok fheap swf ini cmpt owner s \<Longrightarrow> \<not> ini (sv_servers s i) \<Longrightarrow>
      wp (s_init k i idx) (\<lambda>_ s'. service_ok fheap swf ini cmpt owner s' \<and> frame i s s') s"
    and accept_law: "wp (s_acc i) (\<lambda>_ s'. s' = s\<lparr>sv_accepted := cmpt (sv_servers s i)\<rparr>) s"
    and cleanup_skip: "\<not> (ini (sv_servers s i) \<and> sess k = cmpt (sv_servers s i)) \<Longrightarrow>
      wp (s_clean k i) (\<lambda>_ s'. s' = s) s"
    and cleanup_law: "service_ok fheap swf ini cmpt owner s \<Longrightarrow> ini (sv_servers s i) \<Longrightarrow>
      sess k = cmpt (sv_servers s i) \<Longrightarrow>
      wp (s_clean k i) (\<lambda>_ s'. service_ok fheap swf ini cmpt owner s' \<and> frame i s s' \<and>
        \<not> ini (sv_servers s' i) \<and> sv_components s' = (sv_components s)(sess k := None) \<and>
        sess k \<notin> objects (fheap (sv_world s'))) s"
begin

abbreviation ok :: "('w, 's, 'c) service \<Rightarrow> bool" where
  "ok \<equiv> service_ok fheap swf ini cmpt owner"

abbreviation run :: "'k \<Rightarrow> dispatch_op list \<Rightarrow> (('w, 's, 'c) service, unit) state" where
  "run k \<equiv> run_dispatch ini (s_init k) s_acc (s_clean k) (sess k = null)"

lemma cmpt_not_null: "ok s \<Longrightarrow> ini (sv_servers s i) \<Longrightarrow> cmpt (sv_servers s i) \<noteq> null"
  by (fastforce simp: service_ok_def)

lemma served_frame:
  "frame i s s' \<Longrightarrow> \<not> ini (sv_servers s i) \<Longrightarrow> served ini cmpt (sv_accepted s) s \<Longrightarrow>
   served ini cmpt (sv_accepted s') s'"
  unfolding served_def frame_def by metis

lemma ok_accept [simp]: "ok (s\<lparr>sv_accepted := p\<rparr>) = ok s"
  by (simp add: service_ok_def)

lemma served_accept: "ini (sv_servers s i) \<Longrightarrow> served ini cmpt (cmpt (sv_servers s i)) (s\<lparr>sv_accepted := p\<rparr>)"
  by (auto simp: served_def)

text \<open>While a request is dispatched, what has been accepted stays a served component.\<close>

lemma run_request:
  assumes "sess k = null"
  shows "ok s \<Longrightarrow> served ini cmpt (sv_accepted s) s \<Longrightarrow>
    wp (run k ops) (\<lambda>_ s'. ok s' \<and> served ini cmpt (sv_accepted s') s') s"
proof (induction ops arbitrary: s)
  case Nil
  then show ?case by (simp add: wp_simps)
next
  case (Cons op ops)
  show ?case
  proof (cases op)
    case (D_Initialize i idx)
    with Cons assms show ?thesis
      by (auto simp: wp_simps intro!: wp_mono [OF init_law] dest: served_frame)
  next
    case (D_Accept i)
    with Cons assms show ?thesis
      by (auto simp: wp_simps ok_accept served_accept intro!: wp_mono [OF accept_law])
  next
    case (D_Cleanup i)
    have "\<not> (ini (sv_servers s i) \<and> sess k = cmpt (sv_servers s i))"
      using cmpt_not_null [OF Cons.prems(1), of i] assms by auto
    from wp_mono [OF cleanup_skip [OF this]] Cons D_Cleanup show ?thesis
      by (simp add: wp_simps)
  qed
qed

text \<open>The outcome of a session request.\<close>

definition created :: "(root_error + addr) \<Rightarrow> ('w, 's, 'c) service \<Rightarrow> bool" where
  "created r s \<longleftrightarrow> ok s \<and> (case r of Inl _ \<Rightarrow> True | Inr p \<Rightarrow>
     p \<in> objects (fheap (sv_world s)) \<and>
     (\<exists>i c. ini (sv_servers s i) \<and> cmpt (sv_servers s i) = p \<and> sv_components s p = Some c \<and> owner c = i))"

lemma ok_world: "ok s \<Longrightarrow> fheap w = fheap (sv_world s) \<Longrightarrow> ok (s\<lparr>sv_world := w\<rparr>)"
  by (simp add: service_ok_def)

lemma served_created: "ok s \<Longrightarrow> served ini cmpt p s \<Longrightarrow> p \<noteq> null \<Longrightarrow> created (Inr p) s"
  by (fastforce simp: created_def served_def service_ok_def)

lemma create_created:
  assumes "ok s" and "sess k = null"
  shows "wp (create_session_shape G sz (\<lambda>k nm lb. run k (D k nm lb)) k args) created s"
proof (cases "g_arg_value G args ''ram_quota'' 0 < max 4096 sz")
  case True
  with assms(1) show ?thesis
    unfolding create_session_shape_def
    by (auto simp: wp_simps created_def intro!: keeps_wpI [OF warning_keeps] ok_world)
next
  case False
  let ?s = "s\<lparr>sv_accepted := null\<rparr>"
  have acc: "ok ?s" "served ini cmpt (sv_accepted ?s) ?s"
    using assms(1) by (simp_all add: served_def)
  have "wp (run k ops) (\<lambda>_ s1. if sv_accepted s1 = null
      then wp (g_warning G m) (\<lambda>_ w. created (Inl Service_denied) (s1\<lparr>sv_world := w\<rparr>)) (sv_world s1)
      else created (Inr (sv_accepted s1)) s1) ?s" for ops m
    by (rule wp_mono [OF run_request [OF assms(2) acc]])
      (auto intro!: keeps_wpI [OF warning_keeps] ok_world served_created simp: created_def [of "Inl _"])
  then show ?thesis
    unfolding create_session_shape_def if_not_P [OF False] Let_def wp_simps by simp
qed

text \<open>
  A disconnect: the capability carries the component that goes away. Only the server of
  that component is affected, and exactly if the component calls \<open>Session_Cleanup\<close> on it.
\<close>

definition disconnected :: "nat \<Rightarrow> addr \<Rightarrow> ('w, 's, 'c) service \<Rightarrow> ('w, 's, 'c) service \<Rightarrow> bool" where
  "disconnected i p s s' \<longleftrightarrow> ok s' \<and> frame i s s' \<and> \<not> ini (sv_servers s' i) \<and>
     sv_components s' = (sv_components s)(p := None) \<and> p \<notin> objects (fheap (sv_world s'))"

lemma run_dead:
  assumes "sess k \<noteq> null" and "\<And>i. \<not> (ini (sv_servers s i) \<and> sess k = cmpt (sv_servers s i))"
  shows "wp (run k ops) (\<lambda>_ s'. s' = s) s"
proof (induction ops)
  case Nil
  then show ?case by (simp add: wp_simps)
next
  case (Cons op ops)
  with assms(1) show ?case
    by (cases op) (auto simp: wp_simps intro!: wp_mono [OF cleanup_skip [OF assms(2)]])
qed

lemma owner_unique:
  "ok s \<Longrightarrow> ini (sv_servers s i) \<Longrightarrow> ini (sv_servers s j) \<Longrightarrow>
   cmpt (sv_servers s i) = cmpt (sv_servers s j) \<Longrightarrow> i = j"
  unfolding service_ok_def by (metis option.inject)

lemma run_disconnect:
  assumes "ok s" and "ini (sv_servers s i)" and "sess k = cmpt (sv_servers s i)"
  shows "wp (run k ops) (\<lambda>_ s'. if D_Cleanup i \<in> set ops then disconnected i (sess k) s s' else s' = s) s"
proof (induction ops)
  case Nil
  then show ?case by (simp add: wp_simps)
next
  case (Cons op ops)
  have nn: "sess k \<noteq> null"
    using cmpt_not_null [OF assms(1,2)] assms(3) by simp
  show ?case
  proof (cases op)
    case (D_Cleanup j)
    show ?thesis
    proof (cases "j = i")
      case True
      have dead: "wp (run k ops) (\<lambda>_ s''. s'' = s') s'" if "disconnected i (sess k) s s'" for s'
        using that by (intro run_dead [OF nn]) (auto simp: disconnected_def service_ok_def)
      show ?thesis
        unfolding D_Cleanup True using dead
        by (simp add: wp_simps)
          (rule wp_mono [OF cleanup_law [OF assms]], rule wp_mono [OF dead], auto simp: disconnected_def)
    next
      case False
      then have "\<not> (ini (sv_servers s j) \<and> sess k = cmpt (sv_servers s j))"
        using owner_unique [OF assms(1,2), of j] assms(3) by auto
      from wp_mono [OF cleanup_skip [OF this]] Cons False D_Cleanup show ?thesis
        by (simp add: wp_simps)
    qed
  qed (use Cons nn in \<open>simp_all add: wp_simps\<close>)
qed

end

subsection \<open>Server code of a component\<close>

text \<open>The address \<open>cb\<close> is that of a callback.\<close>

locale component_code = genode_component G fheap cb
  for G :: "'w genode" and fheap :: "'w \<Rightarrow> addr set option" and cb :: addr +
  fixes I :: "'w server_impl"
  assumes initialize_grows: "grows fheap (si_initialize I i)"
    and finalize_grows: "grows fheap (si_finalize I i)"

lemma wp_grows:
  assumes "grows fheap m" "fheap w = Some H" "null \<notin> H"
    and "\<And>a w' H'. fheap w' = Some H' \<Longrightarrow> H \<subseteq> H' \<Longrightarrow> null \<notin> H' \<Longrightarrow> Q a w'"
  shows "wp m Q w"
proof -
  from assms(1-3) have "wp m (\<lambda>_ w'. \<exists>H'. fheap w' = Some H' \<and> H \<subseteq> H' \<and> null \<notin> H') w"
    by (simp add: grows_def)
  then show ?thesis by (rule wp_mono) (use assms(4) in auto)
qed

context component_code
begin

text \<open>Code of the component between the service's own steps.\<close>

lemma in_world_grows:
  assumes "service_ok fheap swf ini cmpt owner s" and "grows fheap m"
  shows "wp (in_world m) (\<lambda>_ s'. \<exists>w. s' = s\<lparr>sv_world := w\<rparr> \<and> service_ok fheap swf ini cmpt owner s') s"
proof -
  from assms(1) obtain H where "fheap (sv_world s) = Some H" "null \<notin> H"
    by (auto simp: service_ok_def)
  with assms show ?thesis
    unfolding wp_simps by (auto intro!: wp_grows [OF assms(2)] intro: service_ok_grow)
qed

lemma steps_grows:
  assumes "service_ok fheap swf ini cmpt owner s" and "grows fheap m"
  shows "steps (service_ok fheap swf ini cmpt owner) i (in_world m) s"
  unfolding steps_def by (rule wp_mono [OF in_world_grows [OF assms]]) auto

end

text \<open>Component code for concrete runs: servers with an odd number are not ready.\<close>

definition gs_impl :: "gsim server_impl" where
  "gs_impl = \<lparr> si_initialize = (\<lambda>_. ret ()), si_ready = (\<lambda>i _. even i), si_finalize = (\<lambda>_. ret ()),
     si_write = (\<lambda>_ s. gs_log (Wrote s)), si_receive = (\<lambda>_ d. gs_log (Received d)) \<rparr>"

interpretation gsim_code: component_code gsim_genode gsim_heap "0x400" gs_impl
  by unfold_locales (simp_all add: gs_impl_def keeps_grows keeps_return)

subsection \<open>Labels\<close>

text \<open>
  The names a root passes to the component are the 160-character buffers of
  \<open>Genode::Session_label\<close>; each Ada body has its own loop that cuts the buffer at the first
  NUL: \<open>Last\<close> of \<open>Gneiss.Log.Dispatcher\<close>, \<open>To_Ada\<close> of \<open>Gneiss.Memory.Dispatcher\<close> and
  \<open>Genode.To_String\<close>. The argument \<open>i\<close> is the loop index, \<open>l\<close> the variable \<open>L\<close> or \<open>Last\<close>.
\<close>

fun label_Last :: "nat \<Rightarrow> nat \<Rightarrow> string \<Rightarrow> nat" where
  "label_Last i l [] = l"
| "label_Last i l (c # cs) = (if c = CHR 0x00 then i - 1 else label_Last (i + 1) (i - 1) cs)"

fun last_before_nul :: "nat \<Rightarrow> nat \<Rightarrow> string \<Rightarrow> nat" where
  "last_before_nul i l [] = l"
| "last_before_nul i l (c # cs) = (if c = CHR 0x00 then l else last_before_nul (i + 1) i cs)"

definition log_label :: "string \<Rightarrow> string" where
  "log_label s = take (label_Last 1 (length s) s) s"

definition To_Ada :: "string \<Rightarrow> string" where
  "To_Ada s = take (last_before_nul 1 0 s) s"

definition To_String :: "string \<Rightarrow> string" where
  "To_String s = take (last_before_nul 1 (1 - 1) s) s"

lemma label_Last_nul:
  "CHR 0x00 \<notin> set a \<Longrightarrow> label_Last (Suc i) l (a @ CHR 0x00 # b) = i + length a"
  by (induction a arbitrary: i l) auto

lemma last_before_nul_nul:
  "CHR 0x00 \<notin> set a \<Longrightarrow> last_before_nul (Suc i) i (a @ CHR 0x00 # b) = i + length a"
  by (induction a arbitrary: i) auto

lemma last_before_nul_all:
  "CHR 0x00 \<notin> set a \<Longrightarrow> last_before_nul (Suc i) i a = i + length a"
  by (induction a arbitrary: i) auto

lemma label_Last_all: "CHR 0x00 \<notin> set a \<Longrightarrow> a \<noteq> [] \<Longrightarrow> label_Last (Suc i) l a = i + length a - 1"
proof (induction a arbitrary: i l)
  case (Cons c cs)
  then show ?case by (cases cs) (auto split: if_splits)
qed simp

text \<open>
  The three label conversions agree: on any buffer that holds a NUL they return the text
  in front of the first NUL. On a buffer without a NUL, \<open>To_Ada\<close> and \<open>To_String\<close> return the
  whole buffer, while the loop of the Log dispatcher drops its last character.
\<close>

theorem label_conversions:
  "CHR 0x00 \<notin> set a \<longrightarrow>
     log_label (a @ CHR 0x00 # b) = a \<and> To_Ada (a @ CHR 0x00 # b) = a \<and> To_String (a @ CHR 0x00 # b) = a \<and>
     To_Ada a = a \<and> To_String a = a \<and> log_label a = butlast a"
proof (intro impI conjI)
  assume a: "CHR 0x00 \<notin> set a"
  show "log_label (a @ CHR 0x00 # b) = a" "To_Ada (a @ CHR 0x00 # b) = a" "To_String (a @ CHR 0x00 # b) = a"
    using label_Last_nul [OF a, of 0 _ b] last_before_nul_nul [OF a, of 0 b]
    by (simp_all add: log_label_def To_Ada_def To_String_def)
  show "To_Ada a = a" "To_String a = a"
    using last_before_nul_all [OF a, of 0] by (simp_all add: To_Ada_def To_String_def)
  show "log_label a = butlast a"
    using label_Last_all [OF a, of 0] by (cases "a = []") (simp_all add: log_label_def butlast_conv_take)
qed

theorem label_conversions_witness:
  "log_label (''client'' @ CHR 0x00 # ''rest'') = ''client'' \<and> To_Ada (''client'' @ CHR 0x00 # ''rest'') = ''client''"
proof -
  have "CHR 0x00 \<notin> set ''client''" by simp
  with label_conversions [of "''client''" "''rest''"] show ?thesis by blast
qed

end
