(* ===== verification/Genode_Log_Server.thy ===== *)
theory Genode_Log_Server
  imports Genode_Root
begin

text \<open>
  The Log service on Genode: \<open>gneiss_log_server.cc\<close>, \<open>gneiss_log_dispatcher.cc\<close> and the Ada
  body \<open>Gneiss.Log.Dispatcher\<close>. The component's own server code (\<open>Server_Instance\<close>) and
  the write callback are the parameter \<open>I\<close>; it runs in the world and may create objects of
  its own, but destroys none of the service (\<open>component_code\<close>).
\<close>

subsection \<open>Log server and session component\<close>

record log_server =
  lsv_component :: addr
  lsv_write :: addr
  lsv_index :: "nat option"

text \<open>A session component holds the number of its server object.\<close>

record log_component =
  lcp_server :: nat

type_synonym 'w log_service = "('w, log_server, log_component) service"

definition log_server_new :: log_server where
  "log_server_new = \<lparr> lsv_component = null, lsv_write = null, lsv_index = None \<rparr>"

definition log_server_component :: "log_server \<Rightarrow> addr" where
  "log_server_component srv = lsv_component srv"

definition log_component_new :: "nat \<Rightarrow> log_component" where
  "log_component_new i = \<lparr> lcp_server = i \<rparr>"

lemmas log_objects [simp] = log_server_component_def log_component_new_def

definition log_server_initialize :: "log_server \<Rightarrow> addr \<Rightarrow> addr \<Rightarrow> log_server" where
  "log_server_initialize srv component write =
     (if component = null \<or> write = null then srv
      else srv\<lparr>lsv_component := component, lsv_write := write\<rparr>)"

definition log_server_finalize :: "log_server \<Rightarrow> log_server" where
  "log_server_finalize srv = srv\<lparr>lsv_component := null, lsv_write := null\<rparr>"

text \<open>
  \<open>Log_Component::write\<close> passes \<open>size_t size\<close> as \<open>int *\<close>: the callback stores the length in
  the low half, the upper half keeps the value \<open>garbage\<close> the uninitialized variable had.
\<close>

definition store_int :: "u64 \<Rightarrow> int \<Rightarrow> u64" where
  "store_int garbage n = (garbage AND 0xFFFFFFFF00000000) OR (word_of_int n AND 0xFFFFFFFF)"

definition log_genode_write :: "'w server_impl \<Rightarrow> nat \<Rightarrow> string \<Rightarrow> int \<Rightarrow> ('w, int) state" where
  "log_genode_write I srv data len = do {
     si_write I srv (take (nat len) data);
     ret len
   }"

definition log_component_write ::
  "'w server_impl \<Rightarrow> log_component \<Rightarrow> u64 \<Rightarrow> string \<Rightarrow> ('w, u64) state" where
  "log_component_write I c garbage data = do {
     done \<leftarrow> log_genode_write I (lcp_server c) data (int (length data));
     ret (store_int garbage done)
   }"

subsection \<open>Dispatcher\<close>

text \<open>The constructors of \<open>Log_Dispatcher\<close> and \<open>Log_Root\<close>.\<close>

definition log_dispatcher_new :: "'w log_service \<Rightarrow> 'w log_service" where
  "log_dispatcher_new s = s\<lparr>sv_root := null, sv_env := null, sv_index := None, sv_dispatch := null\<rparr>"

definition log_root_ctor :: "'w genode \<Rightarrow> addr \<Rightarrow> ('w, unit option) state" where
  "log_root_ctor G p = succeeds (g_root_component G p)"

definition log_dispatcher_initialize :: "'w genode \<Rightarrow> addr \<Rightarrow> addr \<Rightarrow> ('w log_service, unit) state" where
  "log_dispatcher_initialize G env dispatch = do {
     update (\<lambda>s. s\<lparr>sv_env := env, sv_dispatch := dispatch\<rparr>);
     in_world (check_factory G);
     r \<leftarrow> in_world (create2 G ''Gneiss::Log_Root'' (log_root_ctor G));
     update (\<lambda>s. s\<lparr>sv_root := ptr r\<rparr>);
     (if ptr r = null then update (\<lambda>s. s\<lparr>sv_env := null, sv_dispatch := null\<rparr>)
      else update (\<lambda>s. s\<lparr>sv_accepted := null\<rparr>))
   }"

definition log_register_service :: "'w genode \<Rightarrow> ('w log_service, unit) state" where
  "log_register_service G = do {
     s \<leftarrow> getS;
     in_world (g_announce G (sv_root s))
   }"

definition log_root_accept :: "addr \<Rightarrow> ('w log_service, unit) state" where
  "log_root_accept component = update (\<lambda>s. s\<lparr>sv_accepted := component\<rparr>)"

definition log_accept :: "nat \<Rightarrow> ('w log_service, unit) state" where
  "log_accept i = do {
     s \<leftarrow> getS;
     log_root_accept (log_server_component (sv_servers s i))
   }"

definition log_session_initialize :: "'w genode \<Rightarrow> nat \<Rightarrow> addr \<Rightarrow> ('w log_service, unit) state" where
  "log_session_initialize G i write = do {
     in_world (check_factory G);
     r \<leftarrow> in_world (create2 G ''Gneiss::Log_Component'' (\<lambda>p. ret (Some ())));
     (if ptr r = null then ret () else set_component (ptr r) (Some (log_component_new i)));
     s \<leftarrow> getS;
     set_server i (log_server_initialize (sv_servers s i) (ptr r) write)
   }"

definition log_cleanup :: "'w genode \<Rightarrow> nat \<Rightarrow> ('w log_service, unit) state" where
  "log_cleanup G i = do {
     s \<leftarrow> getS;
     in_world (destroy G (lsv_component (sv_servers s i)));
     set_component (lsv_component (sv_servers s i)) None;
     set_server i (log_server_finalize (sv_servers s i))
   }"

definition log_create_session ::
  "'w genode \<Rightarrow> u64 \<Rightarrow> (addr \<Rightarrow> string \<Rightarrow> string \<Rightarrow> ('w log_service, unit) state) \<Rightarrow> string \<Rightarrow>
   ('w log_service, root_error + addr) state" where
  "log_create_session G sizeof_component dispatch args = do {
     let ram_quota = g_arg_value G args ''ram_quota'' 0;
     if ram_quota < max 4096 sizeof_component then do {
       in_world (g_warning G (''Insufficient_ram_quota ('' @ args @ '')''));
       ret (Inl Insufficient_ram_quota)
     } else do {
       update (\<lambda>s. s\<lparr>sv_accepted := null\<rparr>);
       let label = g_label_from_args G args;
       let component = g_label_prefix G label;
       let label = g_label_last_element G label;
       (if 1 < g_label_length G component then dispatch null component label
        else dispatch null label component);
       s \<leftarrow> getS;
       if sv_accepted s = null then do {
         in_world (g_warning G (''Service_denied ('' @ args @ '')''));
         ret (Inl Service_denied)
       } else ret (Inr (sv_accepted s))
     }
   }"

definition log_destroy_session ::
  "(addr \<Rightarrow> string \<Rightarrow> string \<Rightarrow> ('w log_service, unit) state) \<Rightarrow> addr \<Rightarrow> ('w log_service, unit) state" where
  "log_destroy_session dispatch session = dispatch session [] []"

subsection \<open>\<open>Gneiss.Log.Dispatcher\<close>\<close>

definition Log_Server_Initialized :: "log_server \<Rightarrow> bool" where
  "Log_Server_Initialized srv \<longleftrightarrow> lsv_component srv \<noteq> null \<and> lsv_write srv \<noteq> null"

definition Log_Dispatcher_Initialized :: "'w log_service \<Rightarrow> bool" where
  "Log_Dispatcher_Initialized s \<longleftrightarrow> sv_root s \<noteq> null \<and> sv_env s \<noteq> null \<and> sv_dispatch s \<noteq> null"

definition Log_Dispatcher_Initialize :: "'w genode \<Rightarrow> addr \<Rightarrow> addr \<Rightarrow> nat \<Rightarrow> ('w log_service, unit) state" where
  "Log_Dispatcher_Initialize G env dispatch idx = do {
     log_dispatcher_initialize G env dispatch;
     s \<leftarrow> getS;
     whenM (Log_Dispatcher_Initialized s) (update (\<lambda>s. s\<lparr>sv_index := Some idx\<rparr>))
   }"

definition Valid_Session_Request :: "addr \<Rightarrow> bool" where
  "Valid_Session_Request cap \<longleftrightarrow> cap = null"

definition log_reset_server :: "nat \<Rightarrow> ('w log_service, unit) state" where
  "log_reset_server i = do {
     s \<leftarrow> getS;
     set_server i ((sv_servers s i)\<lparr>lsv_index := None, lsv_component := null, lsv_write := null\<rparr>)
   }"

definition Log_Session_Initialize ::
  "'w genode \<Rightarrow> 'w server_impl \<Rightarrow> addr \<Rightarrow> addr \<Rightarrow> nat \<Rightarrow> nat \<Rightarrow> ('w log_service, unit) state" where
  "Log_Session_Initialize G I write cap i idx = do {
     s \<leftarrow> getS;
     set_server i ((sv_servers s i)\<lparr>lsv_index := Some idx\<rparr>);
     log_session_initialize G i write;
     s \<leftarrow> getS;
     whenM (\<not> Log_Server_Initialized (sv_servers s i)) (set_server i ((sv_servers s i)\<lparr>lsv_index := None\<rparr>));
     in_world (si_initialize I i);
     s \<leftarrow> getS;
     whenM (\<not> si_ready I i (sv_world s)) (do {
       log_cleanup G i;
       log_reset_server i
     })
   }"

definition Log_Session_Accept :: "nat \<Rightarrow> ('w log_service, unit) state" where
  "Log_Session_Accept i = log_accept i"

definition Log_Session_Cleanup ::
  "'w genode \<Rightarrow> 'w server_impl \<Rightarrow> addr \<Rightarrow> nat \<Rightarrow> ('w log_service, unit) state" where
  "Log_Session_Cleanup G I cap i = do {
     s \<leftarrow> getS;
     if \<not> Log_Server_Initialized (sv_servers s i) \<or> cap \<noteq> lsv_component (sv_servers s i) then ret ()
     else do {
       in_world (si_finalize I i);
       log_cleanup G i;
       log_reset_server i
     }
   }"

text \<open>A component's \<open>Dispatch\<close> procedure: the calls it makes for a request, as data.\<close>

definition log_dispatch ::
  "'w genode \<Rightarrow> 'w server_impl \<Rightarrow> addr \<Rightarrow> (addr \<Rightarrow> string \<Rightarrow> string \<Rightarrow> dispatch_op list) \<Rightarrow>
   addr \<Rightarrow> string \<Rightarrow> string \<Rightarrow> ('w log_service, unit) state" where
  "log_dispatch G I write D cap name label =
     run_dispatch Log_Server_Initialized (Log_Session_Initialize G I write cap) Log_Session_Accept
       (Log_Session_Cleanup G I cap) (Valid_Session_Request cap) (D cap name label)"

subsection \<open>The service keeps its contract\<close>

text \<open>A log server has a component exactly if it has a write callback.\<close>

definition log_server_wf :: "log_server \<Rightarrow> bool" where
  "log_server_wf srv \<longleftrightarrow> (lsv_component srv = null \<longleftrightarrow> lsv_write srv = null)"

abbreviation log_service_ok :: "('w \<Rightarrow> addr set option) \<Rightarrow> 'w log_service \<Rightarrow> bool" where
  "log_service_ok fheap \<equiv> service_ok fheap log_server_wf Log_Server_Initialized lsv_component lcp_server"

lemmas log_srv_defs = Log_Server_Initialized_def log_server_wf_def log_server_initialize_def
  log_server_finalize_def frame_def

context component_code
begin

lemma log_cleanup_ok:
  assumes "log_service_ok fheap s" "Log_Server_Initialized (sv_servers s i)"
  shows "wp (do { log_cleanup G i; log_reset_server i }) (\<lambda>_ s'. log_service_ok fheap s' \<and> frame i s s' \<and>
      \<not> Log_Server_Initialized (sv_servers s' i) \<and>
      sv_components s' = (sv_components s)(lsv_component (sv_servers s i) := None) \<and>
      lsv_component (sv_servers s i) \<notin> objects (fheap (sv_world s'))) s"
proof -
  from assms(1) obtain H where H: "fheap (sv_world s) = Some H" "null \<notin> H"
    by (auto simp: service_ok_def)
  show ?thesis
    unfolding log_cleanup_def log_reset_server_def wp_simps
    by (rule wp_destroy [OF H(1)])
      (auto simp: log_srv_defs intro!: service_ok_detach [OF assms H(1)])
qed

lemma log_cleanup_idle:
  assumes "log_service_ok fheap s" "\<not> Log_Server_Initialized (sv_servers s i)"
  shows "steps (log_service_ok fheap) i (do { log_cleanup G i; log_reset_server i }) s"
proof -
  from assms(1) obtain H where H: "fheap (sv_world s) = Some H" "null \<notin> H" "dom (sv_components s) \<subseteq> H"
    by (auto simp: service_ok_def)
  have "lsv_component (sv_servers s i) = null"
    using assms by (auto simp: service_ok_def log_srv_defs)
  moreover have "(sv_components s)(null := None) = sv_components s"
    using H by (intro fun_upd_idem) (auto simp: domIff [symmetric])
  ultimately show ?thesis
    unfolding log_cleanup_def log_reset_server_def wp_simps steps_def
    by (intro wp_destroy [OF H(1)])
      (use H in \<open>auto simp: log_srv_defs intro!: service_ok_idle [OF assms(1)]\<close>)
qed

lemma log_cleanup_any:
  "log_service_ok fheap s \<Longrightarrow> steps (log_service_ok fheap) i (do { log_cleanup G i; log_reset_server i }) s"
  using log_cleanup_ok [of s i] log_cleanup_idle [of s i]
  by (cases "Log_Server_Initialized (sv_servers s i)") (auto simp: steps_def elim: wp_mono)

lemma log_session_initialize_ok:
  assumes "log_service_ok fheap s" "\<not> Log_Server_Initialized (sv_servers s i)"
  shows "steps (log_service_ok fheap) i (log_session_initialize G i cb) s"
proof -
  from assms(1) obtain H where H: "fheap (sv_world s) = Some H" "null \<notin> H"
    by (auto simp: service_ok_def)
  show ?thesis
    unfolding log_session_initialize_def steps_def wp_simps
  proof (rule wp_check_factory, goal_cases)
    case (1 w)
    with H have hw: "fheap w = Some H" by simp
    show ?case
    proof (simp, rule wp_create2 [OF hw], goal_cases)
      case (1 p)
      show ?case by (intro keeps_intros)
    next
      case (2 w')
      with assms(1) H show ?case
        by (auto simp: log_srv_defs service_ok_def)
    next
      case (3 p u w')
      then show ?case
        using cb_not_null
        by (auto simp: log_srv_defs intro!: service_ok_attach [OF assms(1) H(1), where p = p and i = i])
    qed
  qed
qed

lemma log_set_index_ok:
  assumes "log_service_ok fheap s" "\<not> Log_Server_Initialized (sv_servers s i)"
  shows "steps (log_service_ok fheap) i (set_server i ((sv_servers s i)\<lparr>lsv_index := x\<rparr>)) s"
  unfolding steps_def wp_simps
  using assms by (auto simp: log_srv_defs service_ok_def)

lemma Log_Session_Initialize_ok:
  assumes "log_service_ok fheap s" "\<not> Log_Server_Initialized (sv_servers s i)"
  shows "steps (log_service_ok fheap) i (Log_Session_Initialize G I cb k i idx) s"
proof -
  have idx: "steps (log_service_ok fheap) i
      (do { set_server i ((sv_servers s i)\<lparr>lsv_index := Some idx\<rparr>); log_session_initialize G i cb }) s"
  proof -
    let ?s = "s\<lparr>sv_servers := (sv_servers s)(i := (sv_servers s i)\<lparr>lsv_index := Some idx\<rparr>)\<rparr>"
    have "log_service_ok fheap ?s" "\<not> Log_Server_Initialized (sv_servers ?s i)" "frame i s ?s"
      using log_set_index_ok [OF assms, of "Some idx"] assms(2)
      by (simp_all add: steps_def wp_simps Log_Server_Initialized_def frame_def)
    with log_session_initialize_ok [of ?s i] show ?thesis
      by (auto simp: steps_def wp_simps elim!: wp_mono intro: frame_trans)
  qed
  show ?thesis
    unfolding Log_Session_Initialize_def
    by (rule steps_get, rule steps_bind [OF idx, unfolded State_Monad.bind_assoc])
      (intro steps_get steps_bind steps_whenM log_set_index_ok steps_grows initialize_grows log_cleanup_any)
qed

lemma Log_Session_Cleanup_ok:
  assumes "log_service_ok fheap s" "Log_Server_Initialized (sv_servers s i)" "k = lsv_component (sv_servers s i)"
  shows "wp (Log_Session_Cleanup G I k i) (\<lambda>_ s'. log_service_ok fheap s' \<and> frame i s s' \<and>
      \<not> Log_Server_Initialized (sv_servers s' i) \<and> sv_components s' = (sv_components s)(k := None) \<and>
      k \<notin> objects (fheap (sv_world s'))) s"
proof -
  have "wp (in_world (si_finalize I i)) (\<lambda>_ s'. \<exists>w. s' = s\<lparr>sv_world := w\<rparr> \<and> log_service_ok fheap s') s"
    by (rule in_world_grows [OF assms(1) finalize_grows])
  then have "wp (do { in_world (si_finalize I i); log_cleanup G i; log_reset_server i })
      (\<lambda>_ s'. log_service_ok fheap s' \<and> frame i s s' \<and>
      \<not> Log_Server_Initialized (sv_servers s' i) \<and> sv_components s' = (sv_components s)(k := None) \<and>
      k \<notin> objects (fheap (sv_world s'))) s"
    unfolding wp_bind [of "in_world _"]
  proof (rule wp_mono, goal_cases)
    case (1 u s1)
    then obtain w where w: "s1 = s\<lparr>sv_world := w\<rparr>" "log_service_ok fheap s1" by blast
    then have "Log_Server_Initialized (sv_servers s1 i)" using assms(2) by simp
    from log_cleanup_ok [OF w(2) this] show ?case
      by (rule wp_mono) (auto simp: w(1) assms(3) frame_def)
  qed
  then show ?thesis
    using assms(2,3) by (simp add: Log_Session_Cleanup_def wp_simps)
qed

end

sublocale component_code \<subseteq> log_srv: session_server G fheap log_server_wf Log_Server_Initialized
  lsv_component lcp_server "\<lambda>k. k" "Log_Session_Initialize G I cb" Log_Session_Accept "Log_Session_Cleanup G I"
proof unfold_locales
  fix s i k idx
  assume "log_service_ok fheap s" "\<not> Log_Server_Initialized (sv_servers s i)"
  then show "wp (Log_Session_Initialize G I cb k i idx) (\<lambda>_ s'. log_service_ok fheap s' \<and> frame i s s') s"
    using Log_Session_Initialize_ok by (simp add: steps_def)
next
  fix s i k
  assume "log_service_ok fheap s" "Log_Server_Initialized (sv_servers s i)" "k = lsv_component (sv_servers s i)"
  then show "wp (Log_Session_Cleanup G I k i) (\<lambda>_ s'. log_service_ok fheap s' \<and> frame i s s' \<and>
        \<not> Log_Server_Initialized (sv_servers s' i) \<and> sv_components s' = (sv_components s)(k := None) \<and>
        k \<notin> objects (fheap (sv_world s'))) s"
    by (rule Log_Session_Cleanup_ok)
qed (auto simp: Log_Session_Accept_def log_accept_def log_root_accept_def Log_Session_Cleanup_def wp_simps)

lemma log_create_session_eq:
  "log_create_session G sz dispatch args = create_session_shape G sz dispatch null args"
  by (simp add: log_create_session_def create_session_shape_def Let_def)

context component_code
begin

lemma log_create:
  "log_service_ok fheap s \<Longrightarrow> wp (log_create_session G sz (log_dispatch G I cb D) args) (\<lambda>r s'.
     log_srv.created r s' \<and> (r = Inl Insufficient_ram_quota \<longleftrightarrow> g_arg_value G args ''ram_quota'' 0 < max 4096 sz)) s"
  unfolding log_create_session_eq log_dispatch_def [abs_def] Valid_Session_Request_def
  by (rule wp_and [OF log_srv.create_created create_quota]) simp_all

lemmas log_disconnect = log_srv.run_disconnect
lemmas log_created_def = log_srv.created_def
lemmas log_disconnected_def = log_srv.disconnected_def

end

subsection \<open>Properties\<close>

text \<open>
  C4. A Log session request on Genode is answered soundly, whatever the component's
  \<open>Dispatch\<close> does within its preconditions: the root reports \<open>Insufficient_ram_quota\<close>
  exactly for a quota below the size of a component, otherwise it denies the request or
  returns a session component that is alive on the heap and belongs to an initialized
  server of this component. A component accepted for an earlier request is never returned,
  and the invariant of the service is kept on every path.
\<close>

theorem log_create_session_sound:
  assumes "component_code G fheap cb I" and "log_service_ok fheap s"
  shows "wp (log_create_session G sz (log_dispatch G I cb D) args) (\<lambda>r s'.
      log_service_ok fheap s' \<and>
      (r = Inl Insufficient_ram_quota \<longleftrightarrow> g_arg_value G args ''ram_quota'' 0 < max 4096 sz) \<and>
      (\<forall>p. r = Inr p \<longrightarrow> p \<in> objects (fheap (sv_world s')) \<and>
         (\<exists>i. Log_Server_Initialized (sv_servers s' i) \<and> lsv_component (sv_servers s' i) = p \<and>
              map_option lcp_server (sv_components s' p) = Some i))) s"
  using component_code.log_create [OF assms]
  by (rule wp_mono) (auto simp: component_code.log_created_def [OF assms(1)])

definition sample_log_service :: "gsim log_service" where
  "sample_log_service = \<lparr> sv_world = gsim_init\<lparr>gs_up := True\<rparr>, sv_root = 0x100, sv_env = 0x200, sv_index = Some 1,
     sv_dispatch = 0x300, sv_accepted = 0x999, sv_servers = (\<lambda>_. log_server_new), sv_components = (\<lambda>_. None) \<rparr>"

lemma sample_log_service_ok: "log_service_ok gsim_heap sample_log_service"
  by (simp add: service_ok_def sample_log_service_def gsim_heap_def gsim_init_def log_server_new_def
      log_server_wf_def Log_Server_Initialized_def)

text \<open>Server 1 does not become ready, server 2 is accepted.\<close>

theorem log_create_session_sound_witness:
  "result (log_create_session gsim_genode 64 (log_dispatch gsim_genode gs_impl 0x400
       (\<lambda>_ _ _. [D_Initialize 1 1, D_Accept 1, D_Initialize 2 7, D_Accept 2])) ''init>log'') sample_log_service = Inr 32 \<and>
   wp (log_create_session gsim_genode 64 (log_dispatch gsim_genode gs_impl 0x400
       (\<lambda>_ _ _. [D_Initialize 1 1, D_Accept 1, D_Initialize 2 7, D_Accept 2])) ''init>log'') (\<lambda>r s'.
      log_service_ok gsim_heap s' \<and>
      (r = Inl Insufficient_ram_quota \<longleftrightarrow> g_arg_value gsim_genode ''init>log'' ''ram_quota'' 0 < max 4096 64) \<and>
      (\<forall>p. r = Inr p \<longrightarrow> p \<in> objects (gsim_heap (sv_world s')) \<and>
         (\<exists>i. Log_Server_Initialized (sv_servers s' i) \<and> lsv_component (sv_servers s' i) = p \<and>
              map_option lcp_server (sv_components s' p) = Some i))) sample_log_service"
proof (rule conjI)
  show "result (log_create_session gsim_genode 64 (log_dispatch gsim_genode gs_impl 0x400
       (\<lambda>_ _ _. [D_Initialize 1 1, D_Accept 1, D_Initialize 2 7, D_Accept 2])) ''init>log'') sample_log_service = Inr 32"
    by code_simp
qed (rule log_create_session_sound [OF gsim_code.component_code_axioms sample_log_service_ok])

text \<open>
  C5. A disconnect reaches exactly one server: when Genode destroys the session of server
  \<open>i\<close> and the component's \<open>Dispatch\<close> calls \<open>Session_Cleanup\<close> on it, in whatever order with
  other calls, that server is finalized and its component is gone from the heap, every other
  server and component is untouched; if \<open>Dispatch\<close> never cleans up \<open>i\<close>, nothing changes.
\<close>

theorem log_destroy_session_exact:
  assumes "component_code G fheap cb I" and "log_service_ok fheap s"
    and "Log_Server_Initialized (sv_servers s i)" and "p = lsv_component (sv_servers s i)"
  shows "wp (log_destroy_session (log_dispatch G I cb D) p) (\<lambda>_ s'.
      if D_Cleanup i \<in> set (D p [] []) then
        log_service_ok fheap s' \<and> \<not> Log_Server_Initialized (sv_servers s' i) \<and>
        p \<notin> objects (fheap (sv_world s')) \<and> sv_components s' = (sv_components s)(p := None) \<and>
        (\<forall>j. j \<noteq> i \<longrightarrow> sv_servers s' j = sv_servers s j)
      else s' = s) s"
  using component_code.log_disconnect [OF assms(1,2,3), of p "D p [] []"] assms(4)
  unfolding log_destroy_session_def log_dispatch_def Valid_Session_Request_def
  by (auto elim!: wp_mono simp: component_code.log_disconnected_def [OF assms(1)] frame_def split: if_splits)

definition sample_log_session :: "gsim log_service" where
  "sample_log_session = sample_log_service\<lparr> sv_world := gsim_init\<lparr>gs_up := True, gs_objects := [16]\<rparr>,
     sv_servers := (\<lambda>_. log_server_new)(2 := \<lparr>lsv_component = 16, lsv_write = 0x400, lsv_index = Some 7\<rparr>),
     sv_components := [16 \<mapsto> \<lparr>lcp_server = 2\<rparr>] \<rparr>"

theorem log_destroy_session_exact_witness:
  "wp (log_destroy_session (log_dispatch gsim_genode gs_impl 0x400 (\<lambda>_ _ _. [D_Cleanup 0, D_Cleanup 2, D_Cleanup 2])) 16)
     (\<lambda>_ s'. sv_components s' = Map.empty \<and> \<not> Log_Server_Initialized (sv_servers s' 2)) sample_log_session"
proof -
  have ok: "log_service_ok gsim_heap sample_log_session"
    by (auto simp: service_ok_def sample_log_session_def sample_log_service_def gsim_heap_def gsim_init_def
        log_server_new_def log_server_wf_def Log_Server_Initialized_def)
  have i: "Log_Server_Initialized (sv_servers sample_log_session 2)"
    and p: "16 = lsv_component (sv_servers sample_log_session 2)"
    by (simp_all add: sample_log_session_def Log_Server_Initialized_def)
  have c: "(sv_components sample_log_session)(16 := None) = Map.empty"
    by (simp add: sample_log_session_def)
  show ?thesis
    by (rule wp_mono [OF log_destroy_session_exact [OF gsim_code.component_code_axioms ok i p]]) (simp add: c)
qed

lemma store_int_low: "store_int g n AND 0xFFFFFFFF = word_of_int n AND 0xFFFFFFFF"
  by (simp add: store_int_def bit.conj_disj_distrib2 and.assoc)

lemma store_int_high: "store_int g n AND 0xFFFFFFFF00000000 = g AND 0xFFFFFFFF00000000"
  by (simp add: store_int_def bit.conj_disj_distrib2 and.assoc)

lemma uint_low_half:
  assumes "0 \<le> n" "n < 2 ^ 32"
  shows "uint ((word_of_int n :: u64) AND 0xFFFFFFFF) = n"
proof -
  have low: "(0xFFFFFFFF :: u64) = mask 32"
    by (simp add: mask_eq_exp_minus_1)
  have "uint ((word_of_int n :: u64) AND 0xFFFFFFFF) = take_bit 32 n"
    unfolding low take_bit_eq_mask [symmetric] by (simp add: unsigned_take_bit_eq uint_word_of_int_eq)
  with assms show ?thesis by (simp add: take_bit_int_eq_self_iff)
qed

lemma halves: "(r :: u64) = (r AND 0xFFFFFFFF00000000) OR (r AND 0xFFFFFFFF)"
proof -
  have all_ones: "(0xFFFFFFFF00000000 OR 0xFFFFFFFF :: u64) = - 1" by simp
  have "r AND (0xFFFFFFFF00000000 OR 0xFFFFFFFF) = (r AND 0xFFFFFFFF00000000) OR (r AND 0xFFFFFFFF)"
    by (rule bit.conj_disj_distrib)
  then show ?thesis
    unfolding all_ones by (metis and.right_neutral)
qed

text \<open>
  \<open>Log_Component::write\<close> hands the whole string to the component's write callback and
  returns its length in the low 32 bits; the upper 32 bits of the result are those of the
  uninitialized variable, so the result is the length only if they happen to be zero.
\<close>

theorem log_component_write_result:
  "wp (log_component_write I c garbage data) (\<lambda>r w'.
      w' = final (si_write I (lcp_server c) data) w \<and>
      (length data < 2 ^ 32 \<longrightarrow>
        uint (r AND 0xFFFFFFFF) = int (length data) \<and>
        r AND 0xFFFFFFFF00000000 = garbage AND 0xFFFFFFFF00000000 \<and>
        (uint r = int (length data) \<longleftrightarrow> garbage AND 0xFFFFFFFF00000000 = 0))) w"
proof -
  define r where "r = store_int garbage (int (length data))"
  have low: "uint (r AND 0xFFFFFFFF) = int (length data)" if "length data < 2 ^ 32"
    using that uint_low_half [of "int (length data)"] by (simp add: r_def store_int_low)
  have high: "r AND 0xFFFFFFFF00000000 = garbage AND 0xFFFFFFFF00000000"
    by (simp add: r_def store_int_high)
  have "uint r = int (length data) \<longleftrightarrow> garbage AND 0xFFFFFFFF00000000 = 0" if "length data < 2 ^ 32"
  proof
    assume "uint r = int (length data)"
    then have "r = r AND 0xFFFFFFFF"
      using low [OF that] by (metis word_uint_eq_iff)
    then have "r AND 0xFFFFFFFF00000000 = (r AND 0xFFFFFFFF) AND 0xFFFFFFFF00000000" by simp
    with high show "garbage AND 0xFFFFFFFF00000000 = 0" by (simp add: and.assoc)
  next
    assume "garbage AND 0xFFFFFFFF00000000 = 0"
    with high halves [of r] low [OF that] show "uint r = int (length data)" by simp
  qed
  with low high show ?thesis
    by (simp add: log_component_write_def log_genode_write_def wp_run r_def [symmetric] split: prod.splits)
qed

theorem log_component_write_result_witness:
  "uint (result (log_component_write gs_impl \<lparr>lcp_server = 2\<rparr> 0 ''abc'') gsim_init AND 0xFFFFFFFF) = 3"
  using log_component_write_result [of gs_impl "\<lparr>lcp_server = 2\<rparr>" 0 "''abc''" gsim_init]
  by (simp add: wp_run)

end
