(* ===== verification/Genode_Memory_Server.thy ===== *)
theory Genode_Memory_Server
  imports Genode_Root
begin

text \<open>
  The Memory service on Genode: \<open>gneiss_memory_server.cc\<close>, \<open>gneiss_memory_dispatcher.cc\<close> and
  the Ada body \<open>Gneiss.Memory.Dispatcher\<close>. A session component owns a RAM dataspace whose
  address and size its constructor stores in the server object.
\<close>

subsection \<open>Server and session component\<close>

record memory_server =
  msv_component :: addr
  msv_addr :: addr
  msv_size :: int
  msv_index :: "nat option"

record memory_component =
  mcp_server :: nat
  mcp_ds :: u64

record memory_cap =
  mk_session :: addr
  mk_size :: int

type_synonym 'w memory_service = "('w, memory_server, memory_component) service"

definition memory_server_new :: memory_server where
  "memory_server_new = \<lparr> msv_component = null, msv_addr = null, msv_size = 0, msv_index = None \<rparr>"

text \<open>The constructor of \<open>Memory_Component\<close>: the dataspace, its address and its size.\<close>

definition memory_component_ctor :: "'w genode \<Rightarrow> int \<Rightarrow> addr \<Rightarrow> ('w, (addr \<times> u64 \<times> u64) option) state" where
  "memory_component_ctor G sz p = g_ram_dataspace G p (word_of_int sz)"

definition memory_server_component :: "memory_server \<Rightarrow> addr" where
  "memory_server_component srv = msv_component srv"

lemmas memory_objects [simp] = memory_server_component_def

definition memory_server_initialize :: "'w genode \<Rightarrow> nat \<Rightarrow> int \<Rightarrow> ('w memory_service, unit) state" where
  "memory_server_initialize G i sz = do {
     in_world (check_factory G);
     r \<leftarrow> in_world (create2 G ''Gneiss::Memory_Component'' (memory_component_ctor G sz));
     s \<leftarrow> getS;
     case r of None \<Rightarrow> set_server i ((sv_servers s i)\<lparr>msv_component := null\<rparr>)
     | Some (p, a, n, ds) \<Rightarrow> do {
         set_component p (Some \<lparr>mcp_server = i, mcp_ds = ds\<rparr>);
         set_server i ((sv_servers s i)\<lparr>msv_addr := a, msv_size := sint n, msv_component := p\<rparr>)
       }
   }"

definition memory_server_finalize :: "'w genode \<Rightarrow> nat \<Rightarrow> ('w memory_service, unit) state" where
  "memory_server_finalize G i = do {
     s \<leftarrow> getS;
     in_world (destroy G (msv_component (sv_servers s i)));
     set_component (msv_component (sv_servers s i)) None;
     set_server i ((sv_servers s i)\<lparr>msv_component := null, msv_addr := null\<rparr>)
   }"

definition memory_component_dataspace :: "memory_component \<Rightarrow> u64" where
  "memory_component_dataspace c = mcp_ds c"

subsection \<open>Dispatcher\<close>

text \<open>The constructors of \<open>Memory_Dispatcher\<close> and \<open>Memory_Root\<close>.\<close>

definition memory_dispatcher_new :: "'w memory_service \<Rightarrow> 'w memory_service" where
  "memory_dispatcher_new s = s\<lparr>sv_root := null, sv_env := null, sv_index := None, sv_dispatch := null\<rparr>"

definition memory_root_ctor :: "'w genode \<Rightarrow> addr \<Rightarrow> ('w, unit option) state" where
  "memory_root_ctor G p = succeeds (g_root_component G p)"

definition memory_dispatcher_initialize :: "'w genode \<Rightarrow> addr \<Rightarrow> addr \<Rightarrow> ('w memory_service, unit) state" where
  "memory_dispatcher_initialize G env dispatch = do {
     in_world (check_factory G);
     update (\<lambda>s. s\<lparr>sv_dispatch := dispatch, sv_env := env\<rparr>);
     r \<leftarrow> in_world (create2 G ''Gneiss::Memory_Root'' (memory_root_ctor G));
     update (\<lambda>s. s\<lparr>sv_root := ptr r\<rparr>);
     (if ptr r = null then update (\<lambda>s. s\<lparr>sv_dispatch := null, sv_env := null\<rparr>)
      else update (\<lambda>s. s\<lparr>sv_accepted := null\<rparr>))
   }"

definition memory_session_initialize :: "'w genode \<Rightarrow> memory_cap \<Rightarrow> nat \<Rightarrow> ('w memory_service, unit) state" where
  "memory_session_initialize G cap i = memory_server_initialize G i (mk_size cap)"

definition memory_register_service :: "'w genode \<Rightarrow> ('w memory_service, unit) state" where
  "memory_register_service G = do {
     s \<leftarrow> getS;
     in_world (g_announce G (sv_root s))
   }"

definition memory_accept :: "nat \<Rightarrow> ('w memory_service, unit) state" where
  "memory_accept i = update (\<lambda>s. s\<lparr>sv_accepted := memory_server_component (sv_servers s i)\<rparr>)"

definition memory_create_session ::
  "'w genode \<Rightarrow> u64 \<Rightarrow> (memory_cap \<Rightarrow> string \<Rightarrow> string \<Rightarrow> ('w memory_service, unit) state) \<Rightarrow> string \<Rightarrow>
   ('w memory_service, root_error + addr) state" where
  "memory_create_session G sizeof_component dispatch args = do {
     let cap = \<lparr>mk_session = null, mk_size = sint (g_arg_value G args ''memory_size'' 0)\<rparr>;
     let ram_quota = g_arg_value G args ''ram_quota'' 0;
     if ram_quota < max 4096 sizeof_component then do {
       in_world (g_warning G (''Insufficient_ram_quota ('' @ args @ '')''));
       ret (Inl Insufficient_ram_quota)
     } else do {
       update (\<lambda>s. s\<lparr>sv_accepted := null\<rparr>);
       let label = g_label_from_args G args;
       let name = g_label_prefix G label;
       let label = g_label_last_element G label;
       (if 1 < g_label_length G name then dispatch cap name label
        else dispatch cap label name);
       s \<leftarrow> getS;
       if sv_accepted s = null then do {
         in_world (g_warning G (''Service_denied ('' @ args @ '')''));
         ret (Inl Service_denied)
       } else ret (Inr (sv_accepted s))
     }
   }"

definition memory_destroy_session ::
  "(memory_cap \<Rightarrow> string \<Rightarrow> string \<Rightarrow> ('w memory_service, unit) state) \<Rightarrow> addr \<Rightarrow> ('w memory_service, unit) state" where
  "memory_destroy_session dispatch session = dispatch \<lparr>mk_session = session, mk_size = 0\<rparr> [] []"

subsection \<open>\<open>Gneiss.Memory.Dispatcher\<close>\<close>

definition Memory_Server_Initialized :: "memory_server \<Rightarrow> bool" where
  "Memory_Server_Initialized srv \<longleftrightarrow> msv_component srv \<noteq> null \<and> msv_addr srv \<noteq> null \<and> msv_index srv \<noteq> None"

definition Memory_Dispatcher_Initialized :: "'w memory_service \<Rightarrow> bool" where
  "Memory_Dispatcher_Initialized s \<longleftrightarrow> sv_root s \<noteq> null \<and> sv_env s \<noteq> null \<and> sv_dispatch s \<noteq> null \<and> sv_index s \<noteq> None"

definition Memory_Dispatcher_Initialize :: "'w genode \<Rightarrow> addr \<Rightarrow> addr \<Rightarrow> nat \<Rightarrow> ('w memory_service, unit) state" where
  "Memory_Dispatcher_Initialize G env dispatch idx = do {
     memory_dispatcher_initialize G env dispatch;
     s \<leftarrow> getS;
     whenM (sv_root s \<noteq> null \<and> sv_dispatch s \<noteq> null \<and> sv_env s \<noteq> null)
       (update (\<lambda>s. s\<lparr>sv_index := Some idx\<rparr>))
   }"

definition memory_set_index :: "nat \<Rightarrow> nat option \<Rightarrow> ('w memory_service, unit) state" where
  "memory_set_index i x = do {
     s \<leftarrow> getS;
     set_server i ((sv_servers s i)\<lparr>msv_index := x\<rparr>)
   }"

definition Memory_Session_Initialize ::
  "'w genode \<Rightarrow> 'w server_impl \<Rightarrow> memory_cap \<Rightarrow> nat \<Rightarrow> nat \<Rightarrow> ('w memory_service, unit) state" where
  "Memory_Session_Initialize G I cap i idx = do {
     memory_session_initialize G cap i;
     memory_set_index i (Some idx);
     s \<leftarrow> getS;
     if \<not> Memory_Dispatcher_Initialized s then ret ()
     else do {
       in_world (si_initialize I i);
       s \<leftarrow> getS;
       whenM (\<not> si_ready I i (sv_world s)) (do {
         memory_server_finalize G i;
         memory_set_index i None
       })
     }
   }"

definition Memory_Session_Accept :: "nat \<Rightarrow> ('w memory_service, unit) state" where
  "Memory_Session_Accept i = memory_accept i"

definition Memory_Session_Cleanup ::
  "'w genode \<Rightarrow> 'w server_impl \<Rightarrow> memory_cap \<Rightarrow> nat \<Rightarrow> ('w memory_service, unit) state" where
  "Memory_Session_Cleanup G I cap i = do {
     s \<leftarrow> getS;
     if Memory_Server_Initialized (sv_servers s i) \<and> mk_session cap = msv_component (sv_servers s i)
     then do {
       in_world (si_finalize I i);
       memory_server_finalize G i
     } else ret ()
   }"

definition memory_dispatch ::
  "'w genode \<Rightarrow> 'w server_impl \<Rightarrow> (memory_cap \<Rightarrow> string \<Rightarrow> string \<Rightarrow> dispatch_op list) \<Rightarrow>
   memory_cap \<Rightarrow> string \<Rightarrow> string \<Rightarrow> ('w memory_service, unit) state" where
  "memory_dispatch G I D cap name label =
     run_dispatch Memory_Server_Initialized (Memory_Session_Initialize G I cap) Memory_Session_Accept
       (Memory_Session_Cleanup G I cap) (mk_session cap = null) (D cap name label)"

subsection \<open>The service keeps its contract\<close>

text \<open>A memory server that has a component is initialized.\<close>

definition memory_server_wf :: "memory_server \<Rightarrow> bool" where
  "memory_server_wf srv \<longleftrightarrow> (msv_component srv \<noteq> null \<longrightarrow> Memory_Server_Initialized srv)"

abbreviation memory_service_ok :: "('w \<Rightarrow> addr set option) \<Rightarrow> 'w memory_service \<Rightarrow> bool" where
  "memory_service_ok fheap \<equiv> service_ok fheap memory_server_wf Memory_Server_Initialized msv_component mcp_server"

lemmas memory_srv_defs = Memory_Server_Initialized_def memory_server_wf_def frame_def

context component_code
begin

lemma memory_finalize_ok:
  assumes "memory_service_ok fheap s" "Memory_Server_Initialized (sv_servers s i)"
  shows "wp (memory_server_finalize G i) (\<lambda>_ s'. memory_service_ok fheap s' \<and> frame i s s' \<and>
      \<not> Memory_Server_Initialized (sv_servers s' i) \<and>
      sv_components s' = (sv_components s)(msv_component (sv_servers s i) := None) \<and>
      msv_component (sv_servers s i) \<notin> objects (fheap (sv_world s'))) s"
proof -
  from assms(1) obtain H where H: "fheap (sv_world s) = Some H" "null \<notin> H"
    by (auto simp: service_ok_def)
  show ?thesis
    unfolding memory_server_finalize_def wp_simps
    by (rule wp_destroy [OF H(1)])
      (auto simp: memory_srv_defs intro!: service_ok_detach [OF assms H(1)])
qed

lemma memory_finalize_any:
  assumes "memory_service_ok fheap s"
  shows "steps (\<lambda>s. memory_service_ok fheap s \<and> \<not> Memory_Server_Initialized (sv_servers s i)) i
    (memory_server_finalize G i) s"
proof (cases "Memory_Server_Initialized (sv_servers s i)")
  case True
  from memory_finalize_ok [OF assms True] show ?thesis
    unfolding steps_def by (rule wp_mono) auto
next
  case False
  from assms obtain H where H: "fheap (sv_world s) = Some H" "null \<notin> H" "dom (sv_components s) \<subseteq> H"
    by (auto simp: service_ok_def)
  have "msv_component (sv_servers s i) = null"
    using assms False by (auto simp: service_ok_def memory_server_wf_def)
  moreover have "(sv_components s)(null := None) = sv_components s"
    using H by (intro fun_upd_idem) (auto simp: domIff [symmetric])
  ultimately show ?thesis
    unfolding memory_server_finalize_def wp_simps steps_def
    by (intro wp_destroy [OF H(1)])
      (use H in \<open>auto simp: memory_srv_defs intro!: service_ok_idle [OF assms]\<close>)
qed

lemma memory_drop_index_ok:
  assumes "memory_service_ok fheap s" "\<not> Memory_Server_Initialized (sv_servers s i)"
  shows "steps (memory_service_ok fheap) i (memory_set_index i None) s"
  unfolding steps_def memory_set_index_def wp_simps
  using assms by (auto simp: memory_srv_defs service_ok_def)

lemma memory_unready_ok:
  "memory_service_ok fheap s \<Longrightarrow>
   steps (memory_service_ok fheap) i (do { memory_server_finalize G i; memory_set_index i None }) s"
  by (rule steps_seq [OF memory_finalize_any]) (simp_all add: memory_drop_index_ok)

lemma memory_session_initialize_ok:
  assumes "memory_service_ok fheap s" "\<not> Memory_Server_Initialized (sv_servers s i)"
  shows "steps (memory_service_ok fheap) i
    (do { memory_session_initialize G cap i; memory_set_index i (Some idx) }) s"
proof -
  from assms(1) obtain H where H: "fheap (sv_world s) = Some H" "null \<notin> H"
    by (auto simp: service_ok_def)
  show ?thesis
    unfolding memory_session_initialize_def memory_server_initialize_def memory_set_index_def steps_def wp_simps
  proof (rule wp_check_factory, goal_cases)
    case (1 w)
    with H have hw: "fheap w = Some H" by simp
    show ?case
    proof (simp, rule wp_create2_val [OF hw, where R = "\<lambda>(a, _, _). a \<noteq> null"], goal_cases)
      case (1 p)
      show ?case unfolding memory_component_ctor_def by (intro keeps_intros)
    next
      case (2 p w a)
      then show ?case
        by (auto simp: memory_component_ctor_def dest: ram_dataspace_addr split: prod.splits)
    next
      case (3 w')
      with H show ?case
        by (auto simp: memory_srv_defs intro!: service_ok_idle [OF assms(1)])
    next
      case (4 p u w')
      then show ?case
        by (cases u) (auto simp: memory_srv_defs intro!: service_ok_attach [OF assms(1) H(1), where p = p and i = i])
    qed
  qed
qed

lemma Memory_Session_Initialize_ok:
  assumes "memory_service_ok fheap s" "\<not> Memory_Server_Initialized (sv_servers s i)"
  shows "steps (memory_service_ok fheap) i (Memory_Session_Initialize G I k i idx) s"
  unfolding Memory_Session_Initialize_def
  by (rule steps_bind [OF memory_session_initialize_ok [OF assms], unfolded State_Monad.bind_assoc],
      rule steps_get, rule steps_if,
      intro steps_return, assumption,
      intro steps_get steps_bind steps_whenM steps_grows initialize_grows memory_unready_ok)

lemma Memory_Session_Cleanup_ok:
  assumes "memory_service_ok fheap s" "Memory_Server_Initialized (sv_servers s i)"
    and "mk_session k = msv_component (sv_servers s i)"
  shows "wp (Memory_Session_Cleanup G I k i) (\<lambda>_ s'. memory_service_ok fheap s' \<and> frame i s s' \<and>
      \<not> Memory_Server_Initialized (sv_servers s' i) \<and> sv_components s' = (sv_components s)(mk_session k := None) \<and>
      mk_session k \<notin> objects (fheap (sv_world s'))) s"
proof -
  have "wp (in_world (si_finalize I i)) (\<lambda>_ s'. \<exists>w. s' = s\<lparr>sv_world := w\<rparr> \<and> memory_service_ok fheap s') s"
    by (rule in_world_grows [OF assms(1) finalize_grows])
  then have "wp (do { in_world (si_finalize I i); memory_server_finalize G i })
      (\<lambda>_ s'. memory_service_ok fheap s' \<and> frame i s s' \<and>
      \<not> Memory_Server_Initialized (sv_servers s' i) \<and> sv_components s' = (sv_components s)(mk_session k := None) \<and>
      mk_session k \<notin> objects (fheap (sv_world s'))) s"
    unfolding wp_bind
  proof (rule wp_mono, goal_cases)
    case (1 u s1)
    then obtain w where w: "s1 = s\<lparr>sv_world := w\<rparr>" "memory_service_ok fheap s1" by blast
    then have "Memory_Server_Initialized (sv_servers s1 i)" using assms(2) by simp
    from memory_finalize_ok [OF w(2) this] show ?case
      by (rule wp_mono) (auto simp: w(1) assms(3) frame_def)
  qed
  then show ?thesis
    using assms(2,3) by (simp add: Memory_Session_Cleanup_def wp_simps)
qed

end

sublocale component_code \<subseteq> mem_srv: session_server G fheap memory_server_wf Memory_Server_Initialized
  msv_component mcp_server mk_session "Memory_Session_Initialize G I" Memory_Session_Accept "Memory_Session_Cleanup G I"
proof unfold_locales
  fix s i k idx
  assume "memory_service_ok fheap s" "\<not> Memory_Server_Initialized (sv_servers s i)"
  then show "wp (Memory_Session_Initialize G I k i idx) (\<lambda>_ s'. memory_service_ok fheap s' \<and> frame i s s') s"
    using Memory_Session_Initialize_ok by (simp add: steps_def)
next
  fix s i and k :: memory_cap
  assume "memory_service_ok fheap s" "Memory_Server_Initialized (sv_servers s i)"
    "mk_session k = msv_component (sv_servers s i)"
  then show "wp (Memory_Session_Cleanup G I k i) (\<lambda>_ s'. memory_service_ok fheap s' \<and> frame i s s' \<and>
        \<not> Memory_Server_Initialized (sv_servers s' i) \<and> sv_components s' = (sv_components s)(mk_session k := None) \<and>
        mk_session k \<notin> objects (fheap (sv_world s'))) s"
    by (rule Memory_Session_Cleanup_ok)
qed (auto simp: Memory_Session_Accept_def memory_accept_def Memory_Session_Cleanup_def wp_simps)

lemma memory_create_session_eq:
  "memory_create_session G sz dispatch args = create_session_shape G sz dispatch
     \<lparr>mk_session = null, mk_size = sint (g_arg_value G args ''memory_size'' 0)\<rparr> args"
  by (simp add: memory_create_session_def create_session_shape_def Let_def)

context component_code
begin

lemma memory_create:
  "memory_service_ok fheap s \<Longrightarrow> wp (memory_create_session G sz (memory_dispatch G I D) args) (\<lambda>r s'.
     mem_srv.created r s' \<and> (r = Inl Insufficient_ram_quota \<longleftrightarrow> g_arg_value G args ''ram_quota'' 0 < max 4096 sz)) s"
  unfolding memory_create_session_eq memory_dispatch_def [abs_def]
  by (rule wp_and [OF mem_srv.create_created create_quota]) simp_all

lemmas memory_disconnect = mem_srv.run_disconnect
lemmas memory_created_def = mem_srv.created_def
lemmas memory_disconnected_def = mem_srv.disconnected_def

end

subsection \<open>Properties\<close>

text \<open>
  C36. A Memory session request on Genode is answered soundly: quota errors exactly below
  the minimum, otherwise a denial or a live component of an initialized server whose
  address is the mapping of the dataspace; the invariant is kept on every path.
\<close>

theorem memory_create_session_sound:
  assumes "component_code G fheap cb I" and "memory_service_ok fheap s"
  shows "wp (memory_create_session G sz (memory_dispatch G I D) args) (\<lambda>r s'.
      memory_service_ok fheap s' \<and>
      (r = Inl Insufficient_ram_quota \<longleftrightarrow> g_arg_value G args ''ram_quota'' 0 < max 4096 sz) \<and>
      (\<forall>p. r = Inr p \<longrightarrow> p \<in> objects (fheap (sv_world s')) \<and>
         (\<exists>i. Memory_Server_Initialized (sv_servers s' i) \<and> msv_component (sv_servers s' i) = p \<and>
              map_option mcp_server (sv_components s' p) = Some i))) s"
  using component_code.memory_create [OF assms]
  by (rule wp_mono) (auto simp: component_code.memory_created_def [OF assms(1)])

definition sample_memory_service :: "gsim memory_service" where
  "sample_memory_service = \<lparr> sv_world = gsim_init\<lparr>gs_up := True\<rparr>, sv_root = 0x100, sv_env = 0x200, sv_index = Some 1,
     sv_dispatch = 0x300, sv_accepted = 0x999, sv_servers = (\<lambda>_. memory_server_new), sv_components = (\<lambda>_. None) \<rparr>"

lemma sample_memory_service_ok: "memory_service_ok gsim_heap sample_memory_service"
  by (simp add: service_ok_def sample_memory_service_def gsim_heap_def gsim_init_def memory_server_new_def
      memory_server_wf_def Memory_Server_Initialized_def)

theorem memory_create_session_sound_witness:
  "result (memory_create_session gsim_genode 64 (memory_dispatch gsim_genode gs_impl
       (\<lambda>_ _ _. [D_Initialize 0 1, D_Accept 0])) ''init>mem'') sample_memory_service = Inr 16 \<and>
   wp (memory_create_session gsim_genode 64 (memory_dispatch gsim_genode gs_impl
       (\<lambda>_ _ _. [D_Initialize 0 1, D_Accept 0])) ''init>mem'') (\<lambda>r s'.
      memory_service_ok gsim_heap s' \<and>
      (r = Inl Insufficient_ram_quota \<longleftrightarrow> g_arg_value gsim_genode ''init>mem'' ''ram_quota'' 0 < max 4096 64) \<and>
      (\<forall>p. r = Inr p \<longrightarrow> p \<in> objects (gsim_heap (sv_world s')) \<and>
         (\<exists>i. Memory_Server_Initialized (sv_servers s' i) \<and> msv_component (sv_servers s' i) = p \<and>
              map_option mcp_server (sv_components s' p) = Some i))) sample_memory_service"
proof (rule conjI)
  show "result (memory_create_session gsim_genode 64 (memory_dispatch gsim_genode gs_impl
       (\<lambda>_ _ _. [D_Initialize 0 1, D_Accept 0])) ''init>mem'') sample_memory_service = Inr 16"
    by code_simp
qed (rule memory_create_session_sound [OF gsim_code.component_code_axioms sample_memory_service_ok])

end
