(* ===== verification/Genode_Message_Server.thy ===== *)
theory Genode_Message_Server
  imports Genode_Root
begin

text \<open>
  The Message service on Genode: \<open>gneiss_message_server.cc\<close>, \<open>gneiss_message_dispatcher.cc\<close>
  and the Ada bodies \<open>Gneiss.Message.Dispatcher\<close> and \<open>Gneiss.Message.Server\<close>. Messages from
  the server to the client wait in a queue of ten buffers in the server object; the queue is
  \<open>Basalt.Queue\<close>, which is not part of the repository: the parameter \<open>B\<close>, with its
  documented behaviour in the locale \<open>basalt_queue\<close>.
\<close>

subsection \<open>The queue\<close>

record 'q queue_ops =
  q_count :: "'q \<Rightarrow> nat"
  q_size :: "'q \<Rightarrow> nat"
  q_put :: "'q \<Rightarrow> bytes \<Rightarrow> 'q"
  q_pop :: "'q \<Rightarrow> bytes \<times> 'q"

locale basalt_queue =
  fixes B :: "'q queue_ops"
    and elems :: "'q \<Rightarrow> bytes list"
    and capacity :: nat
  assumes count_law: "q_count B q = length (elems q)"
    and size_law: "q_size B q = capacity"
    and put_law: "length (elems q) < capacity \<Longrightarrow> elems (q_put B q x) = elems q @ [x]"
    and pop_law: "elems q = x # xs \<Longrightarrow> \<exists>q'. q_pop B q = (x, q') \<and> elems q' = xs"

subsection \<open>Server and session component\<close>

record 'q message_server =
  gsv_component :: addr
  gsv_index :: "nat option"
  gsv_cache :: 'q

record message_component =
  gcp_server :: nat
  gcp_signal :: u64
  gcp_buffer :: bytes

type_synonym ('w, 'q) message_service = "('w, 'q message_server, message_component) service"

definition message_component_new :: "nat \<Rightarrow> message_component" where
  "message_component_new i = \<lparr> gcp_server = i, gcp_signal = 0, gcp_buffer = replicate 128 0 \<rparr>"

text \<open>The constructor; \<open>cache0\<close> is the value-initialized queue.\<close>

definition message_server_new :: "'q \<Rightarrow> 'q message_server" where
  "message_server_new cache0 = \<lparr> gsv_component = null, gsv_index = None, gsv_cache = cache0 \<rparr>"

definition message_server_component :: "'q message_server \<Rightarrow> addr" where
  "message_server_component srv = gsv_component srv"

lemmas message_objects [simp] = message_server_component_def

definition message_server_initialize :: "'w genode \<Rightarrow> nat \<Rightarrow> (('w, 'q) message_service, unit) state" where
  "message_server_initialize G i = do {
     in_world (check_factory G);
     r \<leftarrow> in_world (create2 G ''Gneiss::Message_Component'' (\<lambda>p. ret (Some ())));
     (if ptr r = null then ret () else set_component (ptr r) (Some (message_component_new i)));
     s \<leftarrow> getS;
     set_server i ((sv_servers s i)\<lparr>gsv_component := ptr r\<rparr>)
   }"

text \<open>\<open>finalize\<close> destroys the component and leaves the pointer.\<close>

definition message_server_finalize :: "'w genode \<Rightarrow> nat \<Rightarrow> (('w, 'q) message_service, unit) state" where
  "message_server_finalize G i = do {
     s \<leftarrow> getS;
     in_world (destroy G (gsv_component (sv_servers s i)));
     set_component (gsv_component (sv_servers s i)) None
   }"

text \<open>The methods of \<open>Message_Component\<close>; an access to a destroyed component is \<open>None\<close>.\<close>

definition message_component_sigh :: "addr \<Rightarrow> u64 \<Rightarrow> (('w, 'q) message_service, bool) state" where
  "message_component_sigh p sig = do {
     s \<leftarrow> getS;
     case sv_components s p of None \<Rightarrow> ret False
     | Some c \<Rightarrow> do { set_component p (Some (c\<lparr>gcp_signal := sig\<rparr>)); ret True }
   }"

definition message_component_signal :: "'w genode \<Rightarrow> message_component \<Rightarrow> ('w, unit) state" where
  "message_component_signal G c = whenM (g_signal_valid G (gcp_signal c)) (g_submit G (gcp_signal c))"

definition message_server_send_signal :: "'w genode \<Rightarrow> nat \<Rightarrow> (('w, 'q) message_service, bool) state" where
  "message_server_send_signal G i = do {
     s \<leftarrow> getS;
     case sv_components s (gsv_component (sv_servers s i)) of None \<Rightarrow> ret False
     | Some c \<Rightarrow> do { in_world (message_component_signal G c); ret True }
   }"

text \<open>
  \<open>recv\<close> is the component's \<open>Receive\<close> procedure, which may itself call \<open>Send\<close> on the server.
\<close>

definition message_component_write ::
  "(nat \<Rightarrow> bytes \<Rightarrow> (('w, 'q) message_service, unit) state) \<Rightarrow> addr \<Rightarrow> bytes \<Rightarrow> (('w, 'q) message_service, bool) state" where
  "message_component_write recv p buf = do {
     s \<leftarrow> getS;
     case sv_components s p of None \<Rightarrow> ret False
     | Some c \<Rightarrow> do { recv (gcp_server c) buf; ret True }
   }"

text \<open>\<open>Get\<close> and \<open>Avail\<close> of \<open>Gneiss.Message.Dispatcher\<close>, called by \<open>read\<close> and \<open>avail\<close>.\<close>

definition Message_Get :: "'q queue_ops \<Rightarrow> nat \<Rightarrow> (('w, 'q) message_service, bytes) state" where
  "Message_Get B i = do {
     s \<leftarrow> getS;
     (let (x, q) = q_pop B (gsv_cache (sv_servers s i)) in do {
        set_server i ((sv_servers s i)\<lparr>gsv_cache := q\<rparr>);
        ret x
      })
   }"

definition Message_Avail :: "'q queue_ops \<Rightarrow> 'q message_server \<Rightarrow> int" where
  "Message_Avail B srv = of_bool (0 < q_count B (gsv_cache srv))"

definition message_component_read :: "'q queue_ops \<Rightarrow> addr \<Rightarrow> (('w, 'q) message_service, bytes option) state" where
  "message_component_read B p = do {
     s \<leftarrow> getS;
     case sv_components s p of None \<Rightarrow> ret None
     | Some c \<Rightarrow> do {
         x \<leftarrow> Message_Get B (gcp_server c);
         set_component p (Some (c\<lparr>gcp_buffer := x\<rparr>));
         ret (Some x)
       }
   }"

definition message_component_avail :: "'q queue_ops \<Rightarrow> addr \<Rightarrow> (('w, 'q) message_service, bool option) state" where
  "message_component_avail B p = do {
     s \<leftarrow> getS;
     ret (map_option (\<lambda>c. Message_Avail B (sv_servers s (gcp_server c)) \<noteq> 0) (sv_components s p))
   }"

text \<open>\<open>Gneiss.Message.Server.Send\<close>: a message for a full queue is dropped silently.\<close>

definition Message_Send :: "'w genode \<Rightarrow> 'q queue_ops \<Rightarrow> nat \<Rightarrow> bytes \<Rightarrow> (('w, 'q) message_service, unit) state" where
  "Message_Send G B i data = do {
     s \<leftarrow> getS;
     let q = gsv_cache (sv_servers s i);
     whenM (q_count B q < q_size B q) (do {
       set_server i ((sv_servers s i)\<lparr>gsv_cache := q_put B q data\<rparr>);
       message_server_send_signal G i;
       ret ()
     })
   }"

subsection \<open>Dispatcher\<close>

text \<open>The constructors of \<open>Message_Dispatcher\<close> and \<open>Message_Root\<close>.\<close>

definition message_dispatcher_new :: "('w, 'q) message_service \<Rightarrow> ('w, 'q) message_service" where
  "message_dispatcher_new s = s\<lparr>sv_root := null, sv_dispatch := null, sv_env := null, sv_index := None\<rparr>"

definition message_root_ctor :: "'w genode \<Rightarrow> addr \<Rightarrow> ('w, unit option) state" where
  "message_root_ctor G p = succeeds (g_root_component G p)"

definition message_dispatcher_initialize :: "'w genode \<Rightarrow> addr \<Rightarrow> (('w, 'q) message_service, unit) state" where
  "message_dispatcher_initialize G env = do {
     in_world (check_factory G);
     update (\<lambda>s. s\<lparr>sv_env := env\<rparr>);
     r \<leftarrow> in_world (create2 G ''Gneiss::Message_Root'' (message_root_ctor G));
     update (\<lambda>s. s\<lparr>sv_root := ptr r\<rparr>);
     (if ptr r = null then update (\<lambda>s. s\<lparr>sv_env := null\<rparr>)
      else update (\<lambda>s. s\<lparr>sv_accepted := null\<rparr>))
   }"

definition message_session_initialize :: "'w genode \<Rightarrow> nat \<Rightarrow> (('w, 'q) message_service, unit) state" where
  "message_session_initialize G i = message_server_initialize G i"

definition message_register_service :: "'w genode \<Rightarrow> (('w, 'q) message_service, unit) state" where
  "message_register_service G = do {
     s \<leftarrow> getS;
     in_world (g_announce G (sv_root s))
   }"

definition message_accept :: "nat \<Rightarrow> (('w, 'q) message_service, unit) state" where
  "message_accept i = update (\<lambda>s. s\<lparr>sv_accepted := message_server_component (sv_servers s i)\<rparr>)"

definition message_create_session ::
  "'w genode \<Rightarrow> u64 \<Rightarrow> (addr \<Rightarrow> string \<Rightarrow> string \<Rightarrow> (('w, 'q) message_service, unit) state) \<Rightarrow> string \<Rightarrow>
   (('w, 'q) message_service, root_error + addr) state" where
  "message_create_session G sizeof_component dispatch args = do {
     let cap = null;
     let ram_quota = g_arg_value G args ''ram_quota'' 0;
     if ram_quota < max 4096 sizeof_component then do {
       in_world (g_warning G (''Insufficient_ram_quota ('' @ args @ '')''));
       ret (Inl Insufficient_ram_quota)
     } else do {
       update (\<lambda>s. s\<lparr>sv_accepted := null\<rparr>);
       let label = g_label_from_args G args;
       let name = g_label_prefix G label;
       let label = g_label_last_element G label;
       (if 1 < g_label_length G name then dispatch cap name label
        else dispatch cap label name);
       s \<leftarrow> getS;
       if sv_accepted s = null then do {
         in_world (g_warning G (''Service_denied ('' @ args @ '')''));
         ret (Inl Service_denied)
       } else ret (Inr (sv_accepted s))
     }
   }"

definition message_destroy_session ::
  "(addr \<Rightarrow> string \<Rightarrow> string \<Rightarrow> (('w, 'q) message_service, unit) state) \<Rightarrow> addr \<Rightarrow> (('w, 'q) message_service, unit) state" where
  "message_destroy_session dispatch session = dispatch session [] []"

subsection \<open>\<open>Gneiss.Message.Dispatcher\<close>\<close>

definition Message_Server_Initialized :: "'q message_server \<Rightarrow> bool" where
  "Message_Server_Initialized srv \<longleftrightarrow> gsv_component srv \<noteq> null \<and> gsv_index srv \<noteq> None"

definition Message_Dispatcher_Initialized :: "('w, 'q) message_service \<Rightarrow> bool" where
  "Message_Dispatcher_Initialized s \<longleftrightarrow> sv_root s \<noteq> null \<and> sv_env s \<noteq> null \<and> sv_dispatch s \<noteq> null \<and> sv_index s \<noteq> None"

definition Message_Dispatcher_Initialize :: "'w genode \<Rightarrow> addr \<Rightarrow> addr \<Rightarrow> nat \<Rightarrow> (('w, 'q) message_service, unit) state" where
  "Message_Dispatcher_Initialize G env dispatch idx = do {
     update (\<lambda>s. s\<lparr>sv_index := Some idx, sv_dispatch := dispatch\<rparr>);
     message_dispatcher_initialize G env;
     s \<leftarrow> getS;
     whenM (sv_env s = null \<or> sv_dispatch s = null) (update (\<lambda>s. s\<lparr>sv_index := None\<rparr>))
   }"

definition Message_Register :: "'w genode \<Rightarrow> (('w, 'q) message_service, unit) state" where
  "Message_Register G = message_register_service G"

definition Message_Valid_Session_Request :: "addr \<Rightarrow> bool" where
  "Message_Valid_Session_Request cap \<longleftrightarrow> cap = null"

definition message_set_index :: "nat \<Rightarrow> nat option \<Rightarrow> (('w, 'q) message_service, unit) state" where
  "message_set_index i x = do {
     s \<leftarrow> getS;
     set_server i ((sv_servers s i)\<lparr>gsv_index := x\<rparr>)
   }"

definition Message_Session_Initialize ::
  "'w genode \<Rightarrow> 'w server_impl \<Rightarrow> addr \<Rightarrow> nat \<Rightarrow> nat \<Rightarrow> (('w, 'q) message_service, unit) state" where
  "Message_Session_Initialize G I cap i idx = do {
     message_session_initialize G i;
     s \<leftarrow> getS;
     whenM (gsv_component (sv_servers s i) \<noteq> null) (do {
       message_set_index i (Some idx);
       in_world (si_initialize I i);
       s \<leftarrow> getS;
       whenM (\<not> si_ready I i (sv_world s)) (do {
         message_server_finalize G i;
         message_set_index i None
       })
     })
   }"

definition Message_Session_Accept :: "nat \<Rightarrow> (('w, 'q) message_service, unit) state" where
  "Message_Session_Accept i = message_accept i"

definition Message_Session_Cleanup ::
  "'w genode \<Rightarrow> 'w server_impl \<Rightarrow> addr \<Rightarrow> nat \<Rightarrow> (('w, 'q) message_service, unit) state" where
  "Message_Session_Cleanup G I cap i = do {
     s \<leftarrow> getS;
     if Message_Server_Initialized (sv_servers s i) \<and> cap = gsv_component (sv_servers s i)
     then do {
       in_world (si_finalize I i);
       message_server_finalize G i;
       message_set_index i None
     } else ret ()
   }"

definition message_dispatch ::
  "'w genode \<Rightarrow> 'w server_impl \<Rightarrow> (addr \<Rightarrow> string \<Rightarrow> string \<Rightarrow> dispatch_op list) \<Rightarrow>
   addr \<Rightarrow> string \<Rightarrow> string \<Rightarrow> (('w, 'q) message_service, unit) state" where
  "message_dispatch G I D cap name label =
     run_dispatch Message_Server_Initialized (Message_Session_Initialize G I cap) Message_Session_Accept
       (Message_Session_Cleanup G I cap) (Message_Valid_Session_Request cap) (D cap name label)"

subsection \<open>The service keeps its contract\<close>

abbreviation message_service_ok :: "('w \<Rightarrow> addr set option) \<Rightarrow> ('w, 'q) message_service \<Rightarrow> bool" where
  "message_service_ok fheap \<equiv> service_ok fheap (\<lambda>_. True) Message_Server_Initialized gsv_component gcp_server"

lemmas message_srv_defs = Message_Server_Initialized_def frame_def

context component_code
begin

lemma message_finalize_ok:
  assumes "message_service_ok fheap s" "Message_Server_Initialized (sv_servers s i)"
  shows "wp (do { message_server_finalize G i; message_set_index i None }) (\<lambda>_ s'.
      message_service_ok fheap s' \<and> frame i s s' \<and> \<not> Message_Server_Initialized (sv_servers s' i) \<and>
      sv_components s' = (sv_components s)(gsv_component (sv_servers s i) := None) \<and>
      gsv_component (sv_servers s i) \<notin> objects (fheap (sv_world s'))) s"
proof -
  from assms(1) obtain H where H: "fheap (sv_world s) = Some H" "null \<notin> H"
    by (auto simp: service_ok_def)
  show ?thesis
    unfolding message_server_finalize_def message_set_index_def wp_simps
    by (rule wp_destroy [OF H(1)])
      (auto simp: message_srv_defs intro!: service_ok_detach [OF assms H(1)])
qed

text \<open>The part of \<open>Session_Initialize\<close> before component code runs.\<close>

lemma message_session_initialize_ok:
  assumes "message_service_ok fheap s" "\<not> Message_Server_Initialized (sv_servers s i)"
  shows "wp (message_session_initialize G i) (\<lambda>_ s'. frame i s s' \<and>
     (if gsv_component (sv_servers s' i) = null then message_service_ok fheap s'
      else \<forall>x. message_service_ok fheap (s'\<lparr>sv_servers := (sv_servers s')(i := (sv_servers s' i)\<lparr>gsv_index := x\<rparr>)\<rparr>))) s"
proof -
  from assms(1) obtain H where H: "fheap (sv_world s) = Some H" "null \<notin> H"
    by (auto simp: service_ok_def)
  show ?thesis
    unfolding message_session_initialize_def message_server_initialize_def wp_simps
  proof (rule wp_check_factory, goal_cases)
    case (1 w)
    with H have hw: "fheap w = Some H" by simp
    show ?case
    proof (simp, rule wp_create2 [OF hw], goal_cases)
      case (1 p)
      show ?case by (intro keeps_intros)
    next
      case (2 w')
      with H show ?case
        by (auto simp: message_srv_defs intro!: service_ok_idle [OF assms(1)])
    next
      case (3 p u w')
      then show ?case
        by (auto simp: message_srv_defs message_component_new_def
            intro!: service_ok_attach [OF assms(1) H(1), where p = p and i = i])
    qed
  qed
qed

lemma message_ready_ok:
  assumes "message_service_ok fheap s" "Message_Server_Initialized (sv_servers s i)"
  shows "steps (message_service_ok fheap) i (do {
       in_world (si_initialize I i);
       s \<leftarrow> getS;
       whenM (\<not> si_ready I i (sv_world s)) (do { message_server_finalize G i; message_set_index i None })
     }) s"
proof (rule steps_seq [where R = "\<lambda>s. message_service_ok fheap s \<and> Message_Server_Initialized (sv_servers s i)"])
  show "steps (\<lambda>s. message_service_ok fheap s \<and> Message_Server_Initialized (sv_servers s i)) i
      (in_world (si_initialize I i)) s"
    unfolding steps_def
    by (rule wp_mono [OF in_world_grows [OF assms(1) initialize_grows]]) (use assms(2) in auto)
next
  fix s' assume s': "message_service_ok fheap s' \<and> Message_Server_Initialized (sv_servers s' i)"
  then have "steps (message_service_ok fheap) i (do { message_server_finalize G i; message_set_index i None }) s'"
    unfolding steps_def by (intro wp_mono [OF message_finalize_ok]) auto
  with s' show "steps (message_service_ok fheap) i (do { s \<leftarrow> getS;
       whenM (\<not> si_ready I i (sv_world s)) (do { message_server_finalize G i; message_set_index i None }) }) s'"
    by (intro steps_get steps_whenM) auto
qed

lemma Message_Session_Initialize_ok:
  assumes "message_service_ok fheap s" "\<not> Message_Server_Initialized (sv_servers s i)"
  shows "steps (message_service_ok fheap) i (Message_Session_Initialize G I k i idx) s"
  unfolding steps_def Message_Session_Initialize_def wp_bind [of "message_session_initialize _ _"]
proof (rule wp_mono [OF message_session_initialize_ok [OF assms]], goal_cases)
  case (1 u s1)
  show ?case
  proof (cases "gsv_component (sv_servers s1 i) = null")
    case True
    with 1 show ?thesis by (simp add: wp_simps)
  next
    case False
    let ?s = "s1\<lparr>sv_servers := (sv_servers s1)(i := (sv_servers s1 i)\<lparr>gsv_index := Some idx\<rparr>)\<rparr>"
    have ok: "message_service_ok fheap ?s" "Message_Server_Initialized (sv_servers ?s i)"
      using 1 False by (auto simp: Message_Server_Initialized_def)
    have fr: "frame i s ?s" using 1 by (simp add: frame_def)
    have "wp (do {
         in_world (si_initialize I i);
         s \<leftarrow> getS;
         whenM (\<not> si_ready I i (sv_world s)) (do { message_server_finalize G i; message_set_index i None })
       }) (\<lambda>_ s'. message_service_ok fheap s' \<and> frame i s s') ?s"
      by (rule wp_mono [OF message_ready_ok [OF ok, unfolded steps_def]]) (use fr frame_trans in blast)
    with False show ?thesis
      by (simp add: wp_simps message_set_index_def)
  qed
qed

lemma Message_Session_Cleanup_ok:
  assumes "message_service_ok fheap s" "Message_Server_Initialized (sv_servers s i)"
    and "k = gsv_component (sv_servers s i)"
  shows "wp (Message_Session_Cleanup G I k i) (\<lambda>_ s'. message_service_ok fheap s' \<and> frame i s s' \<and>
      \<not> Message_Server_Initialized (sv_servers s' i) \<and> sv_components s' = (sv_components s)(k := None) \<and>
      k \<notin> objects (fheap (sv_world s'))) s"
proof -
  have "wp (in_world (si_finalize I i)) (\<lambda>_ s'. \<exists>w. s' = s\<lparr>sv_world := w\<rparr> \<and> message_service_ok fheap s') s"
    by (rule in_world_grows [OF assms(1) finalize_grows])
  then have "wp (do { in_world (si_finalize I i); message_server_finalize G i; message_set_index i None })
      (\<lambda>_ s'. message_service_ok fheap s' \<and> frame i s s' \<and>
      \<not> Message_Server_Initialized (sv_servers s' i) \<and> sv_components s' = (sv_components s)(k := None) \<and>
      k \<notin> objects (fheap (sv_world s'))) s"
    unfolding wp_bind [of "in_world _"]
  proof (rule wp_mono, goal_cases)
    case (1 u s1)
    then obtain w where w: "s1 = s\<lparr>sv_world := w\<rparr>" "message_service_ok fheap s1" by blast
    then have "Message_Server_Initialized (sv_servers s1 i)" using assms(2) by simp
    from message_finalize_ok [OF w(2) this] show ?case
      by (rule wp_mono) (auto simp: w(1) assms(3) frame_def)
  qed
  then show ?thesis
    using assms(2,3) by (simp add: Message_Session_Cleanup_def wp_simps)
qed

end

sublocale component_code \<subseteq> msg_srv: session_server G fheap "\<lambda>_. True" Message_Server_Initialized
  gsv_component "gcp_server :: message_component \<Rightarrow> nat" "\<lambda>k. k" "Message_Session_Initialize G I" Message_Session_Accept "Message_Session_Cleanup G I"
proof unfold_locales
  fix s i k idx
  assume "message_service_ok fheap s" "\<not> Message_Server_Initialized (sv_servers s i)"
  then show "wp (Message_Session_Initialize G I k i idx) (\<lambda>_ s'. message_service_ok fheap s' \<and> frame i s s') s"
    using Message_Session_Initialize_ok by (simp add: steps_def)
next
  fix s i and k :: addr
  assume "message_service_ok fheap s" "Message_Server_Initialized (sv_servers s i)"
    "k = gsv_component (sv_servers s i)"
  then show "wp (Message_Session_Cleanup G I k i) (\<lambda>_ s'. message_service_ok fheap s' \<and> frame i s s' \<and>
        \<not> Message_Server_Initialized (sv_servers s' i) \<and> sv_components s' = (sv_components s)(k := None) \<and>
        k \<notin> objects (fheap (sv_world s'))) s"
    by (rule Message_Session_Cleanup_ok)
qed (auto simp: Message_Session_Accept_def message_accept_def Message_Session_Cleanup_def wp_simps)

lemma message_create_session_eq:
  "message_create_session G sz dispatch args = create_session_shape G sz dispatch null args"
  by (simp add: message_create_session_def create_session_shape_def Let_def)

context component_code
begin

lemma message_create:
  "message_service_ok fheap s \<Longrightarrow> wp (message_create_session G sz (message_dispatch G I D) args) (\<lambda>r s'.
     msg_srv.created r s' \<and> (r = Inl Insufficient_ram_quota \<longleftrightarrow> g_arg_value G args ''ram_quota'' 0 < max 4096 sz)) s"
  unfolding message_create_session_eq message_dispatch_def [abs_def] Message_Valid_Session_Request_def
  by (rule wp_and [OF msg_srv.create_created create_quota]) simp_all

lemmas message_disconnect = msg_srv.run_disconnect
lemmas message_created_def = msg_srv.created_def
lemmas message_disconnected_def = msg_srv.disconnected_def

end

subsection \<open>What a session leaves behind\<close>

lemma keeps_get [keeps_intros]: "keeps f getS"
  by (simp add: keeps_def State_Monad.get_def)

lemma keeps_dispatch:
  assumes "\<And>i idx. keeps f (s_init i idx)" "\<And>i. keeps f (s_acc i)" "\<And>i. keeps f (s_clean i)"
  shows "keeps f (run_dispatch ini s_init s_acc s_clean req ops)"
proof (induction ops)
  case Nil
  show ?case by (simp add: keeps_return)
next
  case (Cons op ops)
  then show ?case by (cases op) (auto intro!: keeps_intros assms)
qed

definition caches :: "('w, 'q) message_service \<Rightarrow> nat \<Rightarrow> 'q" where
  "caches s i = gsv_cache (sv_servers s i)"

lemma caches_update [simp]:
  "caches (s\<lparr>sv_world := w\<rparr>) = caches s" "caches (s\<lparr>sv_accepted := p\<rparr>) = caches s"
  "caches (s\<lparr>sv_components := c\<rparr>) = caches s"
  "caches (s\<lparr>sv_servers := (sv_servers s)(i := (sv_servers s i)\<lparr>gsv_component := p\<rparr>)\<rparr>) = caches s"
  "caches (s\<lparr>sv_servers := (sv_servers s)(i := (sv_servers s i)\<lparr>gsv_index := x\<rparr>)\<rparr>) = caches s"
  by (auto simp: caches_def fun_eq_iff)

lemma keeps_iff_wp: "keeps f m \<longleftrightarrow> (\<forall>s. wp m (\<lambda>_ s'. f s' = f s) s)"
  by (simp add: keeps_def wp_run)

lemma caches_in_world [keeps_intros]: "keeps caches (in_world m)"
  by (simp add: keeps_iff_wp wp_simps)

lemma caches_server_code [keeps_intros]:
  "keeps caches (message_server_initialize G i)" "keeps caches (message_server_finalize G i)"
  "keeps caches (message_set_index i x)" "keeps caches (Message_Session_Accept i)"
  by (auto simp: keeps_iff_wp message_server_initialize_def message_server_finalize_def message_set_index_def
      Message_Session_Accept_def message_accept_def wp_simps wp_run)

lemma caches_dispatch [keeps_intros]: "keeps caches (message_dispatch G I D cap nm lb)"
  unfolding message_dispatch_def
  by (rule keeps_dispatch)
    (auto simp: Message_Session_Initialize_def Message_Session_Cleanup_def message_session_initialize_def intro!: keeps_intros)

definition channel :: "addr \<Rightarrow> nat \<Rightarrow> ('w, 'q) message_service \<Rightarrow> bool" where
  "channel p i s \<longleftrightarrow> gsv_component (sv_servers s i) = p \<and> map_option gcp_server (sv_components s p) = Some i"

subsection \<open>Properties\<close>


definition list_queue :: "bytes list queue_ops" where
  "list_queue = \<lparr> q_count = length, q_size = (\<lambda>_. 10), q_put = (\<lambda>q x. q @ [x]), q_pop = (\<lambda>q. (hd q, tl q)) \<rparr>"

interpretation list_queue: basalt_queue list_queue "\<lambda>q. q" 10
  by unfold_locales (simp_all add: list_queue_def)

definition sample_message_service :: "(gsim, bytes list) message_service" where
  "sample_message_service = \<lparr> sv_world = gsim_init\<lparr>gs_up := True, gs_objects := [16]\<rparr>, sv_root = 0x100, sv_env = 0x200,
     sv_index = Some 1, sv_dispatch = 0x300, sv_accepted = 0,
     sv_servers = (\<lambda>_. \<lparr>gsv_component = null, gsv_index = None, gsv_cache = []\<rparr>)
       (3 := \<lparr>gsv_component = 16, gsv_index = Some 1, gsv_cache = []\<rparr>),
     sv_components = [16 \<mapsto> message_component_new 3] \<rparr>"

text \<open>
  C37. A Message session request on Genode is answered soundly: quota errors exactly below
  the minimum, otherwise a denial or a live component of an initialized server, although
  \<open>Message_Server::finalize\<close> leaves dangling component pointers in finalized servers.
\<close>

theorem message_create_session_sound:
  assumes "component_code G fheap cb I" and "message_service_ok fheap s"
  shows "wp (message_create_session G sz (message_dispatch G I D) args) (\<lambda>r s'.
      message_service_ok fheap s' \<and>
      (r = Inl Insufficient_ram_quota \<longleftrightarrow> g_arg_value G args ''ram_quota'' 0 < max 4096 sz) \<and>
      (\<forall>p. r = Inr p \<longrightarrow> p \<in> objects (fheap (sv_world s')) \<and>
         (\<exists>i. Message_Server_Initialized (sv_servers s' i) \<and> channel p i s'))) s"
  using component_code.message_create [OF assms]
  by (rule wp_mono) (auto simp: component_code.message_created_def [OF assms(1)] channel_def)

theorem message_create_session_sound_witness:
  "result (message_create_session gsim_genode 64 (message_dispatch gsim_genode gs_impl
       (\<lambda>_ _ _. [D_Initialize 1 1, D_Accept 1, D_Initialize 4 9])) ''init>msg'') sample_message_service = Inl Service_denied \<and>
   wp (message_create_session gsim_genode 64 (message_dispatch gsim_genode gs_impl
       (\<lambda>_ _ _. [D_Initialize 1 1, D_Accept 1, D_Initialize 4 9])) ''init>msg'') (\<lambda>r s'.
      message_service_ok gsim_heap s' \<and>
      (r = Inl Insufficient_ram_quota \<longleftrightarrow> g_arg_value gsim_genode ''init>msg'' ''ram_quota'' 0 < max 4096 64) \<and>
      (\<forall>p. r = Inr p \<longrightarrow> p \<in> objects (gsim_heap (sv_world s')) \<and>
         (\<exists>i. Message_Server_Initialized (sv_servers s' i) \<and> channel p i s'))) sample_message_service"
proof (rule conjI)
  show "result (message_create_session gsim_genode 64 (message_dispatch gsim_genode gs_impl
       (\<lambda>_ _ _. [D_Initialize 1 1, D_Accept 1, D_Initialize 4 9])) ''init>msg'') sample_message_service = Inl Service_denied"
    by code_simp
  have ok: "message_service_ok gsim_heap sample_message_service"
    by (auto simp: service_ok_def sample_message_service_def gsim_heap_def Message_Server_Initialized_def
        message_component_new_def)
  show "wp (message_create_session gsim_genode 64 (message_dispatch gsim_genode gs_impl
       (\<lambda>_ _ _. [D_Initialize 1 1, D_Accept 1, D_Initialize 4 9])) ''init>msg'') (\<lambda>r s'.
      message_service_ok gsim_heap s' \<and>
      (r = Inl Insufficient_ram_quota \<longleftrightarrow> g_arg_value gsim_genode ''init>msg'' ''ram_quota'' 0 < max 4096 64) \<and>
      (\<forall>p. r = Inr p \<longrightarrow> p \<in> objects (gsim_heap (sv_world s')) \<and>
         (\<exists>i. Message_Server_Initialized (sv_servers s' i) \<and> channel p i s'))) sample_message_service"
    by (rule message_create_session_sound [OF gsim_code.component_code_axioms ok])
qed

end
