(* ===== verification/Genode_Message_Exchange.thy ===== *)
theory Genode_Message_Exchange
  imports Genode_Clients Genode_Message_Server "HOL-Library.Sublist"
begin

text \<open>
  A Message client and a Message server on Genode, composed. The framework carries the client's
  RPC calls to the session component at the other end of its connection, and the server's
  signals to the client. The specification is a pair of channels: a bounded queue to the client,
  and what the server's \<open>Receive\<close> procedure has heard; the composed code is proved to be a
  refinement of it. The second part establishes a session between the two.
\<close>

subsection \<open>Specification\<close>

record exchange =
  x_queue :: "bytes list"
  x_heard :: "bytes list"
  x_signals :: "u64 list"

text \<open>A message for a full queue is dropped; one that fits is announced by a signal.\<close>

definition exchange_put :: "nat \<Rightarrow> u64 \<Rightarrow> bytes \<Rightarrow> exchange \<Rightarrow> exchange" where
  "exchange_put n sig d x = (if length (x_queue x) < n
     then x\<lparr>x_queue := x_queue x @ [d], x_signals := x_signals x @ [sig]\<rparr> else x)"

text \<open>
  \<open>X_Send\<close> is a message that the server sends on its own, \<open>X_Write\<close> one from the client, which
  the server's \<open>Receive\<close> answers with the messages \<open>rep\<close> of all it has heard, and \<open>X_Poll\<close> a
  client that asks \<open>Available\<close> and reads one message if there is one.
\<close>

datatype exchange_op = X_Send bytes | X_Write bytes | X_Poll

fun exchange_step ::
  "nat \<Rightarrow> u64 \<Rightarrow> (bytes list \<Rightarrow> bytes list) \<Rightarrow> exchange_op \<Rightarrow> exchange \<Rightarrow> bytes list \<times> exchange" where
  "exchange_step n sig rep (X_Send d) x = ([], exchange_put n sig d x)"
| "exchange_step n sig rep (X_Write d) x =
     ([], fold (exchange_put n sig) (rep (x_heard x @ [d])) (x\<lparr>x_heard := x_heard x @ [d]\<rparr>))"
| "exchange_step n sig rep X_Poll x = (take 1 (x_queue x), x\<lparr>x_queue := tl (x_queue x)\<rparr>)"

fun exchange_run ::
  "nat \<Rightarrow> u64 \<Rightarrow> (bytes list \<Rightarrow> bytes list) \<Rightarrow> exchange_op list \<Rightarrow> exchange \<Rightarrow> bytes list \<times> exchange" where
  "exchange_run n sig rep [] x = ([], x)"
| "exchange_run n sig rep (a # ops) x = (case exchange_step n sig rep a x of (got, x') \<Rightarrow>
     case exchange_run n sig rep ops x' of (rest, x'') \<Rightarrow> (got @ rest, x''))"

text \<open>What the server offers to the client, and what the client writes.\<close>

fun offered :: "(bytes list \<Rightarrow> bytes list) \<Rightarrow> bytes list \<Rightarrow> exchange_op list \<Rightarrow> bytes list" where
  "offered rep hs [] = []"
| "offered rep hs (X_Send d # ops) = d # offered rep hs ops"
| "offered rep hs (X_Write d # ops) = rep (hs @ [d]) @ offered rep (hs @ [d]) ops"
| "offered rep hs (X_Poll # ops) = offered rep hs ops"

fun written :: "exchange_op list \<Rightarrow> bytes list" where
  "written [] = []"
| "written (X_Write d # ops) = d # written ops"
| "written (a # ops) = written ops"

text \<open>
  \<open>delivers x got acc x'\<close>: from \<open>x\<close> on, the messages \<open>acc\<close> were queued, each with one signal, and
  the client got \<open>got\<close>, in the order of the queue.
\<close>

definition delivers :: "u64 \<Rightarrow> exchange \<Rightarrow> bytes list \<Rightarrow> bytes list \<Rightarrow> exchange \<Rightarrow> bool" where
  "delivers sig x got acc x' \<longleftrightarrow> got @ x_queue x' = x_queue x @ acc \<and>
     x_signals x' = x_signals x @ replicate (length acc) sig"

lemma exchange_trans:
  "delivers sig x g1 a1 x1 \<Longrightarrow> delivers sig x1 g2 a2 x2 \<Longrightarrow> delivers sig x (g1 @ g2) (a1 @ a2) x2"
  by (simp add: delivers_def replicate_add [symmetric])

lemma exchange_put_heard [simp]: "x_heard (exchange_put n sig d x) = x_heard x"
  by (simp add: exchange_put_def)

lemma fold_put:
  "\<exists>acc. delivers sig x [] acc (fold (exchange_put n sig) ds x) \<and> subseq acc ds \<and>
     x_heard (fold (exchange_put n sig) ds x) = x_heard x \<and>
     (length (x_queue x) + length ds \<le> n \<longrightarrow> acc = ds)"
proof (induction ds arbitrary: x)
  case Nil
  show ?case by (auto simp: delivers_def)
next
  case (Cons d ds)
  from Cons.IH [of "exchange_put n sig d x"] obtain acc where
    acc: "delivers sig (exchange_put n sig d x) [] acc (fold (exchange_put n sig) (d # ds) x)" "subseq acc ds"
    "x_heard (fold (exchange_put n sig) (d # ds) x) = x_heard x"
    "length (x_queue (exchange_put n sig d x)) + length ds \<le> n \<longrightarrow> acc = ds"
    by auto
  show ?case
  proof (cases "length (x_queue x) < n")
    case True
    then have "delivers sig x [] [d] (exchange_put n sig d x)" "length (x_queue (exchange_put n sig d x)) = Suc (length (x_queue x))"
      by (simp_all add: exchange_put_def delivers_def)
    with exchange_trans [OF this(1) acc(1)] acc show ?thesis
      by (intro exI [of _ "d # acc"]) auto
  next
    case False
    then have "exchange_put n sig d x = x" by (simp add: exchange_put_def)
    with False acc show ?thesis by (intro exI [of _ acc]) auto
  qed
qed

lemma exchange_step_delivers:
  assumes "exchange_step n sig rep a x = (got, x')"
  shows "\<exists>acc. delivers sig x got acc x' \<and> subseq acc (offered rep (x_heard x) [a]) \<and>
     x_heard x' = x_heard x @ written [a] \<and>
     (length (x_queue x) + length (offered rep (x_heard x) [a]) \<le> n \<longrightarrow> acc = offered rep (x_heard x) [a])"
proof (cases a)
  case (X_Send d)
  with assms fold_put [of sig x n "[d]"] show ?thesis by simp
next
  case (X_Write d)
  let ?x = "x\<lparr>x_heard := x_heard x @ [d]\<rparr>"
  from fold_put [of sig ?x n "rep (x_heard x @ [d])"] X_Write assms show ?thesis
    by (simp add: delivers_def)
next
  case X_Poll
  with assms show ?thesis by (cases "x_queue x") (auto simp: delivers_def)
qed

lemma offered_Cons: "offered rep hs (a # ops) = offered rep hs [a] @ offered rep (hs @ written [a]) ops"
  by (cases a) simp_all

lemma written_Cons: "written (a # ops) = written [a] @ written ops"
  by (cases a) simp_all

lemma exchange_run_delivers:
  "exchange_run n sig rep ops x = (got, x') \<Longrightarrow>
   \<exists>acc. delivers sig x got acc x' \<and> subseq acc (offered rep (x_heard x) ops) \<and>
     x_heard x' = x_heard x @ written ops \<and>
     (length (x_queue x) + length (offered rep (x_heard x) ops) \<le> n \<longrightarrow> acc = offered rep (x_heard x) ops)"
proof (induction ops arbitrary: x got)
  case Nil
  then show ?case by (auto simp: delivers_def)
next
  case (Cons a ops)
  obtain g1 x1 g2 where s: "exchange_step n sig rep a x = (g1, x1)" and r: "exchange_run n sig rep ops x1 = (g2, x')"
    and got: "got = g1 @ g2"
    using Cons.prems by (auto split: prod.splits)
  from exchange_step_delivers [OF s] obtain a1 where a1: "delivers sig x g1 a1 x1"
    "subseq a1 (offered rep (x_heard x) [a])" "x_heard x1 = x_heard x @ written [a]"
    "length (x_queue x) + length (offered rep (x_heard x) [a]) \<le> n \<Longrightarrow> a1 = offered rep (x_heard x) [a]"
    by blast
  from Cons.IH [OF r] obtain a2 where a2: "delivers sig x1 g2 a2 x'"
    "subseq a2 (offered rep (x_heard x1) ops)" "x_heard x' = x_heard x1 @ written ops"
    "length (x_queue x1) + length (offered rep (x_heard x1) ops) \<le> n \<Longrightarrow> a2 = offered rep (x_heard x1) ops"
    by blast
  have "length (x_queue x1) \<le> length (x_queue x) + length a1"
    using a1(1) by (metis delivers_def le_add2 length_append)
  with a1(4) a2(4) have "a1 @ a2 = offered rep (x_heard x) (a # ops)"
    if "length (x_queue x) + length (offered rep (x_heard x) (a # ops)) \<le> n"
    using that unfolding offered_Cons [of rep _ a ops] a1(3) by fastforce
  moreover have "subseq (a1 @ a2) (offered rep (x_heard x) (a # ops))"
    unfolding offered_Cons [of rep _ a ops] using a1(2,3) a2(2) by (simp add: list_emb_append_mono)
  ultimately show ?case
    using exchange_trans [OF a1(1) a2(1)] a1(3) a2(3) unfolding got written_Cons [of a ops] by auto
qed

subsection \<open>The server's side\<close>

text \<open>
  The component's \<open>Receive\<close> procedure: it notes the message and sends replies, which depend on
  what it has seen.
\<close>

fun send_all :: "'w genode \<Rightarrow> 'q queue_ops \<Rightarrow> nat \<Rightarrow> bytes list \<Rightarrow> (('w, 'q) message_service, unit) state" where
  "send_all G B i [] = ret ()"
| "send_all G B i (d # ds) = do { Message_Send G B i d; send_all G B i ds }"

definition replying ::
  "'w genode \<Rightarrow> 'q queue_ops \<Rightarrow> 'w server_impl \<Rightarrow> ('w \<Rightarrow> bytes list) \<Rightarrow> nat \<Rightarrow> bytes \<Rightarrow> (('w, 'q) message_service, unit) state" where
  "replying G B I R i d = do {
     in_world (si_receive I i d);
     s \<leftarrow> getS;
     send_all G B i (R (sv_world s))
   }"

text \<open>Server \<open>i\<close> has the session component \<open>q\<close>, which signals \<open>sig\<close>.\<close>

definition bound :: "addr \<Rightarrow> nat \<Rightarrow> u64 \<Rightarrow> ('w, 'q) message_service \<Rightarrow> bool" where
  "bound q i sig s \<longleftrightarrow> gsv_component (sv_servers s i) = q \<and>
     (case sv_components s q of None \<Rightarrow> False | Some c \<Rightarrow> gcp_server c = i \<and> gcp_signal c = sig)"

lemma bound_iff:
  "bound q i sig s \<longleftrightarrow> gsv_component (sv_servers s i) = q \<and>
     (\<exists>c. sv_components s q = Some c \<and> gcp_server c = i \<and> gcp_signal c = sig)"
  by (simp add: bound_def split: option.splits)

definition exchange_of ::
  "('q \<Rightarrow> bytes list) \<Rightarrow> ('w \<Rightarrow> bytes list) \<Rightarrow> ('w \<Rightarrow> u64 list) \<Rightarrow> nat \<Rightarrow> ('w, 'q) message_service \<Rightarrow> exchange" where
  "exchange_of elems heard signals i s =
     \<lparr> x_queue = elems (gsv_cache (sv_servers s i)), x_heard = heard (sv_world s), x_signals = signals (sv_world s) \<rparr>"

text \<open>
  The component behind the server: \<open>heard\<close> are the messages that \<open>Receive\<close> was called with, \<open>signals\<close> the signals
  that the framework submitted.
\<close>

locale message_component_code = basalt_queue B elems capacity
  for B :: "'q queue_ops" and elems :: "'q \<Rightarrow> bytes list" and capacity :: nat +
  fixes G :: "'w genode"
    and I :: "'w server_impl"
    and R :: "'w \<Rightarrow> bytes list"
    and heard :: "'w \<Rightarrow> bytes list"
    and signals :: "'w \<Rightarrow> u64 list"
    and rep :: "bytes list \<Rightarrow> bytes list"
  assumes receive_law: "wp (si_receive I i d) (\<lambda>_ w'. heard w' = heard w @ [d] \<and> signals w' = signals w) w"
    and reply_law: "R w = rep (heard w)"
    and submit_law: "wp (g_submit G sig) (\<lambda>_ w'. heard w' = heard w \<and> signals w' = signals w @ [sig]) w"
begin

abbreviation xof :: "nat \<Rightarrow> ('w, 'q) message_service \<Rightarrow> exchange" where
  "xof \<equiv> exchange_of elems heard signals"

lemma Message_Send_exchange:
  assumes "bound q i sig s" and "g_signal_valid G sig"
  shows "wp (Message_Send G B i d) (\<lambda>_ s'. bound q i sig s' \<and> xof i s' = exchange_put capacity sig d (xof i s)) s"
proof (cases "length (elems (gsv_cache (sv_servers s i))) < capacity")
  case True
  with assms show ?thesis
    by (auto simp: Message_Send_def message_server_send_signal_def message_component_signal_def bound_iff exchange_of_def
        exchange_put_def wp_simps count_law size_law put_law Let_def intro!: wp_mono [OF submit_law])
next
  case False
  with assms show ?thesis
    by (auto simp: Message_Send_def exchange_of_def exchange_put_def wp_simps count_law size_law Let_def)
qed

lemma send_all_exchange:
  "bound q i sig s \<Longrightarrow> g_signal_valid G sig \<Longrightarrow>
   wp (send_all G B i ds) (\<lambda>_ s'. bound q i sig s' \<and> xof i s' = fold (exchange_put capacity sig) ds (xof i s)) s"
proof (induction ds arbitrary: s)
  case (Cons d ds)
  show ?case
    unfolding send_all.simps wp_bind
  proof (rule wp_mono [OF Message_Send_exchange [OF Cons.prems]], goal_cases)
    case (1 u s1)
    with Cons.IH [of s1] Cons.prems(2) show ?case by simp
  qed
qed (simp add: wp_simps)

lemma message_component_write_exchange:
  assumes "bound q i sig s" and "g_signal_valid G sig"
  shows "wp (message_component_write (replying G B I R) q d) (\<lambda>r s'. r \<and> bound q i sig s' \<and>
     xof i s' = snd (exchange_step capacity sig rep (X_Write d) (xof i s))) s"
proof -
  have b: "bound q i sig (s\<lparr>sv_world := w\<rparr>)" for w
    using assms(1) by (simp add: bound_iff)
  from assms(1) obtain c where c: "sv_components s q = Some c" "gcp_server c = i"
    by (auto simp: bound_iff)
  have "wp (replying G B I R i d) (\<lambda>_ s'. bound q i sig s' \<and>
     xof i s' = snd (exchange_step capacity sig rep (X_Write d) (xof i s))) s"
    unfolding replying_def wp_simps
  proof (rule wp_mono [OF receive_law], goal_cases)
    case (1 u w)
    then show ?case
      by (intro wp_mono [OF send_all_exchange [OF b assms(2)]]) (simp add: exchange_of_def reply_law)
  qed
  with c show ?thesis by (simp add: message_component_write_def wp_simps)
qed

lemma message_component_read_exchange:
  assumes "bound q i sig s" and "x_queue (xof i s) = m # ms"
  shows "wp (message_component_read B q) (\<lambda>r s'. r = Some m \<and> bound q i sig s' \<and> xof i s' = (xof i s)\<lparr>x_queue := ms\<rparr>) s"
proof -
  from pop_law [of "gsv_cache (sv_servers s i)" m ms] assms(2)
  obtain q' where "q_pop B (gsv_cache (sv_servers s i)) = (m, q')" "elems q' = ms"
    by (auto simp: exchange_of_def)
  with assms(1) show ?thesis
    by (auto simp: message_component_read_def Message_Get_def bound_iff exchange_of_def wp_simps)
qed

lemma message_component_avail_exchange:
  assumes "bound q i sig s"
  shows "run_state (message_component_avail B q) s = (Some (x_queue (xof i s) \<noteq> []), s)"
  using assms
  by (auto simp: message_component_avail_def bound_iff exchange_of_def Message_Avail_def count_law State_Monad.get_def)

end

subsection \<open>The connection\<close>

text \<open>
  The world \<open>'x\<close> holds both components. \<open>serv\<close> is the server's part and \<open>route\<close> says which session component
  is at the other end of the connection object at an address. A call to a component that exists returns its
  result to the client.
\<close>

locale message_rpc =
  fixes B :: "'q queue_ops"
    and recv :: "nat \<Rightarrow> bytes \<Rightarrow> (('w, 'q) message_service, unit) state"
    and Gc :: "'x genode"
    and serv :: "'x \<Rightarrow> ('w, 'q) message_service"
    and put_serv :: "('w, 'q) message_service \<Rightarrow> 'x \<Rightarrow> 'x"
    and route :: "'x \<Rightarrow> addr \<Rightarrow> addr option"
  assumes serv_put: "serv (put_serv s x) = s"
    and route_put: "route (put_serv s x) = route x"
    and rpc_write_law: "route x p = Some q \<Longrightarrow> run_state (message_component_write recv q d) (serv x) = (True, s') \<Longrightarrow>
      wp (g_rpc_write Gc p d) (\<lambda>_ x'. serv x' = s' \<and> route x' = route x) x"
    and rpc_read_law: "route x p = Some q \<Longrightarrow> run_state (message_component_read B q) (serv x) = (Some m, s') \<Longrightarrow>
      wp (g_rpc_read Gc p) (\<lambda>r x'. r = m \<and> serv x' = s' \<and> route x' = route x) x"
    and rpc_avail_law: "route x p = Some q \<Longrightarrow> run_state (message_component_avail B q) (serv x) = (Some b, s') \<Longrightarrow>
      wp (g_rpc_avail Gc p) (\<lambda>r x'. r = b \<and> serv x' = s' \<and> route x' = route x) x"

fun run_exchange ::
  "'w genode \<Rightarrow> 'q queue_ops \<Rightarrow> ('x \<Rightarrow> ('w, 'q) message_service) \<Rightarrow> (('w, 'q) message_service \<Rightarrow> 'x \<Rightarrow> 'x) \<Rightarrow>
   'x genode \<Rightarrow> nat \<Rightarrow> message_client \<Rightarrow> exchange_op list \<Rightarrow> ('x, bytes list) state" where
  "run_exchange G B serv put_serv Gc i c [] = ret []"
| "run_exchange G B serv put_serv Gc i c (X_Send d # ops) = do {
     at_part serv put_serv (Message_Send G B i d);
     run_exchange G B serv put_serv Gc i c ops
   }"
| "run_exchange G B serv put_serv Gc i c (X_Write d # ops) = do {
     Message_Client_Write Gc c d;
     run_exchange G B serv put_serv Gc i c ops
   }"
| "run_exchange G B serv put_serv Gc i c (X_Poll # ops) = do {
     a \<leftarrow> Message_Client_Available Gc c;
     got \<leftarrow> (if a then do { m \<leftarrow> Message_Client_Read Gc c; ret [m] } else ret []);
     rest \<leftarrow> run_exchange G B serv put_serv Gc i c ops;
     ret (got @ rest)
   }"

lemma wp_obtain:
  assumes "wp m Q s"
  obtains r s' where "run_state m s = (r, s')" "Q r s'"
  using assms by (cases "run_state m s") (auto simp: wp_def)

locale message_exchange =
  code: message_component_code B elems capacity G I R heard signals rep +
  rpc: message_rpc B "replying G B I R" Gc serv put_serv route
  for B :: "'q queue_ops" and elems capacity and G :: "'w genode" and I :: "'w server_impl" and R heard signals rep
    and Gc :: "'x genode" and serv put_serv route
begin

abbreviation at_abs :: "nat \<Rightarrow> 'x \<Rightarrow> exchange" where
  "at_abs i x \<equiv> exchange_of elems heard signals i (serv x)"

definition linked :: "addr \<Rightarrow> nat \<Rightarrow> u64 \<Rightarrow> 'x \<Rightarrow> bool" where
  "linked p i sig x \<longleftrightarrow> g_signal_valid G sig \<and> (\<exists>q. route x p = Some q \<and> bound q i sig (serv x))"

lemma Message_Client_Write_exchange:
  assumes "linked (msc_connection c) i sig x"
  shows "wp (Message_Client_Write Gc c d) (\<lambda>_ x'. linked (msc_connection c) i sig x' \<and>
     at_abs i x' = snd (exchange_step capacity sig rep (X_Write d) (at_abs i x))) x"
proof -
  from assms obtain q where q: "g_signal_valid G sig" "route x (msc_connection c) = Some q" "bound q i sig (serv x)"
    by (auto simp: linked_def)
  from code.message_component_write_exchange [OF q(3,1), of d] obtain s'
    where s': "run_state (message_component_write (replying G B I R) q d) (serv x) = (True, s')" "bound q i sig s'"
      "exchange_of elems heard signals i s' = snd (exchange_step capacity sig rep (X_Write d) (at_abs i x))"
    by (elim wp_obtain) auto
  show ?thesis
    unfolding Message_Client_Write_def message_client_write_def message_session_write_def
    by (rule wp_mono [OF rpc.rpc_write_law [OF q(2) s'(1)]]) (use q s' in \<open>auto simp: linked_def\<close>)
qed

lemma Message_Client_Available_exchange:
  assumes "linked (msc_connection c) i sig x"
  shows "wp (Message_Client_Available Gc c) (\<lambda>a x'. linked (msc_connection c) i sig x' \<and> at_abs i x' = at_abs i x \<and>
     a = (x_queue (at_abs i x) \<noteq> [])) x"
proof -
  from assms obtain q where q: "route x (msc_connection c) = Some q" "bound q i sig (serv x)"
    by (auto simp: linked_def)
  from rpc.rpc_avail_law [OF q(1) code.message_component_avail_exchange [OF q(2)]] assms show ?thesis
    unfolding Message_Client_Available_def message_client_avail_def message_session_avail_def wp_simps
    by (auto simp: linked_def elim!: wp_mono)
qed

lemma Message_Client_Read_exchange:
  assumes "linked (msc_connection c) i sig x" and "x_queue (at_abs i x) = m # ms"
  shows "wp (Message_Client_Read Gc c) (\<lambda>r x'. r = m \<and> linked (msc_connection c) i sig x' \<and>
     at_abs i x' = (at_abs i x)\<lparr>x_queue := ms\<rparr>) x"
proof -
  from assms(1) obtain q where q: "g_signal_valid G sig" "route x (msc_connection c) = Some q" "bound q i sig (serv x)"
    by (auto simp: linked_def)
  from code.message_component_read_exchange [OF q(3) assms(2)] obtain s'
    where s': "run_state (message_component_read B q) (serv x) = (Some m, s')" "bound q i sig s'"
      "exchange_of elems heard signals i s' = (at_abs i x)\<lparr>x_queue := ms\<rparr>"
    by (elim wp_obtain) auto
  show ?thesis
    unfolding Message_Client_Read_def message_client_read_def message_session_read_def
    by (rule wp_mono [OF rpc.rpc_read_law [OF q(2) s'(1)]]) (use q s' in \<open>auto simp: linked_def\<close>)
qed

lemma at_part_Send_exchange:
  assumes "linked p i sig x"
  shows "wp (at_part serv put_serv (Message_Send G B i d)) (\<lambda>_ x'. linked p i sig x' \<and>
     at_abs i x' = exchange_put capacity sig d (at_abs i x)) x"
proof -
  from assms obtain q where q: "g_signal_valid G sig" "route x p = Some q" "bound q i sig (serv x)"
    by (auto simp: linked_def)
  show ?thesis
    unfolding wp_at_part
    by (rule wp_mono [OF code.Message_Send_exchange [OF q(3,1)]]) (use q in \<open>auto simp: linked_def rpc.serv_put rpc.route_put\<close>)
qed

text \<open>The refinement, operation by operation.\<close>

lemma run_exchange_refines:
  "linked (msc_connection c) i sig x \<Longrightarrow> wp (run_exchange G B serv put_serv Gc i c ops) (\<lambda>got x'.
     linked (msc_connection c) i sig x' \<and> (got, at_abs i x') = exchange_run capacity sig rep ops (at_abs i x)) x"
proof (induction ops arbitrary: x)
  case Nil
  then show ?case by (simp add: wp_simps)
next
  case (Cons a ops)
  note IH = Cons.IH
  show ?case
  proof (cases a)
    case (X_Send d)
    show ?thesis
      unfolding X_Send run_exchange.simps wp_bind
      by (rule wp_mono [OF at_part_Send_exchange [OF Cons.prems]])
        (auto intro!: wp_mono [OF IH] split: prod.splits)
  next
    case (X_Write d)
    show ?thesis
      unfolding X_Write run_exchange.simps wp_bind
      by (rule wp_mono [OF Message_Client_Write_exchange [OF Cons.prems]])
        (auto intro!: wp_mono [OF IH] split: prod.splits)
  next
    case X_Poll
    show ?thesis
      unfolding X_Poll run_exchange.simps wp_bind
    proof (rule wp_mono [OF Message_Client_Available_exchange [OF Cons.prems]], goal_cases)
      case (1 av x1)
      show ?case
      proof (cases "x_queue (at_abs i x)")
        case Nil
        then have same: "(at_abs i x)\<lparr>x_queue := []\<rparr> = at_abs i x" by simp
        from 1 Nil show ?thesis
          by (auto simp: same wp_simps intro!: wp_mono [OF IH] split: prod.splits)
      next
        case (Cons m ms)
        with 1 have q: "linked (msc_connection c) i sig x1" "x_queue (at_abs i x1) = m # ms" by simp_all
        from 1 Cons show ?thesis
          by (auto simp: wp_simps intro!: wp_mono [OF Message_Client_Read_exchange [OF q]] wp_mono [OF IH] split: prod.splits)
      qed
    qed
  qed
qed

end

subsection \<open>Session establishment\<close>

text \<open>
  A session request of the client reaches the server's root, or the parent denies it. Destroying or giving up a
  connection ends its session at the server. What the client does on its own heap does not concern the server.
  The parent renders the arguments as a string (\<open>args\<close>); the capability of a signal handler is valid.
\<close>

lemma service_ok_replace:
  assumes "service_ok fheap swf ini cmpt owner s" and "sv_components s p = Some c" and "owner c' = owner c"
  shows "service_ok fheap swf ini cmpt owner (s\<lparr>sv_components := (sv_components s)(p \<mapsto> c')\<rparr>)"
proof -
  have "dom ((sv_components s)(p \<mapsto> c')) = dom (sv_components s)" using assms(2) by auto
  with assms show ?thesis unfolding service_ok_def by simp (metis option.inject)
qed

locale message_link =
  rpc: message_rpc B recv Gc serv put_serv route +
  srv: component_code G fheap cb I
  for B :: "'q queue_ops" and recv and Gc :: "'x genode" and serv put_serv route
    and G :: "'w genode" and fheap and cb and I :: "'w server_impl" +
  fixes sz :: u64
    and D :: "addr \<Rightarrow> string \<Rightarrow> string \<Rightarrow> dispatch_op list"
    and args :: "session_args \<Rightarrow> string"
  assumes constructed_apart: "keeps (\<lambda>x. (serv x, route x)) (g_constructed Gc)"
    and construct_apart: "keeps (\<lambda>x. (serv x, route x)) (g_construct Gc)"
    and alloc_apart: "keeps (\<lambda>x. (serv x, route x)) (g_alloc Gc T)"
    and delete_apart: "keeps (\<lambda>x. (serv x, route x)) (g_delete Gc p)"
    and handler_apart: "keeps (\<lambda>x. (serv x, route x)) (g_signal_handler Gc p)"
    and handler_valid: "result (g_signal_handler Gc p) x = Some sig \<Longrightarrow> g_signal_valid G sig"
    and connection_law: "wp (g_connection Gc p message_service_name a) (\<lambda>ok x'.
        (\<not> ok \<and> serv x' = serv x \<and> route x' = route x) \<or>
        (\<exists>r. run_state (message_create_session G sz (message_dispatch G I D) (args a)) (serv x) = (r, serv x') \<and>
          (case r of Inl _ \<Rightarrow> \<not> ok \<and> route x' = route x | Inr q \<Rightarrow> ok \<and> route x' = (route x)(p \<mapsto> q)))) x"
    and disconnect_law: "route x p = Some q \<Longrightarrow> wp (g_disconnect Gc p) (\<lambda>_ x'.
        serv x' = final (message_destroy_session (message_dispatch G I D) q) (serv x) \<and> route x' = (route x)(p := None)) x"
    and destroy_law: "route x p = Some q \<Longrightarrow> wp (g_destroy Gc p) (\<lambda>_ x'.
        serv x' = final (message_destroy_session (message_dispatch G I D) q) (serv x) \<and> route x' = (route x)(p := None)) x"
    and sigh_law: "route x p = Some q \<Longrightarrow> wp (g_rpc_sigh Gc p sig) (\<lambda>ok x'. route x' = route x \<and>
        (if ok then run_state (message_component_sigh q sig) (serv x) = (True, serv x') else serv x' = serv x)) x"
begin

abbreviation ok :: "'x \<Rightarrow> bool" where
  "ok x \<equiv> message_service_ok fheap (serv x)"

text \<open>The connection at \<open>p\<close> has the session component of the initialized server \<open>i\<close> at its other end.\<close>

definition attached :: "addr \<Rightarrow> addr \<Rightarrow> nat \<Rightarrow> 'x \<Rightarrow> bool" where
  "attached p q i x \<longleftrightarrow> ok x \<and> route x p = Some q \<and> Message_Server_Initialized (sv_servers (serv x) i) \<and> channel q i (serv x)"

lemma keeps_both: "keeps (\<lambda>x. (serv x, route x)) m \<Longrightarrow> (\<And>a x'. serv x' = serv x \<Longrightarrow> route x' = route x \<Longrightarrow> Q a x') \<Longrightarrow> wp m Q x"
  by (rule keeps_wpI) auto

lemma connection_attached:
  assumes "ok x"
  shows "wp (g_connection Gc p message_service_name a) (\<lambda>r x'. ok x' \<and> (r \<longrightarrow> (\<exists>q i. attached p q i x'))) x"
proof (rule wp_mono [OF connection_law], goal_cases)
  case (1 r x1)
  then show ?case
  proof
    assume "\<not> r \<and> serv x1 = serv x \<and> route x1 = route x"
    with assms show ?thesis by simp
  next
    assume "\<exists>t. run_state (message_create_session G sz (message_dispatch G I D) (args a)) (serv x) = (t, serv x1) \<and>
      (case t of Inl _ \<Rightarrow> \<not> r \<and> route x1 = route x | Inr q \<Rightarrow> r \<and> route x1 = (route x)(p \<mapsto> q))"
    then obtain t where t: "run_state (message_create_session G sz (message_dispatch G I D) (args a)) (serv x) = (t, serv x1)"
      "case t of Inl _ \<Rightarrow> \<not> r \<and> route x1 = route x | Inr q \<Rightarrow> r \<and> route x1 = (route x)(p \<mapsto> q)"
      by blast
    have "srv.msg_srv.created t (serv x1)"
      using srv.message_create [OF assms, of sz D "args a"] t(1) by (simp add: wp_def)
    with t(2) show ?thesis
      by (cases t) (auto simp: srv.message_created_def attached_def channel_def)
  qed
qed

text \<open>The end of a session that exists.\<close>

lemma destroy_attached:
  assumes "attached p q i x"
  shows "message_service_ok fheap (final (message_destroy_session (message_dispatch G I D) q) (serv x)) \<and>
    (D_Cleanup i \<in> set (D q [] []) \<longrightarrow>
      \<not> Message_Server_Initialized (sv_servers (final (message_destroy_session (message_dispatch G I D) q) (serv x)) i) \<and>
      sv_components (final (message_destroy_session (message_dispatch G I D) q) (serv x)) q = None)"
proof -
  from assms have a: "message_service_ok fheap (serv x)" "Message_Server_Initialized (sv_servers (serv x) i)"
    "q = gsv_component (sv_servers (serv x) i)"
    by (auto simp: attached_def channel_def)
  from srv.message_disconnect [OF a, of "D q [] []"] a(1) show ?thesis
    unfolding message_destroy_session_def message_dispatch_def Message_Valid_Session_Request_def
    by (auto simp: wp_run srv.message_disconnected_def split: if_splits)
qed

lemma disconnect_ok:
  assumes "attached p q i x"
  shows "wp (g_disconnect Gc p) (\<lambda>_ x'. ok x') x"
  using assms by (intro wp_mono [OF disconnect_law]) (auto simp: destroy_attached attached_def)

definition established :: "addr \<Rightarrow> addr \<Rightarrow> message_connection \<Rightarrow> 'x \<Rightarrow> bool" where
  "established self p m x \<longleftrightarrow> m = \<lparr> mcn_event_sigh = Event, mcn_client = self \<rparr> \<and>
     (\<exists>q i sig. attached p q i x \<and> g_signal_valid G sig \<and> bound q i sig (serv x))"

text \<open>The server stores the handler of the client.\<close>

lemma sigh_established:
  assumes "attached p q i x" and "g_signal_valid G sig"
  shows "wp (message_session_sigh Gc p sig) (\<lambda>r x'. attached p q i x' \<and> (r \<longrightarrow> bound q i sig (serv x'))) x"
proof -
  from assms(1) have q: "route x p = Some q" by (simp add: attached_def)
  from assms(1) obtain c where c: "sv_components (serv x) q = Some c" "gcp_server c = i"
    "gsv_component (sv_servers (serv x) i) = q"
    by (auto simp: attached_def channel_def)
  let ?s = "(serv x)\<lparr>sv_components := (sv_components (serv x))(q \<mapsto> c\<lparr>gcp_signal := sig\<rparr>)\<rparr>"
  have run: "run_state (message_component_sigh q sig) (serv x) = (True, ?s)"
    using c by (simp add: message_component_sigh_def set_component_def State_Monad.get_def State_Monad.update_def State_Monad.set_def)
  have ok': "message_service_ok fheap ?s"
    using assms(1) c by (intro service_ok_replace [of _ _ _ _ _ _ _ c]) (simp_all add: attached_def)
  show ?thesis
    unfolding message_session_sigh_def
  proof (rule wp_mono [OF sigh_law [OF q]], goal_cases)
    case (1 r x')
    then have "serv x' = (if r then ?s else serv x)" "route x' = route x" using run by (auto split: if_splits)
    with ok' assms(1) c show ?case by (cases r) (simp_all add: attached_def bound_iff channel_def)
  qed
qed

lemma attached_ok: "attached p q i x \<Longrightarrow> ok x"
  by (simp add: attached_def)

lemma message_connection_established:
  assumes "ok x"
  shows "wp (message_connection_ctor Gc l self p) (\<lambda>r x'. ok x' \<and> (\<forall>m. r = Some m \<longrightarrow> established self p m x')) x"
  unfolding message_connection_ctor_def wp_simps
proof (rule wp_mono [OF connection_attached [OF assms]], goal_cases)
  case (1 r x1)
  show ?case
  proof (cases r)
    case False
    with 1 show ?thesis by (simp add: wp_simps)
  next
    case True
    with 1 obtain q i where q: "attached p q i x1" by blast
    have h: "wp (g_signal_handler Gc p) (\<lambda>h x2. attached p q i x2 \<and> (\<forall>sig. h = Some sig \<longrightarrow> g_signal_valid G sig)) x1"
      using keepsD [OF handler_apart, of p x1] handler_valid [of p x1] q by (simp add: wp_run attached_def)
    show ?thesis
      using True
    proof (simp add: wp_simps, intro wp_mono [OF h], goal_cases)
      case (1 h x2)
      show ?case
      proof (cases h)
        case None
        with 1 show ?thesis by (auto simp: wp_simps elim!: wp_mono dest: disconnect_ok)
      next
        case (Some sig)
        with 1 have sig: "attached p q i x2" "g_signal_valid G sig" by simp_all
        show ?thesis
        proof (simp add: Some wp_simps, rule wp_mono [OF sigh_established [OF sig]], goal_cases)
          case (1 r x3)
          with sig(2) show ?case
            by (auto simp: wp_simps established_def elim!: wp_mono dest: disconnect_ok attached_ok)
        qed
      qed
    qed
  qed
qed

lemma established_apart: "serv x' = serv x \<Longrightarrow> route x' = route x \<Longrightarrow> established self p m x' = established self p m x"
  by (simp add: established_def attached_def)

lemma create2_established:
  assumes "ok x"
  shows "wp (create2 Gc T (message_connection_ctor Gc l self)) (\<lambda>r x'. ok x' \<and>
     (\<forall>p m. r = Some (p, m) \<longrightarrow> established self p m x')) x"
  unfolding create2_def wp_simps
proof (rule keeps_both [OF alloc_apart], goal_cases)
  case (1 a x1)
  show ?case
  proof (cases a)
    case None
    with 1 assms show ?thesis by (simp add: wp_simps)
  next
    case (Some p)
    from 1 assms have "ok x1" by simp
    show ?thesis
      unfolding Some option.case wp_simps
    proof (rule wp_mono [OF message_connection_established [OF \<open>ok x1\<close>]], goal_cases)
      case (1 r x2)
      then show ?case
        by (cases r) (auto simp: wp_simps intro!: keeps_both [OF delete_apart])
    qed
  qed
qed

lemma message_client_established:
  assumes "ok x"
  shows "wp (message_client_initialize Gc self l c) (\<lambda>c' x'. ok x' \<and> msc_event c' = msc_event c \<and> msc_index c' = msc_index c \<and>
     (\<forall>p m. msc_object c' = Some (p, m) \<longrightarrow> established self p m x')) x"
  unfolding message_client_initialize_def check_factory_def wp_simps
proof (rule keeps_both [OF constructed_apart], goal_cases)
  case (1 b x1)
  have "wp (create2 Gc T (message_connection_ctor Gc l self)) (\<lambda>r x'. ok x' \<and>
     (\<forall>p m. r = Some (p, m) \<longrightarrow> established self p m x')) x2" if "serv x2 = serv x" for x2 T
    using assms that by (intro create2_established) simp
  with 1 show ?case by (auto intro!: keeps_both [OF construct_apart])
qed

lemma Message_Client_established:
  assumes "ok x" and "\<not> Message_Client_Initialized c"
  shows "wp (Message_Client_Initialize Gc event self l idx c) (\<lambda>c' x'. ok x' \<and> (Message_Client_Initialized c' \<longrightarrow>
     msc_event c' = event \<and> (\<exists>p m. msc_object c' = Some (p, m) \<and> established self p m x'))) x"
  unfolding Message_Client_Initialize_def if_not_P [OF assms(2)] wp_simps
proof (rule wp_mono [OF message_client_established [OF assms(1)]], goal_cases)
  case (1 c' x')
  then show ?case
    by (cases "msc_object c'") (auto simp: Message_Client_Initialized_def)
qed

lemma Message_Client_closed:
  assumes "Message_Client_Initialized c" and "attached (msc_connection c) q i x"
  shows "wp (Message_Client_Finalize Gc c) (\<lambda>c' x'. \<not> Message_Client_Initialized c' \<and> ok x' \<and> route x' (msc_connection c) = None \<and>
     (D_Cleanup i \<in> set (D q [] []) \<longrightarrow> \<not> Message_Server_Initialized (sv_servers (serv x') i) \<and> sv_components (serv x') q = None)) x"
proof -
  from assms(2) have q: "route x (msc_connection c) = Some q" by (simp add: attached_def)
  show ?thesis
    using assms(1)
    by (simp add: Message_Client_Finalize_def message_client_finalize_def destroy_def wp_simps)
      (rule wp_mono [OF destroy_law [OF q]], use destroy_attached [OF assms(2)] in \<open>auto simp: Message_Client_Initialized_def\<close>)
qed

end

subsection \<open>An executable system\<close>

text \<open>
  Two components on the reference environment: the server has the list queue and echoes the messages it gets; the
  client's session requests and calls are answered by the model of the server.
\<close>

record msim =
  mx_client :: gsim
  mx_serv :: "(gsim, bytes list) message_service"
  mx_routes :: "addr \<Rightarrow> addr option"

fun received :: "gevent list \<Rightarrow> bytes list" where
  "received [] = []"
| "received (e # es) = (case e of Received d \<Rightarrow> d # received es | _ \<Rightarrow> received es)"

fun submitted :: "gevent list \<Rightarrow> u64 list" where
  "submitted [] = []"
| "submitted (e # es) = (case e of Submitted c \<Rightarrow> c # submitted es | _ \<Rightarrow> submitted es)"

lemma received_append: "received (es @ fs) = received es @ received fs"
  by (induction es) (auto split: gevent.splits)

lemma submitted_append: "submitted (es @ fs) = submitted es @ submitted fs"
  by (induction es) (auto split: gevent.splits)

definition echo :: "bytes list \<Rightarrow> bytes list" where
  "echo hs = drop (length hs - 1) hs"

definition mx_receive :: "nat \<Rightarrow> bytes \<Rightarrow> ((gsim, bytes list) message_service, unit) state" where
  "mx_receive = replying gsim_genode list_queue gs_impl (\<lambda>w. echo (received (gs_trace w)))"

definition mx_dispatcher :: "addr \<Rightarrow> string \<Rightarrow> string \<Rightarrow> dispatch_op list" where
  "mx_dispatcher cap nm lb = (if cap = null then [D_Initialize 2 1, D_Accept 2] else [D_Cleanup 2])"

abbreviation mx_dispatch :: "addr \<Rightarrow> string \<Rightarrow> string \<Rightarrow> ((gsim, bytes list) message_service, unit) state" where
  "mx_dispatch \<equiv> message_dispatch gsim_genode gs_impl mx_dispatcher"

definition mx_rpc ::
  "addr \<Rightarrow> (addr \<Rightarrow> ((gsim, bytes list) message_service, 'a option) state) \<Rightarrow> 'a \<Rightarrow> (msim, 'a) state" where
  "mx_rpc p f a = State (\<lambda>x. case mx_routes x p of None \<Rightarrow> (a, x)
     | Some q \<Rightarrow> (case run_state (f q) (mx_serv x) of (None, s) \<Rightarrow> (a, x) | (Some b, s) \<Rightarrow> (b, x\<lparr>mx_serv := s\<rparr>)))"

definition mx_open :: "addr \<Rightarrow> string \<Rightarrow> session_args \<Rightarrow> (msim, bool) state" where
  "mx_open p sv a = State (\<lambda>x. case run_state (message_create_session gsim_genode 64 mx_dispatch (sa_label a)) (mx_serv x) of
       (Inl _, s) \<Rightarrow> (False, x\<lparr>mx_serv := s\<rparr>)
     | (Inr q, s) \<Rightarrow> (True, x\<lparr>mx_serv := s, mx_routes := (mx_routes x)(p \<mapsto> q)\<rparr>))"

definition mx_close :: "addr \<Rightarrow> (msim, unit) state" where
  "mx_close p = State (\<lambda>x. case mx_routes x p of None \<Rightarrow> ((), x)
     | Some q \<Rightarrow> ((), x\<lparr>mx_serv := final (message_destroy_session mx_dispatch q) (mx_serv x), mx_routes := (mx_routes x)(p := None)\<rparr>))"

definition msim_client :: "msim genode" where
  "msim_client = lift_genode mx_client (\<lambda>w. mx_client_update (\<lambda>_. w)) gsim_genode"

definition msim_genode :: "msim genode" where
  "msim_genode = msim_client\<lparr>
     g_destroy := (\<lambda>p. do { g_destroy msim_client p; mx_close p }),
     g_signal_handler := (\<lambda>p. if p + 1 = 0 then ret None else g_signal_handler msim_client p),
     g_connection := mx_open,
     g_disconnect := mx_close,
     g_rpc_sigh := (\<lambda>p sig. mx_rpc p (\<lambda>q. do { ok \<leftarrow> message_component_sigh q sig; ret (Some ok) }) False),
     g_rpc_write := (\<lambda>p d. mx_rpc p (\<lambda>q. do { message_component_write mx_receive q d; ret (Some ()) }) ()),
     g_rpc_read := (\<lambda>p. mx_rpc p (message_component_read list_queue) []),
     g_rpc_avail := (\<lambda>p. mx_rpc p (message_component_avail list_queue) False)
   \<rparr>"

lemmas msim_defs = msim_genode_def msim_client_def lift_genode_def

lemma at_client_apart: "keeps (\<lambda>x. (mx_serv x, mx_routes x)) (at_part mx_client (\<lambda>w. mx_client_update (\<lambda>_. w)) m)"
  by (simp add: keeps_def at_part_def split: prod.splits)

interpretation msim_code: message_component_code list_queue "\<lambda>q. q" 10 gsim_genode gs_impl
  "\<lambda>w. echo (received (gs_trace w))" "\<lambda>w. received (gs_trace w)" "\<lambda>w. submitted (gs_trace w)" echo
  by unfold_locales (simp_all add: gs_impl_def gsim_genode_def gs_log_def wp_def received_append submitted_append)

interpretation msim_rpc: message_rpc list_queue mx_receive msim_genode mx_serv "\<lambda>s. mx_serv_update (\<lambda>_. s)" mx_routes
  by unfold_locales (auto simp: msim_defs mx_rpc_def wp_def)

interpretation msim_exchange: message_exchange list_queue "\<lambda>q. q" 10 gsim_genode gs_impl
  "\<lambda>w. echo (received (gs_trace w))" "\<lambda>w. received (gs_trace w)" "\<lambda>w. submitted (gs_trace w)" echo
  msim_genode mx_serv "\<lambda>s. mx_serv_update (\<lambda>_. s)" mx_routes
  by (rule message_exchange.intro [OF msim_code.message_component_code_axioms
        msim_rpc.message_rpc_axioms [unfolded mx_receive_def]])

interpretation msim_link: message_link list_queue mx_receive msim_genode mx_serv "\<lambda>s. mx_serv_update (\<lambda>_. s)" mx_routes
  gsim_genode gsim_heap "0x400" gs_impl 64 mx_dispatcher sa_label
proof unfold_locales
  fix p sig and x :: msim
  assume "result (g_signal_handler msim_genode p) x = Some sig"
  then show "g_signal_valid gsim_genode sig"
    by (auto simp: msim_defs at_part_def gsim_genode_def gs_try_def split: prod.splits if_splits)
next
  fix x :: msim and p q :: addr
  assume "mx_routes x p = Some q"
  then show "wp (g_disconnect msim_genode p) (\<lambda>_ x'. mx_serv x' = final (message_destroy_session mx_dispatch q) (mx_serv x) \<and>
      mx_routes x' = (mx_routes x)(p := None)) x"
    by (simp add: msim_defs mx_close_def wp_def)
next
  fix x :: msim and p q :: addr
  assume "mx_routes x p = Some q"
  then show "wp (g_destroy msim_genode p) (\<lambda>_ x'. mx_serv x' = final (message_destroy_session mx_dispatch q) (mx_serv x) \<and>
      mx_routes x' = (mx_routes x)(p := None)) x"
    by (simp add: msim_defs at_part_def mx_close_def wp_def split: prod.splits)
next
  fix p a and x :: msim
  show "wp (g_connection msim_genode p message_service_name a) (\<lambda>ok x'.
      (\<not> ok \<and> mx_serv x' = mx_serv x \<and> mx_routes x' = mx_routes x) \<or>
      (\<exists>r. run_state (message_create_session gsim_genode 64 mx_dispatch (sa_label a)) (mx_serv x) = (r, mx_serv x') \<and>
        (case r of Inl _ \<Rightarrow> \<not> ok \<and> mx_routes x' = mx_routes x | Inr q \<Rightarrow> ok \<and> mx_routes x' = (mx_routes x)(p \<mapsto> q)))) x"
    by (auto simp: msim_defs mx_open_def wp_def split: prod.splits sum.splits)
next
  fix x :: msim and p q :: addr and sig
  assume "mx_routes x p = Some q"
  then show "wp (g_rpc_sigh msim_genode p sig) (\<lambda>ok x'. mx_routes x' = mx_routes x \<and>
      (if ok then run_state (message_component_sigh q sig) (mx_serv x) = (True, mx_serv x') else mx_serv x' = mx_serv x)) x"
    by (auto simp: msim_defs mx_rpc_def message_component_sigh_def wp_def State_Monad.get_def split: prod.splits option.splits)
qed (auto simp: msim_defs intro!: at_client_apart keeps_return)

text \<open>A fresh pair of components, and the client after its initialization.\<close>

definition msim_start :: msim where
  "msim_start = \<lparr> mx_client = gsim_init, mx_serv = \<lparr> sv_world = gsim_init\<lparr>gs_up := True\<rparr>, sv_root = 0x100, sv_env = 0x200,
     sv_index = Some 1, sv_dispatch = 0x300, sv_accepted = 0,
     sv_servers = (\<lambda>_. \<lparr>gsv_component = null, gsv_index = None, gsv_cache = []\<rparr>), sv_components = (\<lambda>_. None) \<rparr>,
     mx_routes = (\<lambda>_. None) \<rparr>"

definition msim_init :: "(msim, message_client) state" where
  "msim_init = Message_Client_Initialize msim_genode 0x400 0x500 ''init>msg'' 1 message_client_new"

subsection \<open>Properties\<close>

text \<open>
  C24. A Message session on Genode connects the two components: when \<open>Initialize\<close> of the client succeeds, its
  connection leads to the session component of an initialized server, whose signals go to the client's handler,
  and a signal calls the client's \<open>Event\<close> procedure; \<open>Finalize\<close> ends the session at the server, which frees the
  server for the next client if the component's dispatcher cleans it up. Whatever fails on the way, the server
  stays consistent.
\<close>

theorem message_session_established:
  assumes "message_link B recv Gc serv put_serv route G fheap cb I sz D args"
    and "message_service_ok fheap (serv x)" and "\<not> Message_Client_Initialized c"
  shows "wp (Message_Client_Initialize Gc event self l idx c) (\<lambda>c' x'. message_service_ok fheap (serv x') \<and>
    (Message_Client_Initialized c' \<longrightarrow> (\<exists>p m q i sig. msc_object c' = Some (p, m) \<and> route x' p = Some q \<and>
       Message_Server_Initialized (sv_servers (serv x') i) \<and> bound q i sig (serv x') \<and> g_signal_valid G sig \<and>
       (\<forall>call clients. message_connection_signal call (clients(self := c')) m = call event) \<and>
       wp (Message_Client_Finalize Gc c') (\<lambda>c'' x''. \<not> Message_Client_Initialized c'' \<and> message_service_ok fheap (serv x'') \<and>
         route x'' p = None \<and> (D_Cleanup i \<in> set (D q [] []) \<longrightarrow>
           \<not> Message_Server_Initialized (sv_servers (serv x'') i) \<and> sv_components (serv x'') q = None)) x'))) x"
proof (rule wp_mono [OF message_link.Message_Client_established [OF assms]], goal_cases)
  case (1 c' x')
  show ?case
  proof (intro conjI impI)
    show "message_service_ok fheap (serv x')" using 1 by simp
    assume ini: "Message_Client_Initialized c'"
    with 1 obtain p q i sig where e: "msc_event c' = event"
      "msc_object c' = Some (p, \<lparr> mcn_event_sigh = Event, mcn_client = self \<rparr>)"
      "message_link.attached serv route fheap p q i x'" "g_signal_valid G sig" "bound q i sig (serv x')"
      by (auto simp: message_link.established_def [OF assms(1)])
    from message_link.Message_Client_closed [OF assms(1) ini, of q i x'] e
    show "\<exists>p m q i sig. msc_object c' = Some (p, m) \<and> route x' p = Some q \<and>
       Message_Server_Initialized (sv_servers (serv x') i) \<and> bound q i sig (serv x') \<and> g_signal_valid G sig \<and>
       (\<forall>call clients. message_connection_signal call (clients(self := c')) m = call event) \<and>
       wp (Message_Client_Finalize Gc c') (\<lambda>c'' x''. \<not> Message_Client_Initialized c'' \<and> message_service_ok fheap (serv x'') \<and>
         route x'' p = None \<and> (D_Cleanup i \<in> set (D q [] []) \<longrightarrow>
           \<not> Message_Server_Initialized (sv_servers (serv x'') i) \<and> sv_components (serv x'') q = None)) x'"
      by (intro exI [of _ p] exI [of _ "\<lparr> mcn_event_sigh = Event, mcn_client = self \<rparr>"] exI [of _ q] exI [of _ i] exI [of _ sig])
        (simp add: message_link.attached_def [OF assms(1)] message_connection_signal_def message_connection_event_def)
  qed
qed

theorem message_session_established_witness:
  "Message_Client_Initialized (result msim_init msim_start) \<and>
   (\<exists>q i. mx_routes (final msim_init msim_start) (msc_connection (result msim_init msim_start)) = Some q \<and>
      Message_Server_Initialized (sv_servers (mx_serv (final msim_init msim_start)) i))"
proof
  show ini: "Message_Client_Initialized (result msim_init msim_start)"
    by code_simp
  have ok: "message_service_ok gsim_heap (mx_serv msim_start)"
    by (auto simp: service_ok_def msim_start_def gsim_heap_def gsim_init_def Message_Server_Initialized_def)
  have new: "\<not> Message_Client_Initialized message_client_new"
    by code_simp
  from message_session_established [OF msim_link.message_link_axioms ok new, of "0x400" "0x500" "''init>msg''" 1] ini
  show "\<exists>q i. mx_routes (final msim_init msim_start) (msc_connection (result msim_init msim_start)) = Some q \<and>
      Message_Server_Initialized (sv_servers (mx_serv (final msim_init msim_start)) i)"
    by (auto simp: wp_run msim_init_def)
qed

text \<open>
  C23. A Message client and server on Genode, connected, are a pair of channels: for any interleaving of messages
  that the server sends, messages that the client writes and the server's \<open>Receive\<close> answers with further messages,
  and polling reads of the client, every message of the client reaches \<open>Receive\<close> once and in order, and what the
  client reads is what a bounded first-in first-out queue gives that drops messages for a full queue. The client
  misses nothing as long as no more is queued and offered than the queue holds, and gets one signal for each message
  that is queued.
\<close>

theorem message_exchange_refines:
  assumes "message_exchange B elems capacity G I R heard signals rep Gc serv put_serv route"
    and "route x (msc_connection c) = Some q" and "bound q i sig (serv x)" and "g_signal_valid G sig"
  shows "wp (run_exchange G B serv put_serv Gc i c ops) (\<lambda>got x'.
     (got, exchange_of elems heard signals i (serv x')) =
        exchange_run capacity sig rep ops (exchange_of elems heard signals i (serv x)) \<and>
     heard (sv_world (serv x')) = heard (sv_world (serv x)) @ written ops \<and>
     (\<exists>acc. delivers sig (exchange_of elems heard signals i (serv x)) got acc (exchange_of elems heard signals i (serv x')) \<and>
        subseq acc (offered rep (heard (sv_world (serv x))) ops) \<and>
        (length (elems (gsv_cache (sv_servers (serv x) i))) + length (offered rep (heard (sv_world (serv x))) ops) \<le> capacity \<longrightarrow>
           acc = offered rep (heard (sv_world (serv x))) ops))) x"
proof -
  have "message_exchange.linked G serv route (msc_connection c) i sig x"
    using assms(2-4) by (auto simp: message_exchange.linked_def [OF assms(1)])
  from message_exchange.run_exchange_refines [OF assms(1) this, of ops] show ?thesis
  proof (rule wp_mono, goal_cases)
    case (1 got x')
    then have run: "exchange_run capacity sig rep ops (exchange_of elems heard signals i (serv x)) =
        (got, exchange_of elems heard signals i (serv x'))" by simp
    from exchange_run_delivers [OF run] run show ?case by (simp add: exchange_of_def) blast
  qed
qed

text \<open>A run: two messages of the server, and one of the client that is echoed.\<close>

definition msim_ops :: "exchange_op list" where
  "msim_ops = [X_Poll, X_Send [1], X_Write [7], X_Poll, X_Poll, X_Send [2], X_Poll, X_Poll]"

theorem message_exchange_refines_witness:
  "result (run_exchange gsim_genode list_queue mx_serv (\<lambda>s. mx_serv_update (\<lambda>_. s)) msim_genode 2
      (result msim_init msim_start) msim_ops) (final msim_init msim_start) = [[1], [7], [2]]"
proof -
  have h: "mx_routes (final msim_init msim_start) (msc_connection (result msim_init msim_start)) = Some 16"
    "bound 16 2 17 (mx_serv (final msim_init msim_start))" "g_signal_valid gsim_genode 17"
    by code_simp+
  have "fst (exchange_run 10 17 echo msim_ops (exchange_of (\<lambda>q. q) (\<lambda>w. received (gs_trace w)) (\<lambda>w. submitted (gs_trace w)) 2
      (mx_serv (final msim_init msim_start)))) = [[1], [7], [2]]"
    by code_simp
  with message_exchange_refines [OF msim_exchange.message_exchange_axioms h, of msim_ops] show ?thesis
    by (auto simp: wp_run dest: arg_cong [where f = fst])
qed

end
