(* ===== verification/Genode_Log_Exchange.thy ===== *)
theory Genode_Log_Exchange
  imports Genode_Log Genode_Log_Server
begin

text \<open>
  A Log client and a Log server on Genode, composed: the text that a component prints reaches the \<open>Write\<close> procedure of
  the server component. The LOG session of Genode transfers strings of less than \<open>MAX_STRING_LEN\<close> characters, which is
  why the client cuts its output into slices.
\<close>

definition MAX_STRING_LEN :: nat where
  "MAX_STRING_LEN = 233"

text \<open>
  \<open>serv\<close> is the server's part of the world, \<open>route\<close> the session component at the other end of the connection
  at an address, and \<open>noted i\<close> the strings that \<open>Write\<close> of server \<open>i\<close> was called with.
\<close>

locale log_link = slicer L at
  for L :: "'s basalt_slicer" and at :: "'s \<Rightarrow> nat \<Rightarrow> nat \<Rightarrow> nat \<Rightarrow> nat \<Rightarrow> bool" +
  fixes Gc :: "'x genode"
    and serv :: "'x \<Rightarrow> 'w log_service"
    and route :: "'x \<Rightarrow> addr \<Rightarrow> addr option"
    and I :: "'w server_impl"
    and noted :: "nat \<Rightarrow> 'w \<Rightarrow> string list"
  assumes rpc_write_law: "route x p = Some q \<Longrightarrow> sv_components (serv x) q = Some c \<Longrightarrow> length m < MAX_STRING_LEN \<Longrightarrow>
      wp (g_log_write Gc p m) (\<lambda>_ x'. route x' = route x \<and> (\<exists>garbage.
        serv x' = (serv x)\<lparr>sv_world := final (log_component_write I c garbage m) (sv_world (serv x))\<rparr>)) x"
    and noted_law: "wp (si_write I i t) (\<lambda>_ w'. noted i w' = noted i w @ [t]) w"
begin

definition logging :: "nat \<Rightarrow> addr \<Rightarrow> 'x \<Rightarrow> bool" where
  "logging i p x \<longleftrightarrow> (\<exists>q c. route x p = Some q \<and> sv_components (serv x) q = Some c \<and> lcp_server c = i)"

lemma log_component_write_noted:
  "noted (lcp_server c) (final (log_component_write I c garbage m) w) = noted (lcp_server c) w @ [m]"
  using noted_law [of "lcp_server c" m w]
  by (simp add: log_component_write_def log_genode_write_def wp_def split: prod.splits)

lemma log_write_noted:
  assumes "logging i p x" and "length m \<le> Maximum_Message_Length"
  shows "wp (g_log_write Gc p m) (\<lambda>_ x'. logging i p x' \<and>
     noted i (sv_world (serv x')) = noted i (sv_world (serv x)) @ [m]) x"
proof -
  from assms(1) obtain q c where q: "route x p = Some q" "sv_components (serv x) q = Some c" "lcp_server c = i"
    by (auto simp: logging_def)
  have m: "length m < MAX_STRING_LEN"
    using assms(2) by (simp add: Maximum_Message_Length_def MAX_STRING_LEN_def)
  show ?thesis
    by (rule wp_mono [OF rpc_write_law [OF q(1,2) m]])
      (use q log_component_write_noted [of c] in \<open>auto simp: logging_def\<close>)
qed

end

sublocale log_link \<subseteq> sink: log_sink L at Gc "logging i" "\<lambda>x. noted i (sv_world (serv x))" for i
  by unfold_locales (rule log_write_noted)

context log_link
begin

lemmas output_noted = sink.run_log_ops_flush

end

subsection \<open>An executable pair\<close>

definition log_pair_genode :: "gsim log_service genode" where
  "log_pair_genode = (lift_genode sv_world (\<lambda>w. sv_world_update (\<lambda>_. w)) gsim_genode)\<lparr>
     g_log_write := (\<lambda>p m. do {
       s \<leftarrow> getS;
       case sv_components s p of None \<Rightarrow> ret ()
       | Some c \<Rightarrow> do { in_world (log_component_write gs_impl c 0 m); ret () }
     }) \<rparr>"

interpretation log_pair: log_link ref_slicer ref_at log_pair_genode "\<lambda>s. s" "\<lambda>_. Some" gs_impl "\<lambda>_. gs_written"
proof unfold_locales
  fix x :: "gsim log_service" and p q :: addr and c m
  assume "Some p = Some q" "sv_components x q = Some c"
  then show "wp (g_log_write log_pair_genode p m) (\<lambda>_ x'. Some = Some \<and>
      (\<exists>garbage. x' = x\<lparr>sv_world := final (log_component_write gs_impl c garbage m) (sv_world x)\<rparr>)) x"
    by (auto simp: log_pair_genode_def wp_simps wp_run)
qed (simp add: gs_impl_def gs_log_def gs_written_def wp_def map_filter_def)

subsection \<open>Properties\<close>

text \<open>
  C25. Log output on Genode arrives: whatever sequence of \<open>Print\<close>, \<open>Info\<close>, \<open>Warning\<close>, \<open>Error\<close> and \<open>Flush\<close> calls a
  component makes, after a final \<open>Flush\<close> the strings with which \<open>Write\<close> of the Log server was called concatenate to
  what had been buffered followed by the texts of the calls, in order and complete: the slices are short enough for the
  session, and the server passes each of them on unchanged.
\<close>

theorem log_output_delivered:
  assumes "log_link L at Gc serv route I noted" and "log_ok c"
    and "\<forall>op \<in> set ops. CHR 0x00 \<notin> set (log_arg op)"
    and "route x (lc_session c) = Some q" and "sv_components (serv x) q = Some k" and "lcp_server k = i"
  shows "wp (do { c \<leftarrow> run_log_ops Gc L ops c; Log_Flush Gc L c }) (\<lambda>_ x'.
     \<exists>ms. noted i (sv_world (serv x')) = noted i (sv_world (serv x)) @ ms \<and>
       concat ms = buffered c @ concat (map log_text ops)) x"
proof -
  have "log_link.logging serv route i (lc_session c) x"
    using assms(4-6) by (auto simp: log_link.logging_def [OF assms(1)])
  from log_link.output_noted [OF assms(1-3) this] show ?thesis
    by (rule wp_mono) auto
qed

theorem log_output_delivered_witness:
  "wp (do { c \<leftarrow> run_log_ops log_pair_genode ref_slicer [Op_Info 1 ''hello'' True, Op_Error 5 ''x'' False] sample_log;
            Log_Flush log_pair_genode ref_slicer c }) (\<lambda>_ x'.
     \<exists>ms. gs_written (sv_world x') = gs_written (sv_world sample_log_session) @ ms \<and>
       concat ms = buffered sample_log @ concat (map log_text [Op_Info 1 ''hello'' True, Op_Error 5 ''x'' False]))
     sample_log_session"
proof -
  have c: "log_ok sample_log"
    by (simp add: log_ok_def sample_log_def buffered_def)
  have s: "Some (lc_session sample_log) = Some 16" "sv_components sample_log_session 16 = Some (log_component_new 2)"
    "lcp_server (log_component_new 2) = 2"
    by (simp_all add: sample_log_def sample_log_session_def)
  show ?thesis
    by (rule log_output_delivered [OF log_pair.log_link_axioms c _ s]) simp
qed

end
