(* ===== verification/Genode_Block.thy ===== *)
theory Genode_Block
  imports Genode_Reference "HOL-Library.Multiset"
begin

text \<open>
  The Block client on Genode: \<open>block/client/genode/block_client.cc\<close> and the Ada body
  \<open>Gneiss.Block.Client\<close>. The packet stream of the Block session (\<open>Block::Connection\<close>) is
  Genode code: the parameter \<open>K\<close>, one field per call.
\<close>

subsection \<open>Packets and the packet stream\<close>

record packet =
  pk_offset :: int
  pk_bytes :: u64
  pk_opcode :: int
  pk_tag :: u64
  pk_block_number :: u64
  pk_block_count :: u64

record block_info =
  bi_block_size :: u64
  bi_block_count :: u64
  bi_writeable :: bool

record 'w packet_stream =
  ps_READ :: int
  ps_WRITE :: int
  ps_connect :: "addr \<Rightarrow> u64 \<Rightarrow> string \<Rightarrow> ('w, bool) state"
  ps_sigh_ack_avail :: "addr \<Rightarrow> u64 \<Rightarrow> ('w, unit) state"
  ps_sigh_ready_to_submit :: "addr \<Rightarrow> u64 \<Rightarrow> ('w, unit) state"
  ps_avail :: "addr \<Rightarrow> ('w, u64) state"
  ps_info :: "addr \<Rightarrow> ('w, block_info) state"
  ps_alloc_packet :: "addr \<Rightarrow> u64 \<Rightarrow> ('w, (int \<times> u64) option) state"
  ps_ack_avail :: "addr \<Rightarrow> ('w, bool) state"
  ps_get_acked :: "addr \<Rightarrow> ('w, packet) state"
  ps_succeeded :: "packet \<Rightarrow> bool"
  ps_submit :: "addr \<Rightarrow> packet \<Rightarrow> ('w, unit) state"
  ps_content :: "addr \<Rightarrow> packet \<Rightarrow> ('w, addr) state"
  ps_release :: "addr \<Rightarrow> packet \<Rightarrow> ('w, unit) state"

subsection \<open>\<open>Cai::Block::Client\<close>\<close>

text \<open>
  \<open>Block_session\<close>: heap, allocator and connection are framework objects at its address, \<open>_event\<close> is a
  signal handler and the client whose method it calls.
\<close>

record block_session =
  bse_event :: u64
  bse_client :: addr

record gblock_client =
  gb_block_count :: u64
  gb_block_size :: u64
  gb_object :: "(addr \<times> block_session) option"
  gb_callback :: addr
  gb_rw :: addr
  gb_env :: addr
  gb_tag :: "nat option"

abbreviation gb_device :: "gblock_client \<Rightarrow> addr" where
  "gb_device c \<equiv> ptr (gb_object c)"

definition gblock_client_new :: gblock_client where
  "gblock_client_new = \<lparr> gb_block_count = 0, gb_block_size = 0, gb_object = None, gb_callback = null,
     gb_rw = null, gb_env = null, gb_tag = None \<rparr>"

text \<open>
  The constructor connects, creates the handler and registers it for both signals of the packet
  stream; a handler that cannot be created ends the connection. \<open>block\<close> is the connection,
  \<open>callback\<close> the client's method.
\<close>

definition block_session_ctor ::
  "'w genode \<Rightarrow> 'w packet_stream \<Rightarrow> u64 \<Rightarrow> string \<Rightarrow> addr \<Rightarrow> addr \<Rightarrow> ('w, block_session option) state" where
  "block_session_ctor G K buf_size device client p = do {
     ok \<leftarrow> ps_connect K p buf_size device;
     if \<not> ok then ret None
     else do {
       h \<leftarrow> g_signal_handler G p;
       case h of None \<Rightarrow> do { g_disconnect G p; ret None }
       | Some event \<Rightarrow> do {
           ps_sigh_ack_avail K p event;
           ps_sigh_ready_to_submit K p event;
           ret (Some \<lparr> bse_event = event, bse_client = client \<rparr>)
         }
     }
   }"

definition block_session_available :: "'w packet_stream \<Rightarrow> addr \<Rightarrow> ('w, u64) state" where
  "block_session_available K p = ps_avail K p"

definition block_session_block :: "addr \<Rightarrow> addr" where
  "block_session_block p = p"

definition blk :: "addr \<Rightarrow> addr" where
  "blk device = block_session_block device"

lemma blk_id [simp]: "blk device = device"
  by (simp add: blk_def block_session_block_def)

definition gblock_callback :: "(addr \<Rightarrow> ('w, unit) state) \<Rightarrow> gblock_client \<Rightarrow> ('w, unit) state" where
  "gblock_callback call c = call (gb_callback c)"

text \<open>A signal at the session's handler calls \<open>callback\<close> of its client; \<open>clients\<close> are the objects by address.\<close>

definition block_session_signal ::
  "(addr \<Rightarrow> ('w, unit) state) \<Rightarrow> (addr \<Rightarrow> gblock_client) \<Rightarrow> block_session \<Rightarrow> ('w, unit) state" where
  "block_session_signal call clients b = gblock_callback call (clients (bse_client b))"

text \<open>\<open>self\<close> is the address of the client object (\<open>this\<close>), a null device name is the empty string.\<close>

definition gblock_initialize ::
  "'w genode \<Rightarrow> 'w packet_stream \<Rightarrow> addr \<Rightarrow> addr \<Rightarrow> string option \<Rightarrow> addr \<Rightarrow> addr \<Rightarrow> u64 \<Rightarrow> gblock_client \<Rightarrow> ('w, gblock_client) state" where
  "gblock_initialize G K self env device callback rw buffer_size c = do {
     let buf_size = (if buffer_size \<noteq> 0 then buffer_size else 128 * 1024);
     let c = c\<lparr>gb_callback := callback, gb_rw := rw, gb_env := env\<rparr>;
     check_factory G;
     s \<leftarrow> create G ''Block_session''
       (block_session_ctor G K buf_size (case device of None \<Rightarrow> [] | Some d \<Rightarrow> d) self);
     let c = c\<lparr>gb_object := s\<rparr>;
     if gb_device c \<noteq> null then do {
       i \<leftarrow> ps_info K (blk (gb_device c));
       j \<leftarrow> ps_info K (blk (gb_device c));
       ret (c\<lparr>gb_block_size := bi_block_size i, gb_block_count := bi_block_count j\<rparr>)
     } else ret c
   }"

definition gblock_finalize :: "'w genode \<Rightarrow> gblock_client \<Rightarrow> ('w, gblock_client) state" where
  "gblock_finalize G c = do {
     destroy_void G (gb_device c);
     ret (c\<lparr>gb_block_count := 0, gb_block_size := 0, gb_object := None, gb_callback := null,
            gb_rw := null, gb_env := null\<rparr>)
   }"

definition gblock_allocate_request ::
  "'w packet_stream \<Rightarrow> gblock_client \<Rightarrow> packet \<Rightarrow> int \<Rightarrow> u64 \<Rightarrow> u64 \<Rightarrow> u64 \<Rightarrow> ('w, packet \<times> int) state" where
  "gblock_allocate_request K c packet opcode start len tag =
     (if opcode = ps_READ K \<or> opcode = ps_WRITE K then do {
        a \<leftarrow> ps_alloc_packet K (blk (gb_device c)) (gb_block_size c * len);
        ret (case a of Some (off, n) \<Rightarrow> (\<lparr> pk_offset = off, pk_bytes = n, pk_opcode = opcode, pk_tag = tag,
                                        pk_block_number = start, pk_block_count = len \<rparr>, 0)
             | None \<Rightarrow> (packet, 1))
      } else ret (packet, 0))"

text \<open>The out-parameters \<open>*tag\<close> and \<open>*success\<close> are written only with status 1.\<close>

definition gblock_update_response_queue ::
  "'w packet_stream \<Rightarrow> gblock_client \<Rightarrow> ('w, int \<times> (u64 \<times> int) option) state" where
  "gblock_update_response_queue K c = do {
     a \<leftarrow> ps_ack_avail K (blk (gb_device c));
     if a then do {
       p \<leftarrow> ps_get_acked K (blk (gb_device c));
       ret (1, Some (pk_tag p, of_bool (ps_succeeded K p)))
     } else ret (0, None)
   }"

definition gblock_enqueue :: "'w packet_stream \<Rightarrow> gblock_client \<Rightarrow> packet \<Rightarrow> ('w, unit) state" where
  "gblock_enqueue K c p = ps_submit K (blk (gb_device c)) p"

definition gblock_submit :: "('w, unit) state" where
  "gblock_submit = ret ()"

definition gblock_read_write ::
  "'w packet_stream \<Rightarrow> gblock_client \<Rightarrow> (int \<Rightarrow> u64 \<Rightarrow> u64 \<Rightarrow> addr \<Rightarrow> ('w, unit) state) \<Rightarrow> packet \<Rightarrow> ('w, unit) state" where
  "gblock_read_write K c rw p = do {
     d \<leftarrow> ps_content K (blk (gb_device c)) p;
     rw (pk_opcode p) (pk_tag p) (pk_block_count p) d
   }"

definition gblock_release :: "'w packet_stream \<Rightarrow> gblock_client \<Rightarrow> packet \<Rightarrow> ('w, unit) state" where
  "gblock_release K c p = whenM (pk_opcode p = ps_READ K \<or> pk_opcode p = ps_WRITE K) (ps_release K (blk (gb_device c)) p)"

definition gblock_writable :: "'w packet_stream \<Rightarrow> gblock_client \<Rightarrow> ('w, bool) state" where
  "gblock_writable K c = do {
     i \<leftarrow> ps_info K (blk (gb_device c));
     ret (bi_writeable i)
   }"

definition gblock_block_count :: "gblock_client \<Rightarrow> u64" where
  "gblock_block_count c = gb_block_count c"

definition gblock_block_size :: "gblock_client \<Rightarrow> u64" where
  "gblock_block_size c = gb_block_size c"

subsection \<open>\<open>Gneiss.Block.Client\<close>\<close>

datatype gb_kind = GB_None | GB_Read | GB_Write | GB_Sync | GB_Trim | GB_Undefined
datatype gb_status = GB_Raw | GB_Allocated | GB_Pending | GB_Ok | GB_Error
datatype gb_result = GB_Success | GB_Retry | GB_Out_Of_Memory | GB_Unsupported

record gb_request =
  gr_packet :: packet
  gr_status :: gb_status
  gr_session :: "nat option"

definition GBlock_Kind :: "gb_request \<Rightarrow> gb_kind" where
  "GBlock_Kind r = (if pk_opcode (gr_packet r) = 0 then GB_Read else if pk_opcode (gr_packet r) = 1 then GB_Write
     else if pk_opcode (gr_packet r) = 2 then GB_Sync else if pk_opcode (gr_packet r) = 3 then GB_Trim else GB_None)"

definition GBlock_Assigned :: "gblock_client \<Rightarrow> gb_request \<Rightarrow> bool" where
  "GBlock_Assigned c r \<longleftrightarrow> gb_tag c = gr_session r"

definition gb_opcode :: "gb_kind \<Rightarrow> int" where
  "gb_opcode k = (case k of GB_Read \<Rightarrow> 0 | GB_Write \<Rightarrow> 1 | GB_Sync \<Rightarrow> 2 | GB_Trim \<Rightarrow> 3 | _ \<Rightarrow> - 1)"

definition GBlock_Allocate_Request ::
  "'w packet_stream \<Rightarrow> gblock_client \<Rightarrow> gb_request \<Rightarrow> gb_kind \<Rightarrow> u64 \<Rightarrow> u64 \<Rightarrow> u64 \<Rightarrow> ('w, gb_request \<times> gb_result) state" where
  "GBlock_Allocate_Request K c r k start len i = do {
     let r = r\<lparr>gr_packet := (gr_packet r)\<lparr>pk_block_count := 0\<rparr>, gr_session := gb_tag c\<rparr>;
     x \<leftarrow> gblock_allocate_request K c (gr_packet r) (gb_opcode k) start len i;
     let r = r\<lparr>gr_packet := fst x\<rparr>;
     ret (if 0 < pk_block_count (gr_packet r) \<and> snd x = 0 then (r\<lparr>gr_status := GB_Allocated\<rparr>, GB_Success)
          else (r, if snd x = 1 then GB_Out_Of_Memory else GB_Unsupported))
   }"

text \<open>
  A slot of the handle cache \<open>H_Cache\<close>: \<open>None\<close> if not valid, else tag and success. The cache
  is a package variable of 128 slots.
\<close>

type_synonym handle = "(u64 \<times> bool) option"

definition GBlock_Update_Response_Queue ::
  "'w packet_stream \<Rightarrow> gblock_client \<Rightarrow> handle \<Rightarrow> ('w, handle) state" where
  "GBlock_Update_Response_Queue K c h =
     (case h of Some _ \<Rightarrow> ret h
      | None \<Rightarrow> do {
          x \<leftarrow> gblock_update_response_queue K c;
          ret (if fst x = 1 then map_option (\<lambda>(tag, succ). (tag, succ = 1)) (snd x) else None)
        })"

fun GBlock_Update_loop ::
  "'w packet_stream \<Rightarrow> gblock_client \<Rightarrow> gb_request \<Rightarrow> handle list \<Rightarrow> ('w, gb_request \<times> handle list) state" where
  "GBlock_Update_loop K c r [] = ret (r, [])"
| "GBlock_Update_loop K c r (h # hs) = do {
     h \<leftarrow> GBlock_Update_Response_Queue K c h;
     case h of
       Some (tag, ok) \<Rightarrow>
         if tag = pk_tag (gr_packet r) then do {
           (r, hs) \<leftarrow> GBlock_Update_loop K c (r\<lparr>gr_status := if ok then GB_Ok else GB_Error\<rparr>) hs;
           ret (r, None # hs)
         } else do {
           (r, hs) \<leftarrow> GBlock_Update_loop K c r hs;
           ret (r, h # hs)
         }
     | None \<Rightarrow> do {
         (r, hs) \<leftarrow> GBlock_Update_loop K c r hs;
         ret (r, None # hs)
       }
   }"

definition GBlock_Update_Request ::
  "'w packet_stream \<Rightarrow> gblock_client \<Rightarrow> gb_request \<Rightarrow> handle list \<Rightarrow> ('w, gb_request \<times> handle list) state" where
  "GBlock_Update_Request K c r cache = GBlock_Update_loop K c r cache"

definition GBlock_Initialized :: "gblock_client \<Rightarrow> bool" where
  "GBlock_Initialized c \<longleftrightarrow> gb_device c \<noteq> null \<and> gb_callback c \<noteq> null \<and> gb_rw c \<noteq> null \<and> gb_env c \<noteq> null \<and>
     gb_tag c \<noteq> None"

definition GBlock_Initialize ::
  "'w genode \<Rightarrow> 'w packet_stream \<Rightarrow> addr \<Rightarrow> addr \<Rightarrow> addr \<Rightarrow> addr \<Rightarrow> string \<Rightarrow> nat \<Rightarrow> u64 \<Rightarrow> gblock_client \<Rightarrow> ('w, gblock_client) state" where
  "GBlock_Initialize G K self cap event crw path tag buffer_size c =
     (if GBlock_Initialized c then ret c
      else do {
        c \<leftarrow> gblock_initialize G K self cap (Some (takeWhile (\<lambda>x. x \<noteq> CHR 0x00) path)) event crw buffer_size c;
        ret (if gb_device c \<noteq> null \<and> gb_callback c \<noteq> null \<and> gb_rw c \<noteq> null \<and> gb_env c \<noteq> null
             then c\<lparr>gb_tag := Some tag\<rparr> else c)
      })"

definition GBlock_Finalize :: "'w genode \<Rightarrow> gblock_client \<Rightarrow> ('w, gblock_client) state" where
  "GBlock_Finalize G c = (if \<not> GBlock_Initialized c then ret c else gblock_finalize G c)"

definition GBlock_Enqueue :: "'w packet_stream \<Rightarrow> gblock_client \<Rightarrow> gb_request \<Rightarrow> ('w, gb_request) state" where
  "GBlock_Enqueue K c r = do {
     gblock_enqueue K c (gr_packet r);
     ret (r\<lparr>gr_status := GB_Pending\<rparr>)
   }"

definition GBlock_Release :: "'w packet_stream \<Rightarrow> gblock_client \<Rightarrow> gb_request \<Rightarrow> ('w, gb_request) state" where
  "GBlock_Release K c r = do {
     gblock_release K c (gr_packet r);
     ret (r\<lparr>gr_status := GB_Raw\<rparr>)
   }"

subsection \<open>Acknowledgements are neither lost nor duplicated\<close>

text \<open>The acknowledgement queue of the session: \<open>acks w\<close> are its packets, oldest first.\<close>

definition cached :: "handle list \<Rightarrow> (u64 \<times> bool) list" where
  "cached hs = concat (map (case_option [] (\<lambda>x. [x])) hs)"

lemma cached_simps [simp]:
  "cached [] = []" "cached (None # hs) = cached hs" "cached (Some x # hs) = x # cached hs"
  by (simp_all add: cached_def)

definition response :: "'w packet_stream \<Rightarrow> packet \<Rightarrow> u64 \<times> bool" where
  "response K p = (pk_tag p, ps_succeeded K p)"

text \<open>
  What \<open>Update_Request\<close> does with the acknowledgements: \<open>taken\<close> are those it took from the
  session, \<open>used\<close> those it consumed for the request, in the order of the slots.
\<close>

definition updated ::
  "'w packet_stream \<Rightarrow> gb_request \<Rightarrow> handle list \<Rightarrow> packet list \<Rightarrow> gb_request \<Rightarrow> handle list \<Rightarrow> packet list \<Rightarrow> bool" where
  "updated K r hs A r' hs' A' \<longleftrightarrow> (\<exists>taken used. A = taken @ A' \<and>
     mset (cached hs') + mset used = mset (cached hs) + mset (map (response K) taken) \<and>
     (\<forall>u \<in> set used. fst u = pk_tag (gr_packet r)) \<and>
     (\<forall>x \<in> set (cached hs'). fst x \<noteq> pk_tag (gr_packet r)) \<and>
     r' = (if used = [] then r else r\<lparr>gr_status := if snd (last used) then GB_Ok else GB_Error\<rparr>) \<and>
     (A' \<noteq> [] \<longrightarrow> length taken = length (filter (\<lambda>h. h = None) hs)) \<and> length hs' = length hs)"

locale ack_queue =
  fixes K :: "'w packet_stream"
    and acks :: "'w \<Rightarrow> packet list"
  assumes avail_law: "wp (ps_ack_avail K d) (\<lambda>a w'. a = (acks w \<noteq> []) \<and> acks w' = acks w) w"
    and get_law: "acks w = p # ps \<Longrightarrow> wp (ps_get_acked K d) (\<lambda>q w'. q = p \<and> acks w' = ps) w"
begin

lemma Update_Response_Queue_law:
  "wp (GBlock_Update_Response_Queue K c h) (\<lambda>h' w'.
     case h of Some x \<Rightarrow> h' = h \<and> acks w' = acks w
     | None \<Rightarrow> (case acks w of [] \<Rightarrow> h' = None \<and> acks w' = []
                | p # ps \<Rightarrow> h' = Some (response K p) \<and> acks w' = ps)) w"
proof (cases h)
  case None
  show ?thesis
    unfolding None GBlock_Update_Response_Queue_def gblock_update_response_queue_def option.case wp_simps
  proof (rule wp_mono [OF avail_law], goal_cases)
    case (1 a w')
    then show ?case
    proof (cases "acks w")
      case (Cons p ps)
      with 1 have "acks w' = p # ps" by simp
      from wp_mono [OF get_law [OF this]] 1 Cons show ?thesis
        by (simp add: wp_simps response_def)
    qed (simp add: wp_simps)
  qed
qed (simp add: GBlock_Update_Response_Queue_def wp_simps)

lemma updated_Nil: "updated K r [] A r [] A"
  unfolding updated_def by (rule exI [of _ "[]"], rule exI [of _ "[]"]) simp

text \<open>One slot: kept, filled from the queue, or consumed.\<close>

lemma updated_keep:
  "updated K r hs A r' hs' A' \<Longrightarrow> fst x \<noteq> pk_tag (gr_packet r) \<Longrightarrow>
   updated K r (Some x # hs) A r' (Some x # hs') A'"
  unfolding updated_def by fastforce

lemma updated_fill:
  "updated K r hs A r' hs' A' \<Longrightarrow> response K p = (t, ok) \<Longrightarrow> t \<noteq> pk_tag (gr_packet r) \<Longrightarrow>
   updated K r (None # hs) (p # A) r' (Some (t, ok) # hs') A'"
  unfolding updated_def
  by (elim exE conjE, rule exI [of _ "p # taken" for taken], rule exI) auto

lemma updated_none: "updated K r hs [] r' hs' A' \<Longrightarrow> updated K r (None # hs) [] r' (None # hs') A'"
  unfolding updated_def by fastforce

lemma updated_use:
  assumes "updated K (r\<lparr>gr_status := st\<rparr>) hs A r' hs' A'" and "st = (if ok then GB_Ok else GB_Error)"
  shows "updated K r (Some (pk_tag (gr_packet r), ok) # hs) A r' (None # hs') A'"
  using assms(1) unfolding updated_def
proof (elim exE conjE, goal_cases)
  case (1 taken used)
  then show ?case
    by (intro exI [of _ taken] exI [of _ "(pk_tag (gr_packet r), ok) # used"]) (use assms(2) in simp)
qed

lemma updated_take:
  assumes "updated K (r\<lparr>gr_status := st\<rparr>) hs A r' hs' A'" and "st = (if ok then GB_Ok else GB_Error)"
    and "response K p = (pk_tag (gr_packet r), ok)"
  shows "updated K r (None # hs) (p # A) r' (None # hs') A'"
  using updated_use [OF assms(1,2)] unfolding updated_def
proof (elim exE conjE, goal_cases)
  case (1 taken used)
  then show ?case
    by (intro exI [of _ "p # taken"] exI [of _ used]) (use assms(3) in simp)
qed

lemmas updated_rules = updated_keep updated_fill
  updated_use [where ok = True, simplified] updated_use [where ok = False, simplified]
  updated_take [where ok = True, simplified] updated_take [where ok = False, simplified]

lemma Update_loop_updated:
  "wp (GBlock_Update_loop K c r hs) (\<lambda>(r', hs') w'. updated K r hs (acks w) r' hs' (acks w')) w"
proof (induction hs arbitrary: r w)
  case Nil
  then show ?case by (simp add: wp_simps updated_Nil)
next
  case (Cons h hs)
  show ?case
    unfolding GBlock_Update_loop.simps wp_bind [of "GBlock_Update_Response_Queue _ _ _"]
  proof (rule wp_mono [OF Update_Response_Queue_law], goal_cases)
    case (1 h' w1)
    note IH = Cons.IH [where w = w1]
    show ?case
    proof (cases h')
      case None
      with 1 have "h = None" "acks w = []" "acks w1 = []"
        by (auto split: option.splits list.splits)
      with None IH [of r] show ?thesis
        by (auto simp: wp_simps elim!: wp_mono intro: updated_none)
    next
      case (Some x)
      then obtain t ok where x: "x = (t, ok)" by (cases x)
      let ?r = "r\<lparr>gr_status := if ok then GB_Ok else GB_Error\<rparr>"
      from 1 Some consider (old) "h = Some x" "acks w1 = acks w"
        | (new) p where "h = None" "acks w = p # acks w1" "x = response K p"
        by (auto split: option.splits list.splits)
      then show ?thesis
      proof cases
        case old
        with Some x IH [of ?r] IH [of r] show ?thesis
          by (auto simp: wp_simps elim!: wp_mono intro: updated_rules)
      next
        case new
        with Some x IH [of ?r] IH [of r] show ?thesis
          by (auto simp: wp_simps elim!: wp_mono intro: updated_rules)
      qed
    qed
  qed
qed

end

text \<open>
  If the response to the request is cached or among the next acknowledgements for which
  there is a free slot, \<open>Update_Request\<close> finds it.
\<close>

lemma updated_finds:
  assumes "updated K r hs A r' hs' A'"
    and "(t, ok) \<in> set (cached hs) \<or>
         (t, ok) \<in> set (map (response K) (take (length (filter (\<lambda>h. h = None) hs)) A))"
    and "t = pk_tag (gr_packet r)"
  shows "gr_status r' \<in> {GB_Ok, GB_Error}"
  using assms(1) unfolding updated_def
proof (elim exE conjE, goal_cases)
  case (1 taken used)
  have "(t, ok) \<in> set (cached hs) \<or> (t, ok) \<in> set (map (response K) taken)"
    using assms(2) 1(1,6) by (cases "A' = []") (auto dest: in_set_takeD)
  then have "(t, ok) \<in># mset (cached hs') + mset used"
    unfolding 1(2) by auto
  then have "(t, ok) \<in> set used"
    using 1(4) assms(3) by auto
  with 1(5) show ?case by auto
qed

subsection \<open>The client is a balanced session\<close>

locale block_component = genode_component G fheap cb
  for G :: "'w genode" and fheap :: "'w \<Rightarrow> addr set option" and cb :: addr +
  fixes K :: "'w packet_stream" and env :: addr
  assumes env_not_null: "env \<noteq> null"
    and connect_keeps [keeps_intros]: "keeps fheap (ps_connect K p n d)"
    and sigh_keeps [keeps_intros]: "keeps fheap (ps_sigh_ack_avail K p sig)" "keeps fheap (ps_sigh_ready_to_submit K p sig)"
    and info_keeps: "keeps fheap (ps_info K p)"
begin

lemma gblock_initialize_law:
  "wp (gblock_initialize G K self env dev cb cb n c) (\<lambda>c' w'. gb_callback c' = cb \<and> gb_rw c' = cb \<and> gb_env c' = env \<and>
     ((gb_device c' = null \<and> fheap w' = Some (objects (fheap w))) \<or>
      (gb_device c' \<noteq> null \<and> gb_device c' \<notin> objects (fheap w) \<and>
       fheap w' = Some (insert (gb_device c') (objects (fheap w)))))) w"
  unfolding gblock_initialize_def Let_def wp_simps
proof (rule wp_check_factory, rule wp_create, assumption, goal_cases)
  case (1 w1 p)
  show ?case unfolding block_session_ctor_def by (intro keeps_intros)
next
  case (2 w1 w2)
  then show ?case by simp
next
  case (3 w1 p u w2)
  show ?case
    using 3(2,3) by (simp add: wp_simps)
      (rule keeps_wpI [OF info_keeps], rule keeps_wpI [OF info_keeps], use 3(4) in simp)
qed

end

sublocale block_component \<subseteq> blk_ses: ada_session G fheap GBlock_Initialized
  "GBlock_Initialize G K self env cb cb path tag n" "GBlock_Finalize G" "\<lambda>c. gb_device c" for self path tag n
proof unfold_locales
  fix c w assume "\<not> GBlock_Initialized c"
  then show "wp (GBlock_Initialize G K self env cb cb path tag n c) (\<lambda>c' w'.
      (\<not> GBlock_Initialized c' \<and> gb_device c' = null \<and> fheap w' = Some (objects (fheap w))) \<or>
      (GBlock_Initialized c' \<and> gb_device c' \<noteq> null \<and> gb_device c' \<notin> objects (fheap w) \<and>
       fheap w' = Some (insert (gb_device c') (objects (fheap w))))) w"
    using gblock_initialize_law [of self "Some (takeWhile (\<lambda>x. x \<noteq> CHR 0x00) path)" n c w] cb_not_null env_not_null
    by (auto simp: GBlock_Initialize_def wp_simps elim!: wp_mono) (auto simp: GBlock_Initialized_def)
qed (auto simp: GBlock_Initialize_def GBlock_Finalize_def GBlock_Initialized_def gblock_finalize_def wp_simps
    intro!: wp_destroy_void)

context block_component
begin

lemmas block_released = blk_ses.run_session_released

end

definition gsim_stream :: "gsim packet_stream" where
  "gsim_stream = \<lparr> ps_READ = 0, ps_WRITE = 1, ps_connect = (\<lambda>_ _ _. gs_answer),
     ps_sigh_ack_avail = (\<lambda>_ _. ret ()), ps_sigh_ready_to_submit = (\<lambda>_ _. ret ()), ps_avail = (\<lambda>_. ret 0),
     ps_info = (\<lambda>_. ret \<lparr>bi_block_size = 512, bi_block_count = 64, bi_writeable = True\<rparr>),
     ps_alloc_packet = (\<lambda>_ n. gs_try (0, n)), ps_ack_avail = (\<lambda>_. ret False),
     ps_get_acked = (\<lambda>_. ret \<lparr>pk_offset = 0, pk_bytes = 0, pk_opcode = 0, pk_tag = 0, pk_block_number = 0, pk_block_count = 0\<rparr>),
     ps_succeeded = (\<lambda>_. True), ps_submit = (\<lambda>_ _. ret ()), ps_content = (\<lambda>_ _. ret 0x5000), ps_release = (\<lambda>_ _. ret ()) \<rparr>"

interpretation gsim_block: block_component gsim_genode gsim_heap "0x400" gsim_stream "0x200"
  by unfold_locales (auto simp: gsim_stream_def intro!: keeps_intros)

text \<open>A stream whose world is its acknowledgement queue; packets with an odd offset failed.\<close>

definition ack_stream :: "packet list packet_stream" where
  "ack_stream = \<lparr> ps_READ = 0, ps_WRITE = 1, ps_connect = (\<lambda>_ _ _. ret True),
     ps_sigh_ack_avail = (\<lambda>_ _. ret ()), ps_sigh_ready_to_submit = (\<lambda>_ _. ret ()), ps_avail = (\<lambda>_. ret 0),
     ps_info = (\<lambda>_. ret \<lparr>bi_block_size = 512, bi_block_count = 64, bi_writeable = True\<rparr>),
     ps_alloc_packet = (\<lambda>_ n. ret (Some (0, n))), ps_ack_avail = (\<lambda>_. State (\<lambda>w. (w \<noteq> [], w))),
     ps_get_acked = (\<lambda>_. State (\<lambda>w. (hd w, tl w))), ps_succeeded = (\<lambda>p. even (pk_offset p)),
     ps_submit = (\<lambda>_ _. ret ()), ps_content = (\<lambda>_ _. ret 0x5000), ps_release = (\<lambda>_ _. ret ()) \<rparr>"

interpretation ack_stream: ack_queue ack_stream "\<lambda>w. w"
  by unfold_locales (simp_all add: ack_stream_def wp_def)

subsection \<open>Properties\<close>


definition sample_packet :: "u64 \<Rightarrow> int \<Rightarrow> packet" where
  "sample_packet tag off = \<lparr> pk_offset = off, pk_bytes = 0, pk_opcode = 0, pk_tag = tag, pk_block_number = 0, pk_block_count = 1 \<rparr>"

definition sample_gb_request :: gb_request where
  "sample_gb_request = \<lparr> gr_packet = sample_packet 7 0, gr_status = GB_Pending, gr_session = None \<rparr>"


text \<open>
  C38. The Genode block client is a balanced session: any sequence of \<open>Initialize\<close> and
  \<open>Finalize\<close> on a fresh client that ends with \<open>Finalize\<close> leaves the factory heap as it was and
  the client not initialized.
\<close>

theorem genode_block_session_balanced:
  assumes "block_component G fheap cb K env" and "fheap w = Some S" and "null \<notin> S"
  shows "wp (run_session (GBlock_Initialize G K self env cb cb path tag n) (GBlock_Finalize G) (ops @ [Op_Finalize])
      gblock_client_new) (\<lambda>c w'. \<not> GBlock_Initialized c \<and> fheap w' = Some S) w"
  by (rule block_component.block_released [OF assms(1)])
    (use assms(2,3) in \<open>simp add: owned_by_def held_def GBlock_Initialized_def gblock_client_new_def\<close>)

theorem genode_block_session_balanced_witness:
  "wp (run_session (GBlock_Initialize gsim_genode gsim_stream 0x500 0x200 0x400 0x400 ''disk'' 1 0) (GBlock_Finalize gsim_genode)
      ([Op_Initialize, Op_Finalize, Op_Initialize] @ [Op_Finalize]) gblock_client_new)
      (\<lambda>c w'. \<not> GBlock_Initialized c \<and> gsim_heap w' = Some {}) (gsim_init\<lparr>gs_up := True\<rparr>)"
  by (rule genode_block_session_balanced [OF gsim_block.block_component_axioms])
    (simp_all add: gsim_heap_def gsim_init_def)

text \<open>
  \<open>Allocate_Request\<close> on Genode: with the opcode numbers of the Block session, the result is
  \<open>Success\<close> exactly if the packet stream had room and the length is not zero; then the
  request is allocated, assigned to the session, and its packet has the kind, start, length
  and tag asked for. Sync, trim and other kinds are answered \<open>Unsupported\<close> without touching
  the packet stream, an exhausted packet buffer \<open>Out_Of_Memory\<close>; the status is then kept.
\<close>

theorem GBlock_Allocate_Request_contract:
  assumes "ps_READ K = 0" and "ps_WRITE K = 1"
  shows "wp (GBlock_Allocate_Request K c r k start len i) (\<lambda>(r', e) w'.
     GBlock_Assigned c r' \<and>
     (e = GB_Success \<longrightarrow> gr_status r' = GB_Allocated \<and> GBlock_Kind r' = k \<and> pk_block_number (gr_packet r') = start \<and>
        pk_block_count (gr_packet r') = len \<and> pk_tag (gr_packet r') = i \<and> 0 < len) \<and>
     (e \<noteq> GB_Success \<longrightarrow> gr_status r' = gr_status r) \<and>
     (if k = GB_Read \<or> k = GB_Write then
        w' = final (ps_alloc_packet K (gb_device c) (gb_block_size c * len)) w \<and>
        e = (case result (ps_alloc_packet K (gb_device c) (gb_block_size c * len)) w of
               None \<Rightarrow> GB_Out_Of_Memory | Some _ \<Rightarrow> if 0 < len then GB_Success else GB_Unsupported)
      else w' = w \<and> e = GB_Unsupported)) w"
  using assms
  by (cases k) (auto simp: GBlock_Allocate_Request_def gblock_allocate_request_def gb_opcode_def wp_run
      GBlock_Assigned_def GBlock_Kind_def Let_def split: option.splits prod.splits)

theorem GBlock_Allocate_Request_contract_witness:
  "wp (GBlock_Allocate_Request ack_stream (gblock_client_new\<lparr>gb_block_size := 512, gb_tag := Some 1\<rparr>)
     sample_gb_request GB_Write 8 2 5) (\<lambda>(r', e) w'. e = GB_Success \<and> gr_status r' = GB_Allocated) []"
proof -
  have "ps_READ ack_stream = 0" "ps_WRITE ack_stream = 1" by (simp_all add: ack_stream_def)
  from wp_mono [OF GBlock_Allocate_Request_contract [OF this]] show ?thesis
    by (auto simp: ack_stream_def)
qed

end
