(* ===== verification/Genode_Block_Server.thy ===== *)
theory Genode_Block_Server
  imports Genode_Root
begin

text \<open>
  The Block service on Genode: \<open>block_server.cc\<close>, \<open>block_dispatcher.cc\<close>, \<open>block_root.h\<close> and the
  Ada bodies \<open>Gneiss.Block.Server\<close> and \<open>Gneiss.Block.Dispatcher\<close>. Genode's
  \<open>Block::Request_stream\<close> is the parameter \<open>R\<close>. Its functions take C++ lambdas that update
  captured variables; such a lambda is a function of the captured values.
\<close>

subsection \<open>The request stream\<close>

record srequest =
  rq_kind :: int
  rq_block_number :: u64
  rq_block_count :: u64
  rq_success :: bool
  rq_offset :: int
  rq_tag :: u64

datatype response = ACCEPTED | REJECTED | RETRY

record stream_info =
  in_block_size :: u64
  in_block_count :: u64
  in_align_log2 :: u64
  in_writeable :: bool

record 'w request_stream =
  rs_construct :: "addr \<Rightarrow> u64 \<Rightarrow> u64 \<Rightarrow> stream_info \<Rightarrow> ('w, bool) state"
  rs_manage :: "addr \<Rightarrow> ('w, unit) state"
  rs_with_requests :: "addr \<Rightarrow> (srequest \<Rightarrow> int \<times> srequest \<Rightarrow> response \<times> int \<times> srequest) \<Rightarrow>
    int \<times> srequest \<Rightarrow> ('w, int \<times> srequest) state"
  rs_content :: "addr \<Rightarrow> srequest \<Rightarrow> ('w, bytes option) state"
  rs_store :: "addr \<Rightarrow> srequest \<Rightarrow> bytes \<Rightarrow> ('w, unit) state"
  rs_try_acknowledge :: "addr \<Rightarrow> (int \<Rightarrow> srequest list \<times> int) \<Rightarrow> int \<Rightarrow> ('w, int) state"
  rs_wakeup :: "addr \<Rightarrow> ('w, unit) state"
  rs_cap :: "addr \<Rightarrow> u64"
  rs_tx_cap :: "addr \<Rightarrow> u64"
  rs_dissolve :: "addr \<Rightarrow> ('w, unit) state"

subsection \<open>\<open>Cai::Block::Server\<close>\<close>

text \<open>The callbacks \<open>_block_size\<close>, \<open>_block_count\<close> and \<open>_writable\<close> of the component.\<close>

record 'w block_impl =
  im_block_size :: "nat \<Rightarrow> 'w \<Rightarrow> u64"
  im_block_count :: "nat \<Rightarrow> 'w \<Rightarrow> u64"
  im_writable :: "nat \<Rightarrow> 'w \<Rightarrow> bool"
  im_initialize :: "nat \<Rightarrow> string \<Rightarrow> u64 \<Rightarrow> ('w, unit) state"
  im_ready :: "nat \<Rightarrow> 'w \<Rightarrow> bool"
  im_finalize :: "nat \<Rightarrow> ('w, unit) state"

text \<open>
  \<open>Block_root\<close> with its parts: the signal handler, the dataspace and the session component, which is the RPC
  object and the request stream. A reference to the server is its number.
\<close>

record session_component =
  sc_ep :: addr
  sc_server :: nat

record block_root =
  br_env :: addr
  br_sigh :: u64
  br_server :: nat
  br_ds :: u64
  br_session :: session_component

record gblock_server =
  gbs_object :: "(addr \<times> block_root) option"
  gbs_callback :: addr
  gbs_block_count :: addr
  gbs_block_size :: addr
  gbs_writable :: addr
  gbs_tag :: "nat option"

abbreviation gbs_session :: "gblock_server \<Rightarrow> addr" where
  "gbs_session srv \<equiv> ptr (gbs_object srv)"

definition gblock_server_new :: gblock_server where
  "gblock_server_new = \<lparr> gbs_object = None, gbs_callback = null, gbs_block_count = null, gbs_block_size = null,
     gbs_writable = null, gbs_tag = None \<rparr>"

text \<open>The session information given to the request stream by the constructor, and \<open>info()\<close>.\<close>

definition session_component_info :: "'w block_impl \<Rightarrow> nat \<Rightarrow> 'w \<Rightarrow> stream_info" where
  "session_component_info B i w = \<lparr> in_block_size = im_block_size B i w, in_block_count = im_block_size B i w,
     in_align_log2 = 0, in_writeable = im_writable B i w \<rparr>"

definition gblock_info :: "'w block_impl \<Rightarrow> nat \<Rightarrow> 'w \<Rightarrow> stream_info" where
  "gblock_info B i w = \<lparr> in_block_size = im_block_size B i w, in_block_count = im_block_count B i w,
     in_align_log2 = 0, in_writeable = im_writable B i w \<rparr>"

text \<open>
  The constructors; the entrypoint is that of the environment \<open>env\<close>. A member that cannot be created makes the
  constructor throw.
\<close>

definition session_component_ctor ::
  "'w request_stream \<Rightarrow> 'w block_impl \<Rightarrow> u64 \<Rightarrow> addr \<Rightarrow> u64 \<Rightarrow> nat \<Rightarrow> addr \<Rightarrow> ('w, session_component option) state" where
  "session_component_ctor R B ds ep sigh server p = do {
     w \<leftarrow> getS;
     ok \<leftarrow> rs_construct R p ds sigh (session_component_info B server w);
     if \<not> ok then ret None
     else do {
       rs_manage R p;
       ret (Some \<lparr> sc_ep = ep, sc_server = server \<rparr>)
     }
   }"

definition block_root_ctor ::
  "'w genode \<Rightarrow> 'w request_stream \<Rightarrow> 'w block_impl \<Rightarrow> addr \<Rightarrow> nat \<Rightarrow> u64 \<Rightarrow> addr \<Rightarrow> ('w, block_root option) state" where
  "block_root_ctor G R B env server ds_size p = do {
     h \<leftarrow> g_signal_handler G p;
     case h of None \<Rightarrow> ret None
     | Some sigh \<Rightarrow> do {
         d \<leftarrow> g_ram_dataspace G p ds_size;
         case d of None \<Rightarrow> ret None
         | Some (_, _, ds) \<Rightarrow> do {
             s \<leftarrow> session_component_ctor R B ds env sigh server p;
             ret (map_option (\<lambda>s. \<lparr> br_env = env, br_sigh = sigh, br_server = server, br_ds = ds, br_session = s \<rparr>) s)
           }
       }
   }"

text \<open>
  The other methods of \<open>Block_session_component\<close> and \<open>Block_root\<close>: the destructor dissolves the RPC
  object, \<open>handler\<close> calls the component's procedure (\<open>call\<close> is the code at an address).
\<close>

definition session_component_dtor :: "'w request_stream \<Rightarrow> addr \<Rightarrow> ('w, unit) state" where
  "session_component_dtor R p = rs_dissolve R p"

definition session_component_tx_cap :: "'w request_stream \<Rightarrow> addr \<Rightarrow> u64" where
  "session_component_tx_cap R p = rs_tx_cap R p"

definition block_root_handler ::
  "(addr \<Rightarrow> ('w, unit) state) \<Rightarrow> (nat \<Rightarrow> gblock_server) \<Rightarrow> block_root \<Rightarrow> ('w, unit) state" where
  "block_root_handler call servers root = call (gbs_callback (servers (br_server root)))"

definition block_root_cap :: "'w request_stream \<Rightarrow> addr \<Rightarrow> u64" where
  "block_root_cap R p = rs_cap R p"

text \<open>\<open>blk\<close>: the session component inside the root object is at the same address.\<close>

definition sblk :: "addr \<Rightarrow> addr" where
  "sblk session = session"

lemmas block_root_objects [simp] = block_root_cap_def sblk_def

definition gblock_server_initialize ::
  "'w genode \<Rightarrow> 'w request_stream \<Rightarrow> 'w block_impl \<Rightarrow> addr \<Rightarrow> nat \<Rightarrow> u64 \<Rightarrow> addr \<Rightarrow> addr \<Rightarrow> addr \<Rightarrow> addr \<Rightarrow>
   gblock_server \<Rightarrow> ('w, gblock_server) state" where
  "gblock_server_initialize G R B env i sz callback block_count block_size writable srv = do {
     let srv = srv\<lparr>gbs_callback := callback, gbs_block_count := block_count, gbs_block_size := block_size,
                   gbs_writable := writable\<rparr>;
     check_factory G;
     r \<leftarrow> create G ''Cai::Block::Block_root'' (block_root_ctor G R B env i sz);
     ret (srv\<lparr>gbs_object := r\<rparr>)
   }"

definition gblock_server_finalize :: "'w genode \<Rightarrow> gblock_server \<Rightarrow> ('w, gblock_server) state" where
  "gblock_server_finalize G srv = do {
     destroy_void G (gbs_session srv);
     ret (srv\<lparr>gbs_object := None, gbs_callback := null, gbs_block_count := null, gbs_block_size := null,
              gbs_writable := null\<rparr>)
   }"

text \<open>The lambda of \<open>process_request\<close>: accept the first request, retry the others.\<close>

definition accept_first :: "srequest \<Rightarrow> int \<times> srequest \<Rightarrow> response \<times> int \<times> srequest" where
  "accept_first r x = (if fst x \<noteq> 0 then (RETRY, x) else (ACCEPTED, 1, r))"

definition gblock_process_request ::
  "'w request_stream \<Rightarrow> gblock_server \<Rightarrow> srequest \<Rightarrow> ('w, int \<times> srequest) state" where
  "gblock_process_request R srv req = rs_with_requests R (sblk (gbs_session srv)) accept_first (0, req)"

text \<open>
  \<open>read\<close> copies into the content of the request, \<open>write\<close> out of it. A copy that leaves the
  content or the buffer is \<open>None\<close>: \<open>memcpy\<close> does not check bounds.
\<close>

definition put_at :: "bytes \<Rightarrow> nat \<Rightarrow> bytes \<Rightarrow> bytes" where
  "put_at mem off src = take off mem @ src @ drop (off + length src) mem"

definition gblock_server_read ::
  "'w request_stream \<Rightarrow> gblock_server \<Rightarrow> srequest \<Rightarrow> bytes \<Rightarrow> u64 \<Rightarrow> u64 \<Rightarrow> ('w, unit option) state" where
  "gblock_server_read R srv req buffer off sz = do {
     m \<leftarrow> rs_content R (sblk (gbs_session srv)) req;
     case m of None \<Rightarrow> ret (Some ())
     | Some mem \<Rightarrow>
         if unat off + unat sz \<le> length mem \<and> unat sz \<le> length buffer then do {
           rs_store R (sblk (gbs_session srv)) req (put_at mem (unat off) (take (unat sz) buffer));
           ret (Some ())
         } else ret None
   }"

definition gblock_server_write ::
  "'w request_stream \<Rightarrow> gblock_server \<Rightarrow> srequest \<Rightarrow> bytes \<Rightarrow> u64 \<Rightarrow> u64 \<Rightarrow> ('w, bytes option) state" where
  "gblock_server_write R srv req buffer off sz = do {
     m \<leftarrow> rs_content R (sblk (gbs_session srv)) req;
     ret (case m of None \<Rightarrow> Some buffer
          | Some mem \<Rightarrow>
              if unat off + unat sz \<le> length mem \<and> unat sz \<le> length buffer
              then Some (put_at buffer 0 (take (unat sz) (drop (unat off) mem))) else None)
   }"

definition gblock_server_read_write ::
  "'w request_stream \<Rightarrow> gblock_server \<Rightarrow> srequest \<Rightarrow> u32 \<Rightarrow> (u32 \<Rightarrow> bytes \<Rightarrow> ('w, bytes) state) \<Rightarrow> ('w, unit) state" where
  "gblock_server_read_write R srv req i rw = do {
     m \<leftarrow> rs_content R (sblk (gbs_session srv)) req;
     case m of None \<Rightarrow> ret ()
     | Some mem \<Rightarrow> do { mem \<leftarrow> rw i mem; rs_store R (sblk (gbs_session srv)) req mem }
   }"

text \<open>The lambda of \<open>acknowledge\<close>: submit the request in the first round only.\<close>

definition submit_once :: "srequest \<Rightarrow> int \<Rightarrow> srequest list \<times> int" where
  "submit_once req success = (if success = 0 then ([req], 1) else ([], success))"

definition gblock_acknowledge ::
  "'w request_stream \<Rightarrow> gblock_server \<Rightarrow> srequest \<Rightarrow> int \<Rightarrow> ('w, srequest \<times> int) state" where
  "gblock_acknowledge R srv req success = do {
     let req = req\<lparr>rq_success := (success \<noteq> 0)\<rparr>;
     s \<leftarrow> rs_try_acknowledge R (sblk (gbs_session srv)) (submit_once req) 0;
     ret (req, s)
   }"

definition gblock_unblock_client :: "'w request_stream \<Rightarrow> gblock_server \<Rightarrow> ('w, unit) state" where
  "gblock_unblock_client R srv = rs_wakeup R (sblk (gbs_session srv))"

subsection \<open>\<open>Gneiss.Block.Server\<close>\<close>

datatype bs_status = BS_Raw | BS_Allocated | BS_Pending | BS_Ok | BS_Error
datatype bs_kind = BS_None | BS_Read | BS_Write | BS_Sync | BS_Trim

record bs_request =
  bq_request :: srequest
  bq_status :: bs_status
  bq_session :: "nat option"

definition BServer_Kind :: "bs_request \<Rightarrow> bs_kind" where
  "BServer_Kind r = (if rq_kind (bq_request r) = 1 then BS_Read else if rq_kind (bq_request r) = 2 then BS_Write
     else if rq_kind (bq_request r) = 3 then BS_Sync else if rq_kind (bq_request r) = 4 then BS_Trim else BS_None)"

definition BServer_Process :: "'w request_stream \<Rightarrow> gblock_server \<Rightarrow> bs_request \<Rightarrow> ('w, bs_request) state" where
  "BServer_Process R srv r = do {
     x \<leftarrow> gblock_process_request R srv (bq_request r);
     let r = r\<lparr>bq_request := snd x\<rparr>;
     ret (if fst x = 1 then r\<lparr>bq_status := BS_Pending, bq_session := gbs_tag srv\<rparr> else r)
   }"

definition BServer_Acknowledge ::
  "'w request_stream \<Rightarrow> gblock_server \<Rightarrow> bs_request \<Rightarrow> bs_status \<Rightarrow> ('w, bs_request) state" where
  "BServer_Acknowledge R srv r res = do {
     x \<leftarrow> gblock_acknowledge R srv (bq_request r) (if res = BS_Ok then 1 else 0);
     let r = r\<lparr>bq_request := fst x\<rparr>;
     ret (if snd x = 1 then r\<lparr>bq_status := BS_Raw\<rparr> else r)
   }"

text \<open>The other operations of the package; \<open>Length\<close> converts to a type below \<open>2 ** 63\<close> and raises for larger counts.\<close>

definition BServer_Start :: "bs_request \<Rightarrow> u64" where
  "BServer_Start r = rq_block_number (bq_request r)"

definition BServer_Length :: "bs_request \<Rightarrow> ada_error + nat" where
  "BServer_Length r = (if unat (rq_block_count (bq_request r)) < 2 ^ 63 then Inr (unat (rq_block_count (bq_request r))) else Inl Constraint_Error)"

definition BServer_Assigned :: "gblock_server \<Rightarrow> bs_request \<Rightarrow> bool" where
  "BServer_Assigned srv r \<longleftrightarrow> gbs_tag srv = bq_session r"

definition BServer_Read :: "'w request_stream \<Rightarrow> gblock_server \<Rightarrow> bs_request \<Rightarrow> bytes \<Rightarrow> nat \<Rightarrow> ('w, unit option) state" where
  "BServer_Read R srv r b off = gblock_server_read R srv (bq_request r) b (of_nat off) (of_nat (length b))"

definition BServer_Write :: "'w request_stream \<Rightarrow> gblock_server \<Rightarrow> bs_request \<Rightarrow> bytes \<Rightarrow> nat \<Rightarrow> ('w, bytes option) state" where
  "BServer_Write R srv r b off = gblock_server_write R srv (bq_request r) b (of_nat off) (of_nat (length b))"

text \<open>
  The variants with a request identifier; \<open>rd\<close> and \<open>wr\<close> are the component's procedures \<open>Read\<close>, which fills the
  buffer \<open>1 .. L\<close> on the content, and \<open>Write\<close>, which only reads it.
\<close>

definition BServer_Read_Async ::
  "'w request_stream \<Rightarrow> gblock_server \<Rightarrow> bs_request \<Rightarrow> u32 \<Rightarrow> (u32 \<Rightarrow> bytes \<Rightarrow> ('w, bytes) state) \<Rightarrow> ('w, unit) state" where
  "BServer_Read_Async R srv r i rd = gblock_server_read_write R srv (bq_request r) i rd"

definition BServer_Write_Async ::
  "'w request_stream \<Rightarrow> gblock_server \<Rightarrow> bs_request \<Rightarrow> u32 \<Rightarrow> (u32 \<Rightarrow> bytes \<Rightarrow> ('w, unit) state) \<Rightarrow> ('w, unit) state" where
  "BServer_Write_Async R srv r i wr = gblock_server_read_write R srv (bq_request r) i (\<lambda>i mem. do { wr i mem; ret mem })"

definition BServer_Unblock_Client :: "'w request_stream \<Rightarrow> gblock_server \<Rightarrow> ('w, unit) state" where
  "BServer_Unblock_Client R srv = gblock_unblock_client R srv"

definition BServer_Initialized :: "gblock_server \<Rightarrow> bool" where
  "BServer_Initialized srv \<longleftrightarrow> gbs_session srv \<noteq> null \<and> gbs_callback srv \<noteq> null \<and> gbs_block_count srv \<noteq> null \<and>
     gbs_block_size srv \<noteq> null \<and> gbs_writable srv \<noteq> null"

subsection \<open>Documented behaviour of the request stream\<close>

text \<open>
  \<open>with_requests\<close> offers the pending requests in order: an accepted or rejected request is
  removed, \<open>RETRY\<close> stops and leaves it. \<open>try_acknowledge\<close> calls its argument some number of
  times, as long as there is room.
\<close>

fun drain :: "(srequest \<Rightarrow> 'x \<Rightarrow> response \<times> 'x) \<Rightarrow> 'x \<Rightarrow> srequest list \<Rightarrow> 'x \<times> srequest list" where
  "drain f x [] = (x, [])"
| "drain f x (r # rs) = (case f r x of (RETRY, x') \<Rightarrow> (x', r # rs) | (_, x') \<Rightarrow> drain f x' rs)"

fun rounds :: "nat \<Rightarrow> ('x \<Rightarrow> srequest list \<times> 'x) \<Rightarrow> 'x \<Rightarrow> srequest list \<times> 'x" where
  "rounds 0 f x = ([], x)"
| "rounds (Suc n) f x = (case f x of (rs, x') \<Rightarrow> case rounds n f x' of (ss, x'') \<Rightarrow> (rs @ ss, x''))"

locale stream_laws =
  fixes R :: "'w request_stream"
    and pending :: "addr \<Rightarrow> 'w \<Rightarrow> srequest list"
    and acked :: "addr \<Rightarrow> 'w \<Rightarrow> srequest list"
  assumes with_requests_law: "wp (rs_with_requests R p f x) (\<lambda>y w'. (y, pending p w') = drain f x (pending p w)) w"
    and try_acknowledge_law: "wp (rs_try_acknowledge R p g y) (\<lambda>z w'. \<exists>n rs.
      rounds n g y = (rs, z) \<and> acked p w' = acked p w @ rs) w"
begin

lemma drain_done: "fst x \<noteq> 0 \<Longrightarrow> drain accept_first x rs = (x, rs)"
  by (cases rs) (simp_all add: accept_first_def)

lemma drain_accept_first:
  "drain accept_first (0, req) rs = (case rs of [] \<Rightarrow> ((0, req), []) | r # ss \<Rightarrow> ((1, r), ss))"
  by (cases rs) (simp_all add: accept_first_def drain_done)

lemma rounds_done: "s \<noteq> 0 \<Longrightarrow> rounds n (submit_once req) s = ([], s)"
  by (induction n) (simp_all add: submit_once_def)

lemma rounds_submit_once:
  "rounds n (submit_once req) 0 = (if n = 0 then ([], 0) else ([req], 1))"
  using rounds_done [of 1 _ req] by (cases n) (simp_all add: submit_once_def)

lemma process_law:
  "wp (gblock_process_request R srv req) (\<lambda>x w'.
     case pending (gbs_session srv) w of [] \<Rightarrow> x = (0, req) \<and> pending (gbs_session srv) w' = []
     | r # rs \<Rightarrow> x = (1, r) \<and> pending (gbs_session srv) w' = rs) w"
  unfolding gblock_process_request_def
  by (rule wp_mono [OF with_requests_law]) (auto simp: drain_accept_first split: list.splits)

lemma acknowledge_law:
  "wp (gblock_acknowledge R srv req s) (\<lambda>(req', t) w'. req' = req\<lparr>rq_success := (s \<noteq> 0)\<rparr> \<and>
     (t = 0 \<and> acked (gbs_session srv) w' = acked (gbs_session srv) w \<or>
      t = 1 \<and> acked (gbs_session srv) w' = acked (gbs_session srv) w @ [req'])) w"
  unfolding gblock_acknowledge_def Let_def wp_simps
  by (rule wp_mono [OF try_acknowledge_law]) (auto simp: rounds_submit_once split: if_splits)

end

text \<open>The content of a request is memory: a store of the same length is read back.\<close>

lemma put_at_laws:
  assumes "off + length src \<le> length mem"
  shows "length (put_at mem off src) = length mem" "take off (put_at mem off src) = take off mem"
    "take (length src) (drop off (put_at mem off src)) = src"
    "drop (off + length src) (put_at mem off src) = drop (off + length src) mem"
  using assms by (simp_all add: put_at_def)

lemma put_at_whole: "length src = length mem \<Longrightarrow> put_at mem 0 src = src"
  by (simp add: put_at_def)

locale stream_content =
  fixes R :: "'w request_stream"
    and content :: "addr \<Rightarrow> srequest \<Rightarrow> 'w \<Rightarrow> bytes option"
  assumes content_law: "wp (rs_content R p q) (\<lambda>m w'. m = content p q w \<and> content p q w' = content p q w) w"
    and store_law: "content p q w = Some old \<Longrightarrow> length m = length old \<Longrightarrow>
      wp (rs_store R p q m) (\<lambda>_ w'. content p q w' = Some m) w"
begin

lemma read_law:
  assumes "content (gbs_session srv) req w = Some mem"
    and "unat off + unat sz \<le> length mem" and "length buffer = unat sz"
  shows "wp (gblock_server_read R srv req buffer off sz) (\<lambda>r w'. r = Some () \<and>
     content (gbs_session srv) req w' = Some (put_at mem (unat off) buffer)) w"
  unfolding gblock_server_read_def wp_simps
proof (rule wp_mono [OF content_law], goal_cases)
  case (1 m w1)
  with assms(1) have "content (gbs_session srv) req w1 = Some mem" "m = Some mem" by simp_all
  from wp_mono [OF store_law [OF this(1)]] this(2) assms show ?case
    by (simp add: put_at_laws)
qed

lemma write_law:
  assumes "content (gbs_session srv) req w = Some (put_at mem (unat off) buffer)"
    and "unat off + unat sz \<le> length mem" and "length buffer = unat sz" and "length out = unat sz"
  shows "wp (gblock_server_write R srv req out off sz) (\<lambda>r w'. r = Some buffer \<and>
     (\<exists>mem'. content (gbs_session srv) req w' = Some mem' \<and>
       length mem' = length mem \<and> take (unat off) mem' = take (unat off) mem \<and>
       drop (unat off + unat sz) mem' = drop (unat off + unat sz) mem)) w"
  unfolding gblock_server_write_def wp_simps
  by (rule wp_mono [OF content_law])
    (use assms put_at_laws [of "unat off" buffer mem] in \<open>simp add: put_at_whole\<close>)

end

text \<open>An executable stream: the world is the list of pending and of acknowledged requests.\<close>

record rsim =
  rw_pending :: "srequest list"
  rw_acked :: "srequest list"
  rw_room :: nat
  rw_mem :: bytes

definition rsim_stream :: "rsim request_stream" where
  "rsim_stream = \<lparr> rs_construct = (\<lambda>_ _ _ _. ret True), rs_manage = (\<lambda>_. ret ()),
     rs_with_requests = (\<lambda>_ f x. State (\<lambda>w. case drain f x (rw_pending w) of (y, rs) \<Rightarrow> (y, w\<lparr>rw_pending := rs\<rparr>))),
     rs_content = (\<lambda>_ _. State (\<lambda>w. (Some (rw_mem w), w))),
     rs_store = (\<lambda>_ _ m. State (\<lambda>w. ((), w\<lparr>rw_mem := m\<rparr>))),
     rs_try_acknowledge = (\<lambda>_ f x. State (\<lambda>w. case rounds (rw_room w) f x of (rs, y) \<Rightarrow> (y, w\<lparr>rw_acked := rw_acked w @ rs\<rparr>))),
     rs_wakeup = (\<lambda>_. ret ()), rs_cap = (\<lambda>p. p + 5), rs_tx_cap = (\<lambda>p. p + 6), rs_dissolve = (\<lambda>_. ret ()) \<rparr>"

interpretation rsim: stream_laws rsim_stream "\<lambda>_. rw_pending" "\<lambda>_. rw_acked"
  by unfold_locales (auto simp: rsim_stream_def wp_def split: prod.splits)

interpretation rsim_content: stream_content rsim_stream "\<lambda>_ _ w. Some (rw_mem w)"
  by unfold_locales (auto simp: rsim_stream_def wp_def)

subsection \<open>Properties of the server\<close>

text \<open>
  C32. A Genode block server handles every client request once: \<open>Process\<close> takes the oldest
  pending request and no other, in the order of the client, marks it \<open>Pending\<close> and assigns it
  to the session, or changes nothing if there is none; \<open>Acknowledge\<close> sends the response
  with the success flag of its argument at most once and frees the request exactly when it
  was sent, so an acknowledgement that finds no room can be repeated.
\<close>

theorem block_server_requests:
  assumes "stream_laws R pending acked"
  shows "wp (BServer_Process R srv r) (\<lambda>r' w'. case pending (gbs_session srv) w of
        [] \<Rightarrow> r' = r \<and> pending (gbs_session srv) w' = []
      | q # qs \<Rightarrow> r' = \<lparr>bq_request = q, bq_status = BS_Pending, bq_session = gbs_tag srv\<rparr> \<and>
          pending (gbs_session srv) w' = qs) w \<and>
    wp (BServer_Acknowledge R srv r res) (\<lambda>r' w'.
      bq_request r' = (bq_request r)\<lparr>rq_success := (res = BS_Ok)\<rparr> \<and>
      (bq_status r' = bq_status r \<and> acked (gbs_session srv) w' = acked (gbs_session srv) w \<or>
       bq_status r' = BS_Raw \<and> acked (gbs_session srv) w' = acked (gbs_session srv) w @ [bq_request r'])) w"
proof (rule conjI)
  show "wp (BServer_Process R srv r) (\<lambda>r' w'. case pending (gbs_session srv) w of
        [] \<Rightarrow> r' = r \<and> pending (gbs_session srv) w' = []
      | q # qs \<Rightarrow> r' = \<lparr>bq_request = q, bq_status = BS_Pending, bq_session = gbs_tag srv\<rparr> \<and>
          pending (gbs_session srv) w' = qs) w"
    unfolding BServer_Process_def Let_def wp_simps
    by (rule wp_mono [OF stream_laws.process_law [OF assms]]) (auto split: list.splits)
  show "wp (BServer_Acknowledge R srv r res) (\<lambda>r' w'.
      bq_request r' = (bq_request r)\<lparr>rq_success := (res = BS_Ok)\<rparr> \<and>
      (bq_status r' = bq_status r \<and> acked (gbs_session srv) w' = acked (gbs_session srv) w \<or>
       bq_status r' = BS_Raw \<and> acked (gbs_session srv) w' = acked (gbs_session srv) w @ [bq_request r'])) w"
    unfolding BServer_Acknowledge_def Let_def wp_simps
    by (rule wp_mono [OF stream_laws.acknowledge_law [OF assms]]) auto
qed

definition sample_srequest :: "u64 \<Rightarrow> srequest" where
  "sample_srequest t = \<lparr> rq_kind = 1, rq_block_number = 0, rq_block_count = 1, rq_success = False, rq_offset = 0, rq_tag = t \<rparr>"

definition sample_bs_request :: bs_request where
  "sample_bs_request = \<lparr> bq_request = sample_srequest 0, bq_status = BS_Raw, bq_session = None \<rparr>"

theorem block_server_requests_witness:
  "wp (BServer_Process rsim_stream (gblock_server_new\<lparr>gbs_object := Some (16, \<lparr> br_env = 0x200, br_sigh = 17, br_server = 3, br_ds = 19, br_session = \<lparr> sc_ep = 0x200, sc_server = 3 \<rparr> \<rparr>), gbs_tag := Some 3\<rparr>) sample_bs_request) (\<lambda>r' w'.
      r' = \<lparr>bq_request = sample_srequest 8, bq_status = BS_Pending, bq_session = Some 3\<rparr> \<and> rw_pending w' = [sample_srequest 9])
     \<lparr>rw_pending = [sample_srequest 8, sample_srequest 9], rw_acked = [], rw_room = 1, rw_mem = []\<rparr>"
  using block_server_requests [OF rsim.stream_laws_axioms, of "gblock_server_new\<lparr>gbs_object := Some (16, \<lparr> br_env = 0x200, br_sigh = 17, br_server = 3, br_ds = 19, br_session = \<lparr> sc_ep = 0x200, sc_server = 3 \<rparr> \<rparr>), gbs_tag := Some 3\<rparr>"
      sample_bs_request "\<lparr>rw_pending = [sample_srequest 8, sample_srequest 9], rw_acked = [], rw_room = 1, rw_mem = []\<rparr>" BS_Ok]
  by simp

text \<open>
  The block count that the constructor of the session component gives to the request
  stream is the block size of the device, not its block count; it agrees with what \<open>info()\<close>
  tells the client only for devices with as many blocks as a block has bytes.
\<close>

theorem block_session_info_mismatch:
  "in_block_count (session_component_info B i w) = im_block_size B i w \<and>
   (session_component_info B i w = gblock_info B i w \<longleftrightarrow> im_block_count B i w = im_block_size B i w)"
  by (auto simp: session_component_info_def gblock_info_def)



subsection \<open>The dispatcher and its root\<close>

text \<open>
  The state of the service: the fields of \<open>Cai::Block::Dispatcher\<close>, the server objects, and
  the \<open>Dcap\<close> of the request being dispatched. A null label is \<open>None\<close>, a null close capability
  is \<open>None\<close>.
\<close>

record dcap =
  dc_size :: u64
  dc_label :: "string option"
  dc_root :: addr
  dc_cap :: "u64 option"

record gblock_root =
  rt_env :: addr
  rt_dispatcher :: addr

record 'w block_service =
  bk_world :: 'w
  bk_object :: "(addr \<times> gblock_root) option"
  bk_handler :: addr
  bk_tag :: "nat option"
  bk_servers :: "nat \<Rightarrow> gblock_server"
  bk_dcap :: dcap

abbreviation bk_root :: "'w block_service \<Rightarrow> addr" where
  "bk_root s \<equiv> ptr (bk_object s)"

definition in_bk :: "('w, 'a) state \<Rightarrow> ('w block_service, 'a) state" where
  "in_bk m = State (\<lambda>s. case run_state m (bk_world s) of (a, w) \<Rightarrow> (a, s\<lparr>bk_world := w\<rparr>))"

lemma wp_in_bk [wp_simps]:
  "wp (in_bk m) Q = (\<lambda>s. wp m (\<lambda>a w. Q a (s\<lparr>bk_world := w\<rparr>)) (bk_world s))"
  by (auto simp: wp_def in_bk_def fun_eq_iff split: prod.splits)

definition set_bserver :: "nat \<Rightarrow> gblock_server \<Rightarrow> ('w block_service, unit) state" where
  "set_bserver i srv = update (\<lambda>s. s\<lparr>bk_servers := (bk_servers s)(i := srv)\<rparr>)"

text \<open>
  \<open>Cai::Block::Root\<close> and \<open>Cai::Block::Dispatcher\<close>: constructors, the empty \<open>upgrade\<close>, and the accessors
  of a \<open>Dcap\<close>; the label ends at the first NUL, and \<open>strlen\<close> of a null label is undefined (\<open>None\<close>).
\<close>

definition block_root_new :: "addr \<Rightarrow> addr \<Rightarrow> gblock_root" where
  "block_root_new env dispatcher = \<lparr>rt_env = env, rt_dispatcher = dispatcher\<rparr>"

definition block_root_upgrade :: "('w block_service, unit) state" where
  "block_root_upgrade = ret ()"

definition gblock_dispatcher_new :: "'w block_service \<Rightarrow> 'w block_service" where
  "gblock_dispatcher_new s = s\<lparr>bk_object := None, bk_handler := null, bk_tag := None\<rparr>"

definition dcap_label_content :: "dcap \<Rightarrow> string option" where
  "dcap_label_content d = dc_label d"

definition dcap_label_length :: "dcap \<Rightarrow> u64 option" where
  "dcap_label_length d = map_option (\<lambda>l. of_nat (length (takeWhile (\<lambda>c. c \<noteq> CHR 0x00) l))) (dc_label d)"

definition dcap_session_size :: "dcap \<Rightarrow> u64" where
  "dcap_session_size d = dc_size d"

text \<open>\<open>get_capability\<close> dereferences the root, which exists in an initialized dispatcher.\<close>

definition gblock_get_capability :: "'w block_service \<Rightarrow> addr" where
  "gblock_get_capability s = (case bk_object s of Some (_, root) \<Rightarrow> rt_env root | None \<Rightarrow> null)"

lemmas dcap_accessors [simp] = dcap_label_content_def dcap_session_size_def

definition gblock_dispatcher_initialize :: "'w genode \<Rightarrow> addr \<Rightarrow> addr \<Rightarrow> addr \<Rightarrow> ('w block_service, unit) state" where
  "gblock_dispatcher_initialize G self env callback = do {
     update (\<lambda>s. s\<lparr>bk_handler := callback\<rparr>);
     in_bk (check_factory G);
     r \<leftarrow> in_bk (create G ''Cai::Block::Root'' (\<lambda>_. ret (Some (block_root_new env self))));
     update (\<lambda>s. s\<lparr>bk_object := r\<rparr>)
   }"

definition gblock_dispatcher_finalize :: "'w genode \<Rightarrow> ('w block_service, unit) state" where
  "gblock_dispatcher_finalize G = do {
     s \<leftarrow> getS;
     in_bk (destroy_void G (bk_root s));
     update (\<lambda>s. s\<lparr>bk_object := None, bk_handler := null\<rparr>)
   }"

definition gblock_announce :: "'w genode \<Rightarrow> ('w block_service, unit) state" where
  "gblock_announce G = do {
     s \<leftarrow> getS;
     in_bk (g_announce G (bk_root s))
   }"

definition gblock_session_accept :: "nat \<Rightarrow> ('w block_service, unit) state" where
  "gblock_session_accept i = update (\<lambda>s. s\<lparr>bk_dcap := (bk_dcap s)\<lparr>dc_root := gbs_session (bk_servers s i)\<rparr>\<rparr>)"

definition gblock_session_cleanup :: "'w request_stream \<Rightarrow> dcap \<Rightarrow> gblock_server \<Rightarrow> bool" where
  "gblock_session_cleanup R d srv =
     (if gbs_session srv \<noteq> null
      then (case dc_cap d of Some close_cap \<Rightarrow> block_root_cap R (gbs_session srv) = close_cap | None \<Rightarrow> False)
      else False)"

text \<open>\<open>Gneiss.Block.Dispatcher\<close>.\<close>

definition BDispatcher_Initialized :: "'w block_service \<Rightarrow> bool" where
  "BDispatcher_Initialized s \<longleftrightarrow> bk_root s \<noteq> null \<and> bk_handler s \<noteq> null"

definition BDispatcher_Initialize :: "'w genode \<Rightarrow> addr \<Rightarrow> addr \<Rightarrow> addr \<Rightarrow> nat \<Rightarrow> ('w block_service, unit) state" where
  "BDispatcher_Initialize G self cap dispatch tag = do {
     s \<leftarrow> getS;
     if BDispatcher_Initialized s then ret ()
     else do {
       gblock_dispatcher_initialize G self cap dispatch;
       s \<leftarrow> getS;
       whenM (BDispatcher_Initialized s) (update (\<lambda>s. s\<lparr>bk_tag := Some tag\<rparr>))
     }
   }"

definition BDispatcher_Finalize :: "'w genode \<Rightarrow> ('w block_service, unit) state" where
  "BDispatcher_Finalize G = do {
     s \<leftarrow> getS;
     if \<not> BDispatcher_Initialized s then ret () else gblock_dispatcher_finalize G
   }"

definition BDispatcher_Valid_Session_Request :: "dcap \<Rightarrow> bool" where
  "BDispatcher_Valid_Session_Request d \<longleftrightarrow> dcap_label_content d \<noteq> None"

definition BDispatcher_Session_Initialize ::
  "'w genode \<Rightarrow> 'w request_stream \<Rightarrow> 'w block_impl \<Rightarrow> addr \<Rightarrow> nat \<Rightarrow> nat \<Rightarrow> ('w block_service, unit) state" where
  "BDispatcher_Session_Initialize G R B cb i idx = do {
     s \<leftarrow> getS;
     let sz = dcap_session_size (bk_dcap s);
     set_bserver i ((bk_servers s i)\<lparr>gbs_tag := Some idx\<rparr>);
     in_bk (im_initialize B i (case dcap_label_content (bk_dcap s) of Some l \<Rightarrow> l | None \<Rightarrow> []) sz);
     s \<leftarrow> getS;
     if \<not> im_ready B i (bk_world s) then ret ()
     else do {
       srv \<leftarrow> in_bk (gblock_server_initialize G R B (gblock_get_capability s) i sz cb cb cb cb (bk_servers s i));
       set_bserver i srv;
       whenM (\<not> BServer_Initialized srv) (in_bk (im_finalize B i))
     }
   }"

definition BDispatcher_Session_Cleanup ::
  "'w genode \<Rightarrow> 'w request_stream \<Rightarrow> 'w block_impl \<Rightarrow> nat \<Rightarrow> ('w block_service, unit) state" where
  "BDispatcher_Session_Cleanup G R B i = do {
     s \<leftarrow> getS;
     whenM (gblock_session_cleanup R (bk_dcap s) (bk_servers s i)) (do {
       in_bk (im_finalize B i);
       s \<leftarrow> getS;
       srv \<leftarrow> in_bk (gblock_server_finalize G (bk_servers s i));
       set_bserver i srv
     })
   }"

text \<open>
  The component's \<open>Dispatch\<close> procedure as a sequence of the calls above; as in \<open>Genode_Root\<close>
  a call whose precondition fails is skipped.
\<close>

fun run_block_dispatch ::
  "'w genode \<Rightarrow> 'w request_stream \<Rightarrow> 'w block_impl \<Rightarrow> addr \<Rightarrow> dispatch_op list \<Rightarrow> ('w block_service, unit) state" where
  "run_block_dispatch G R B cb [] = ret ()"
| "run_block_dispatch G R B cb (D_Initialize i idx # ops) = do {
     s \<leftarrow> getS;
     whenM (BDispatcher_Valid_Session_Request (bk_dcap s) \<and> \<not> BServer_Initialized (bk_servers s i))
       (BDispatcher_Session_Initialize G R B cb i idx);
     run_block_dispatch G R B cb ops
   }"
| "run_block_dispatch G R B cb (D_Accept i # ops) = do {
     s \<leftarrow> getS;
     whenM (BDispatcher_Valid_Session_Request (bk_dcap s) \<and> BServer_Initialized (bk_servers s i))
       (gblock_session_accept i);
     run_block_dispatch G R B cb ops
   }"
| "run_block_dispatch G R B cb (D_Cleanup i # ops) = do {
     BDispatcher_Session_Cleanup G R B i;
     run_block_dispatch G R B cb ops
   }"

text \<open>
  \<open>Root::dispatch\<close> hands a \<open>Dcap\<close> to the component; \<open>Root::session\<close> and \<open>Root::close\<close> call it with a new
  one. \<open>D\<close> is what the component does for a label.
\<close>

definition gblock_root_dispatch ::
  "'w genode \<Rightarrow> 'w request_stream \<Rightarrow> 'w block_impl \<Rightarrow> addr \<Rightarrow> dispatch_op list \<Rightarrow> dcap \<Rightarrow> ('w block_service, unit) state" where
  "gblock_root_dispatch G R B cb ops cap = do {
     update (\<lambda>s. s\<lparr>bk_dcap := cap\<rparr>);
     run_block_dispatch G R B cb ops
   }"

definition gblock_root_session ::
  "'w genode \<Rightarrow> 'w request_stream \<Rightarrow> 'w block_impl \<Rightarrow> addr \<Rightarrow> (string \<Rightarrow> u64 \<Rightarrow> dispatch_op list) \<Rightarrow> string \<Rightarrow>
   ('w block_service, root_error + u64) state" where
  "gblock_root_session G R B cb D args =
     (let ds_size = g_arg_value G args ''tx_buf_size'' 0;
          ram_quota = g_arg_value G args ''ram_quota'' 0;
          label = g_label_last_element G (g_label_from_args G args)
      in if ds_size \<ge> ram_quota
         then do {
           in_bk (g_warning G ''communication buffer size exceeds session quota'');
           ret (Inl Insufficient_ram_quota)
         } else do {
           gblock_root_dispatch G R B cb (D label ds_size) \<lparr>dc_size = ds_size, dc_label = Some label, dc_root = null, dc_cap = None\<rparr>;
           s \<leftarrow> getS;
           if dc_root (bk_dcap s) \<noteq> null then ret (Inr (block_root_cap R (dc_root (bk_dcap s))))
           else do {
             in_bk (g_warning G ''Failed to create block session'');
             ret (Inl Service_denied)
           }
         })"

definition gblock_root_close ::
  "'w genode \<Rightarrow> 'w request_stream \<Rightarrow> 'w block_impl \<Rightarrow> addr \<Rightarrow> dispatch_op list \<Rightarrow> u64 \<Rightarrow> ('w block_service, unit) state" where
  "gblock_root_close G R B cb ops close_cap =
     gblock_root_dispatch G R B cb ops \<lparr>dc_size = 0, dc_label = None, dc_root = null, dc_cap = Some close_cap\<rparr>"

subsection \<open>Requests and disconnects\<close>

text \<open>During a request: what \<open>Session_Accept\<close> stored is the session of an initialized server.\<close>

definition dcap_served :: "'w block_service \<Rightarrow> bool" where
  "dcap_served s \<longleftrightarrow> dc_cap (bk_dcap s) = None \<and>
     (dc_root (bk_dcap s) = null \<or>
      (\<exists>i. BServer_Initialized (bk_servers s i) \<and> gbs_session (bk_servers s i) = dc_root (bk_dcap s)))"

lemma wp_set_bserver [wp_simps]:
  "wp (set_bserver i srv) Q = (\<lambda>s. Q () (s\<lparr>bk_servers := (bk_servers s)(i := srv)\<rparr>))"
  by (simp add: set_bserver_def wp_update)

lemma dcap_served_set:
  "dcap_served s \<Longrightarrow> \<not> BServer_Initialized (bk_servers s i) \<Longrightarrow>
   bk_servers s' = (bk_servers s)(i := srv) \<Longrightarrow> bk_dcap s' = bk_dcap s \<Longrightarrow> dcap_served s'"
  unfolding dcap_served_def by (metis fun_upd_other)

lemma session_initialize_served:
  assumes "dcap_served s" and "\<not> BServer_Initialized (bk_servers s i)"
  shows "wp (BDispatcher_Session_Initialize G R B cb i idx) (\<lambda>_ s'. dcap_served s') s"
  unfolding BDispatcher_Session_Initialize_def Let_def wp_simps
  by (auto simp: wp_run wp_simps intro: dcap_served_set [OF assms])

lemma session_cleanup_request:
  "dc_cap (bk_dcap s) = None \<Longrightarrow> wp (BDispatcher_Session_Cleanup G R B i) (\<lambda>_ s'. s' = s) s"
  by (simp add: BDispatcher_Session_Cleanup_def gblock_session_cleanup_def wp_simps)

lemma run_block_request:
  "dcap_served s \<Longrightarrow> wp (run_block_dispatch G R B cb ops) (\<lambda>_ s'. dcap_served s') s"
proof (induction ops arbitrary: s)
  case Nil
  then show ?case by (simp add: wp_simps)
next
  case (Cons op ops)
  then have none: "dc_cap (bk_dcap s) = None" by (simp add: dcap_served_def)
  show ?case
  proof (cases op)
    case (D_Initialize i idx)
    with Cons show ?thesis
      by (auto simp: wp_simps intro: wp_mono [OF session_initialize_served])
  next
    case (D_Accept i)
    have "dcap_served (s\<lparr>bk_dcap := (bk_dcap s)\<lparr>dc_root := gbs_session (bk_servers s i)\<rparr>\<rparr>)"
      if "BServer_Initialized (bk_servers s i)"
      using that none by (auto simp: dcap_served_def)
    with Cons D_Accept show ?thesis
      by (simp add: gblock_session_accept_def wp_simps)
  next
    case (D_Cleanup i)
    with Cons wp_mono [OF session_cleanup_request [OF none]] show ?thesis
      by (simp add: wp_simps)
  qed
qed

text \<open>What \<open>finalize\<close> leaves of a server object.\<close>

definition closed_server :: "gblock_server \<Rightarrow> gblock_server" where
  "closed_server srv = srv\<lparr>gbs_object := None, gbs_callback := null, gbs_block_count := null,
     gbs_block_size := null, gbs_writable := null\<rparr>"

definition close_step :: "'w request_stream \<Rightarrow> dcap \<Rightarrow> gblock_server \<Rightarrow> gblock_server" where
  "close_step R d srv = (if gblock_session_cleanup R d srv then closed_server srv else srv)"

lemma close_step_idem [simp]: "close_step R d (close_step R d srv) = close_step R d srv"
  by (simp add: close_step_def gblock_session_cleanup_def closed_server_def)

lemma session_cleanup_law:
  "wp (BDispatcher_Session_Cleanup G R B i) (\<lambda>_ s'. bk_dcap s' = bk_dcap s \<and>
     bk_servers s' = (bk_servers s)(i := close_step R (bk_dcap s) (bk_servers s i))) s"
  by (simp add: BDispatcher_Session_Cleanup_def gblock_server_finalize_def wp_simps wp_run
      close_step_def closed_server_def)

lemma run_block_close:
  "dc_label (bk_dcap s) = None \<Longrightarrow> wp (run_block_dispatch G R B cb ops) (\<lambda>_ s'. bk_dcap s' = bk_dcap s \<and>
     bk_servers s' = (\<lambda>i. if D_Cleanup i \<in> set ops then close_step R (bk_dcap s) (bk_servers s i)
       else bk_servers s i)) s"
proof (induction ops arbitrary: s)
  case Nil
  then show ?case by (simp add: wp_simps)
next
  case (Cons op ops)
  show ?case
  proof (cases op)
    case (D_Cleanup i)
    show ?thesis
      unfolding D_Cleanup run_block_dispatch.simps wp_bind
    proof (rule wp_mono [OF session_cleanup_law], goal_cases)
      case (1 _ s1)
      then have "dc_label (bk_dcap s1) = None" using Cons.prems by simp
      from wp_mono [OF Cons.IH [OF this]] show ?case
        by (rule wp_mono) (use 1 in \<open>auto simp: fun_eq_iff\<close>)
    qed
  qed (use Cons in \<open>simp_all add: wp_simps BDispatcher_Valid_Session_Request_def\<close>)
qed

text \<open>
  C34. A request for a block session is refused for its quota exactly when the communication
  buffer does not fit into the donated RAM; a capability that is returned is that of an
  initialized server object of the component, whatever the component's \<open>Dispatch\<close> does; and
  without an accepted session the request is denied.
\<close>

theorem block_root_session_sound:
  "wp (gblock_root_session G R B cb D args) (\<lambda>r s'.
     (r = Inl Insufficient_ram_quota \<longleftrightarrow> g_arg_value G args ''ram_quota'' 0 \<le> g_arg_value G args ''tx_buf_size'' 0) \<and>
     (case r of Inr cap \<Rightarrow> \<exists>i. BServer_Initialized (bk_servers s' i) \<and> rs_cap R (gbs_session (bk_servers s' i)) = cap
      | Inl Service_denied \<Rightarrow> dc_root (bk_dcap s') = null
      | Inl Insufficient_ram_quota \<Rightarrow> bk_servers s' = bk_servers s)) s"
proof (cases "g_arg_value G args ''ram_quota'' 0 \<le> g_arg_value G args ''tx_buf_size'' 0")
  case True
  then show ?thesis by (simp add: gblock_root_session_def Let_def wp_simps wp_run)
next
  case False
  have served: "dcap_served (s\<lparr>bk_dcap := \<lparr>dc_size = n, dc_label = l, dc_root = null, dc_cap = None\<rparr>\<rparr>)" for n l
    by (simp add: dcap_served_def)
  show ?thesis
    unfolding gblock_root_session_def gblock_root_dispatch_def Let_def if_not_P [OF False] wp_simps
    by (rule wp_mono [OF run_block_request [OF served]]) (use False in \<open>auto simp: wp_run dcap_served_def\<close>)
qed


end
