(* ===== verification/Genode_Buffers.thy ===== *)
theory Genode_Buffers
  imports Genode_Clients Genode_Memory_Server Gneiss_Buffers
begin

text \<open>
  Shared memory on Genode: \<open>Modify\<close> of the Memory client and server and the procedure that \<open>Rom_Client::update\<close> calls,
  which overlay a buffer on the attached dataspace and pass it to the component.
\<close>

text \<open>\<open>Size\<close> and \<open>Address\<close> dereference the session pointer: \<open>None\<close> if it is null.\<close>

definition GMemory_Client_Modify ::
  "'w address_space \<Rightarrow> index_type \<Rightarrow> (int \<Rightarrow> bytes \<Rightarrow> ('w, bytes) state) \<Rightarrow> memory_client \<Rightarrow> ('w, (ada_error + unit) option) state" where
  "GMemory_Client_Modify M t f c = (case (memory_client_size c, memory_client_address c) of
       (Some len, Some p) \<Rightarrow> (case genode_bounds t len of
           Inl e \<Rightarrow> ret (Some (Inl e))
         | Inr r \<Rightarrow> do { modify_at M p r f; ret (Some (Inr ())) })
     | _ \<Rightarrow> ret None)"

definition GMemory_Server_Modify ::
  "'w address_space \<Rightarrow> index_type \<Rightarrow> (int \<Rightarrow> bytes \<Rightarrow> ('w, bytes) state) \<Rightarrow> memory_server \<Rightarrow> ('w, ada_error + unit) state" where
  "GMemory_Server_Modify M t f srv = (case genode_bounds t (msv_size srv) of
       Inl e \<Rightarrow> ret (Inl e)
     | Inr r \<Rightarrow> do { modify_at M (msv_addr srv) r f; ret (Inr ()) })"

definition GRom_Read ::
  "'w address_space \<Rightarrow> index_type \<Rightarrow> (int \<Rightarrow> bytes \<Rightarrow> ('w, unit) state) \<Rightarrow> addr \<Rightarrow> int \<Rightarrow> ('w, ada_error + unit) state" where
  "GRom_Read M t f p len = (case genode_bounds t len of
       Inl e \<Rightarrow> ret (Inl e)
     | Inr r \<Rightarrow> do { read_at M p r f; ret (Inr ()) })"

subsection \<open>Properties\<close>

context memory_laws
begin

lemma genode_modify_area:
  assumes "buffer_code f" and "index_ok t" and "0 \<le> len"
  shows "wp (case genode_bounds t len of Inl e \<Rightarrow> ret (Inl e) | Inr r \<Rightarrow> do { modify_at M p r f; ret (Inr ()) })
    (\<lambda>r w'. \<forall>q. q \<notin> area p (nat len) \<longrightarrow> content w' q = content w q) w"
  using assms(2,3)
  by (cases rule: genode_bounds_cases) (auto simp: wp_simps intro!: wp_mono [OF modify_at_area [OF assms(1)]])

end

text \<open>
  \<open>Modify\<close> stays inside the dataspace on Genode, too: for a client with a session and for a server, bytes outside the
  first \<open>size\<close> bytes of the dataspace are unchanged.
\<close>

theorem genode_modify_inside:
  assumes "memory_laws M content" and "memory_laws.buffer_code content f" and "index_ok t"
    and "mcl_session c = Some (p, m)" and "0 \<le> sint (mc_size m)" and "0 \<le> msv_size srv"
  shows "wp (GMemory_Client_Modify M t f c) (\<lambda>r w'. r \<noteq> None \<and>
      (\<forall>q. q \<notin> area (mc_addr m) (nat (sint (mc_size m))) \<longrightarrow> content w' q = content w q)) w \<and>
    wp (GMemory_Server_Modify M t f srv) (\<lambda>r w'. \<forall>q. q \<notin> area (msv_addr srv) (nat (msv_size srv)) \<longrightarrow> content w' q = content w q) w"
proof
  note inside = memory_laws.genode_modify_area [OF assms(1-3)]
  show "wp (GMemory_Server_Modify M t f srv) (\<lambda>r w'. \<forall>q. q \<notin> area (msv_addr srv) (nat (msv_size srv)) \<longrightarrow> content w' q = content w q) w"
    unfolding GMemory_Server_Modify_def using inside [OF assms(6)] .
  show "wp (GMemory_Client_Modify M t f c) (\<lambda>r w'. r \<noteq> None \<and>
      (\<forall>q. q \<notin> area (mc_addr m) (nat (sint (mc_size m))) \<longrightarrow> content w' q = content w q)) w"
    using inside [OF assms(5), of "mc_addr m" w] assms(4)
    by (auto simp: GMemory_Client_Modify_def memory_client_size_def memory_client_address_def memory_connection_size_def
        memory_connection_local_addr_def wp_simps split: sum.splits)
qed



end
