(* ===== verification/Genode_Main.thy ===== *)
theory Genode_Main
  imports Gneiss_Prelude
begin

text \<open>
  The life of a Gneiss component on Genode: \<open>cai_main.cc\<close> with the capability structure of
  \<open>gneiss.h\<close>, and the Ada body \<open>Gneiss.Component\<close>. Genode's entrypoint and the Ada runtime are
  the parameter \<open>K\<close>; the component's own code is a list of the statuses it passes to \<open>Vacate\<close>.
\<close>

subsection \<open>The code\<close>

record 'w main_calls =
  mk_static_constructors :: "('w, unit) state"
  mk_signal_handler :: "('w, u64) state"
  mk_submit :: "u64 \<Rightarrow> ('w, unit) state"
  mk_parent_exit :: "int \<Rightarrow> ('w, unit) state"
  mk_adainit :: "('w, unit) state"
  mk_adafinal :: "('w, unit) state"
  mk_construct :: "('w, unit) state"
  mk_destruct :: "('w, unit) state"

text \<open>\<open>Gneiss::Capability\<close>.\<close>

record cai_env =
  ce_status :: int
  ce_exit_signal :: u64

definition RUNNING :: int where "RUNNING = - 1"
definition SUCCESS :: int where "SUCCESS = 0"
definition ERROR :: int where "ERROR = 1"

definition component_vacate :: "'w main_calls \<Rightarrow> int \<Rightarrow> cai_env \<Rightarrow> ('w, cai_env) state" where
  "component_vacate K status env = do {
     let env = env\<lparr>ce_status := status\<rparr>;
     mk_submit K (ce_exit_signal env);
     ret env
   }"

datatype component_status = Success | Failure

definition Vacate :: "'w main_calls \<Rightarrow> component_status \<Rightarrow> cai_env \<Rightarrow> ('w, cai_env) state" where
  "Vacate K status env =
     (if status = Success then component_vacate K 0 env else component_vacate K 1 env)"

text \<open>Component code between two returns to the entrypoint.\<close>

fun run_component :: "'w main_calls \<Rightarrow> component_status list \<Rightarrow> cai_env \<Rightarrow> ('w, cai_env) state" where
  "run_component K [] env = ret env"
| "run_component K (v # vs) env = do {
     env \<leftarrow> Vacate K v env;
     run_component K vs env
   }"

definition Construct :: "'w main_calls \<Rightarrow> component_status list \<Rightarrow> cai_env \<Rightarrow> ('w, cai_env) state" where
  "Construct K vs env = do {
     mk_construct K;
     run_component K vs env
   }"

definition Destruct :: "'w main_calls \<Rightarrow> component_status list \<Rightarrow> cai_env \<Rightarrow> ('w, cai_env) state" where
  "Destruct K vs env = do {
     mk_destruct K;
     run_component K vs env
   }"

definition main_ctor :: "'w main_calls \<Rightarrow> component_status list \<Rightarrow> ('w, cai_env) state" where
  "main_ctor K vs = do {
     exit \<leftarrow> mk_signal_handler K;
     let env = \<lparr>ce_status = RUNNING, ce_exit_signal = exit\<rparr>;
     mk_adainit K;
     Construct K vs env
   }"

definition exit_handler :: "'w main_calls \<Rightarrow> component_status list \<Rightarrow> cai_env \<Rightarrow> ('w, cai_env) state" where
  "exit_handler K vs env = do {
     env \<leftarrow> Destruct K vs env;
     mk_adafinal K;
     mk_parent_exit K (ce_status env);
     ret env
   }"

text \<open>\<open>Component::construct\<close>, where Genode starts the component.\<close>

definition component_construct :: "'w main_calls \<Rightarrow> component_status list \<Rightarrow> ('w, cai_env) state" where
  "component_construct K vs = do {
     mk_static_constructors K;
     main_ctor K vs
   }"

subsection \<open>The entrypoint\<close>

text \<open>
  A world that records the calls, with the submitted signals the entrypoint has not handled
  yet. The entrypoint runs one handler at a time: the constructor first, then handlers of
  the component's sessions in any order, and the exit handler when its signal is pending.
\<close>

datatype main_event = Ada_Init | Constructed | Entered | Submitted_Exit | Destructed | Ada_Final | Exited int

record life =
  lf_pending :: bool
  lf_trace :: "main_event list"

definition life_log :: "main_event \<Rightarrow> (life, unit) state" where
  "life_log e = State (\<lambda>w. ((), w\<lparr>lf_trace := lf_trace w @ [e]\<rparr>))"

definition life_calls :: "life main_calls" where
  "life_calls = \<lparr> mk_static_constructors = ret (), mk_signal_handler = ret 1,
     mk_submit = (\<lambda>_. State (\<lambda>w. ((), w\<lparr>lf_pending := True, lf_trace := lf_trace w @ [Submitted_Exit]\<rparr>))),
     mk_parent_exit = (\<lambda>v. life_log (Exited v)), mk_adainit = life_log Ada_Init, mk_adafinal = life_log Ada_Final,
     mk_construct = life_log Constructed, mk_destruct = life_log Destructed \<rparr>"

lemma life_calls_simps [simp]:
  "mk_static_constructors life_calls = ret ()" "mk_signal_handler life_calls = ret 1"
  "mk_submit life_calls c = State (\<lambda>w. ((), w\<lparr>lf_pending := True, lf_trace := lf_trace w @ [Submitted_Exit]\<rparr>))"
  "mk_parent_exit life_calls v = life_log (Exited v)"
  "mk_adainit life_calls = life_log Ada_Init" "mk_adafinal life_calls = life_log Ada_Final"
  "mk_construct life_calls = life_log Constructed" "mk_destruct life_calls = life_log Destructed"
  by (simp_all add: life_calls_def)

text \<open>The first argument is the list of all statuses that were passed to \<open>Vacate\<close> so far.\<close>

inductive life_reachable :: "component_status list \<Rightarrow> cai_env \<times> life \<Rightarrow> bool" where
  life_start: "run_state (component_construct life_calls vs) \<lparr>lf_pending = False, lf_trace = []\<rparr> = s \<Longrightarrow> life_reachable vs s"
| life_handler: "life_reachable h (env, w) \<Longrightarrow>
    run_state (run_component life_calls vs env) (w\<lparr>lf_trace := lf_trace w @ [Entered]\<rparr>) = s \<Longrightarrow>
    life_reachable (h @ vs) s"
| life_exit: "life_reachable h (env, w) \<Longrightarrow> lf_pending w \<Longrightarrow>
    run_state (exit_handler life_calls vs env) (w\<lparr>lf_pending := False\<rparr>) = s \<Longrightarrow> life_reachable (h @ vs) s"

text \<open>What component code does to the world: it submits once per \<open>Vacate\<close> and keeps the last status.\<close>

definition exit_code :: "component_status \<Rightarrow> int" where
  "exit_code v = (if v = Success then SUCCESS else ERROR)"

definition status_after :: "int \<Rightarrow> component_status list \<Rightarrow> int" where
  "status_after s vs = (if vs = [] then s else exit_code (last vs))"

lemma status_after_append: "status_after (status_after s vs) vs' = status_after s (vs @ vs')"
  by (simp add: status_after_def)

lemma run_component_life:
  "run_state (run_component life_calls vs env) w =
     (env\<lparr>ce_status := status_after (ce_status env) vs\<rparr>,
      w\<lparr>lf_pending := lf_pending w \<or> vs \<noteq> [], lf_trace := lf_trace w @ replicate (length vs) Submitted_Exit\<rparr>)"
proof (induction vs arbitrary: env w)
  case Nil
  then show ?case by (simp add: status_after_def)
next
  case (Cons v vs)
  show ?case
    by (simp add: Cons Vacate_def component_vacate_def status_after_def exit_code_def SUCCESS_def ERROR_def)
qed

lemma main_ctor_life:
  "run_state (component_construct life_calls vs) \<lparr>lf_pending = False, lf_trace = []\<rparr> =
     (\<lparr>ce_status = status_after RUNNING vs, ce_exit_signal = 1\<rparr>,
      \<lparr>lf_pending = (vs \<noteq> []), lf_trace = [Ada_Init, Constructed] @ replicate (length vs) Submitted_Exit\<rparr>)"
  by (simp add: component_construct_def main_ctor_def Construct_def run_component_life life_log_def)

lemma exit_handler_life:
  "run_state (exit_handler life_calls vs env) w =
     (env\<lparr>ce_status := status_after (ce_status env) vs\<rparr>,
      w\<lparr>lf_pending := lf_pending w \<or> vs \<noteq> [], lf_trace := lf_trace w @ (Destructed #
         replicate (length vs) Submitted_Exit) @ [Ada_Final, Exited (status_after (ce_status env) vs)]\<rparr>)"
  by (simp add: exit_handler_def Destruct_def run_component_life life_log_def)

subsection \<open>The life cycle\<close>

definition submits :: "main_event list \<Rightarrow> nat" where
  "submits t = length (filter (\<lambda>e. e = Submitted_Exit) t)"

definition destructs :: "main_event list \<Rightarrow> nat" where
  "destructs t = length (filter (\<lambda>e. e = Destructed) t)"

lemma submits_simps [simp]:
  "submits [] = 0" "submits (a @ b) = submits a + submits b"
  "submits (e # t) = (if e = Submitted_Exit then 1 else 0) + submits t"
  "submits (replicate n Submitted_Exit) = n"
  by (simp_all add: submits_def)

lemma destructs_simps [simp]:
  "destructs [] = 0" "destructs (a @ b) = destructs a + destructs b"
  "destructs (e # t) = (if e = Destructed then 1 else 0) + destructs t"
  "destructs (replicate n Submitted_Exit) = 0"
  by (simp_all add: destructs_def)

text \<open>
  The invariant: the status is that of the last \<open>Vacate\<close>; every destruction and a pending
  exit signal answer a \<open>Vacate\<close> of their own; every exit was reported right after the
  destruction and carries the status of the last \<open>Vacate\<close> before it.
\<close>

definition exit_ok :: "component_status list \<Rightarrow> main_event list \<Rightarrow> int \<Rightarrow> bool" where
  "exit_ok h us v \<longleftrightarrow> 0 < submits us \<and> submits us \<le> length h \<and> v = exit_code (h ! (submits us - 1)) \<and>
     destructs us \<le> submits us \<and> (\<exists>ts n. us = ts @ (Destructed # replicate n Submitted_Exit) @ [Ada_Final])"

definition exits_ok :: "component_status list \<Rightarrow> main_event list \<Rightarrow> bool" where
  "exits_ok h t \<longleftrightarrow> (\<forall>us v vs. t = us @ Exited v # vs \<longrightarrow> exit_ok h us v)"

definition no_exit :: "main_event list \<Rightarrow> bool" where
  "no_exit t \<longleftrightarrow> (\<forall>v. Exited v \<notin> set t)"

lemma exit_ok_mono: "exit_ok h us v \<Longrightarrow> exit_ok (h @ h') us v"
  by (auto simp: exit_ok_def nth_append)

lemma exits_ok_snoc:
  assumes "exits_ok h t" and "\<And>v. e = Exited v \<Longrightarrow> exit_ok h t v"
  shows "exits_ok h (t @ [e])"
  unfolding exits_ok_def
proof (intro allI impI)
  fix us v vs
  assume eq: "t @ [e] = us @ Exited v # vs"
  show "exit_ok h us v"
    using assms eq by (cases vs rule: rev_cases) (auto simp: exits_ok_def)
qed

lemma exits_ok_append: "exits_ok h t \<Longrightarrow> no_exit t' \<Longrightarrow> exits_ok (h @ h') (t @ t')"
proof (induction t' rule: rev_induct)
  case Nil
  then show ?case by (auto simp: exits_ok_def intro: exit_ok_mono)
next
  case (snoc e t')
  then have "exits_ok (h @ h') ((t @ t') @ [e])"
    by (intro exits_ok_snoc) (auto simp: no_exit_def)
  then show ?case by simp
qed

definition life_ok :: "component_status list \<Rightarrow> cai_env \<times> life \<Rightarrow> bool" where
  "life_ok h s = (case s of (env, w) \<Rightarrow>
     ce_status env = status_after RUNNING h \<and> submits (lf_trace w) = length h \<and>
     destructs (lf_trace w) + (if lf_pending w then 1 else 0) \<le> length h \<and> exits_ok h (lf_trace w))"

lemma grown: "n \<le> length h \<Longrightarrow> vs \<noteq> [] \<Longrightarrow> Suc n \<le> length h + length vs"
  by (cases vs) simp_all

lemma life_reachable_ok: "life_reachable h s \<Longrightarrow> life_ok h s"
proof (induction rule: life_reachable.induct)
  case (life_start vs s)
  have "exits_ok vs ([Ada_Init, Constructed] @ replicate (length vs) Submitted_Exit)"
    using exits_ok_append [of "[]" "[]" "[Ada_Init, Constructed] @ replicate (length vs) Submitted_Exit" vs]
    by (simp add: exits_ok_def no_exit_def)
  with life_start show ?case
    by (auto simp: main_ctor_life life_ok_def Suc_le_eq)
next
  case (life_handler h env w vs s)
  have "exits_ok (h @ vs) (lf_trace w @ [Entered] @ replicate (length vs) Submitted_Exit)"
    using life_handler.IH by (intro exits_ok_append) (auto simp: no_exit_def life_ok_def)
  with life_handler show ?case
    by (auto simp: run_component_life life_ok_def status_after_append grown split: if_splits)
next
  case (life_exit h env w vs s)
  let ?t = "lf_trace w @ (Destructed # replicate (length vs) Submitted_Exit) @ [Ada_Final]"
  have IH: "ce_status env = status_after RUNNING h" "submits (lf_trace w) = length h"
    "Suc (destructs (lf_trace w)) \<le> length h" "exits_ok h (lf_trace w)"
    using life_exit.IH life_exit.hyps by (simp_all add: life_ok_def)
  have "exit_ok (h @ vs) ?t (status_after RUNNING (h @ vs))"
    using IH unfolding exit_ok_def by (auto simp: status_after_def last_conv_nth)
  moreover have "exits_ok (h @ vs) ?t"
    using IH(4) by (intro exits_ok_append) (auto simp: no_exit_def)
  ultimately have "exits_ok (h @ vs) (?t @ [Exited (status_after RUNNING (h @ vs))])"
    by (intro exits_ok_snoc) auto
  with life_exit.hyps IH show ?case
    by (auto simp: exit_handler_life life_ok_def status_after_append grown)
qed

text \<open>
  C33. A component on Genode leaves in an orderly way, whenever and however often its handlers
  call \<open>Vacate\<close>: the parent is told to exit only after a \<open>Vacate\<close>, directly after the component
  was destructed and the Ada runtime finalized, and with the status of the last \<open>Vacate\<close>
  before; each destruction answers a \<open>Vacate\<close> of its own.
\<close>

theorem component_exit_orderly:
  assumes "life_reachable h (env, w)" and "lf_trace w = us @ Exited v # vs"
  shows "0 < submits us \<and> submits us \<le> length h \<and> v = exit_code (h ! (submits us - 1)) \<and>
    destructs us \<le> submits us \<and> (\<exists>ts n. us = ts @ (Destructed # replicate n Submitted_Exit) @ [Ada_Final])"
  using life_reachable_ok [OF assms(1)] assms(2)
  unfolding exit_ok_def [symmetric] by (auto simp: life_ok_def exits_ok_def)

theorem component_exit_orderly_witness:
  "exit_code Failure = ERROR \<and> (\<exists>ts n. [Ada_Init, Constructed, Submitted_Exit, Entered, Submitted_Exit, Destructed, Ada_Final]
     = ts @ (Destructed # replicate n Submitted_Exit) @ [Ada_Final])"
proof -
  let ?w = "\<lparr>lf_pending = True, lf_trace = [Ada_Init, Constructed, Submitted_Exit]\<rparr>"
  let ?u = "\<lparr>lf_pending = True, lf_trace = [Ada_Init, Constructed, Submitted_Exit, Entered, Submitted_Exit]\<rparr>"
  have 1: "life_reachable [Success] (\<lparr>ce_status = SUCCESS, ce_exit_signal = 1\<rparr>, ?w)"
    by (rule life_start) (simp add: main_ctor_life status_after_def exit_code_def)
  have 2: "life_reachable ([Success] @ [Failure]) (\<lparr>ce_status = ERROR, ce_exit_signal = 1\<rparr>, ?u)"
    by (rule life_handler [OF 1]) (simp add: run_component_life status_after_def exit_code_def del: run_component.simps)
  have "life_reachable (([Success] @ [Failure]) @ []) (\<lparr>ce_status = ERROR, ce_exit_signal = 1\<rparr>,
     \<lparr>lf_pending = False, lf_trace = lf_trace ?u @ [Destructed, Ada_Final, Exited ERROR]\<rparr>)"
    by (rule life_exit [OF 2]) (simp_all add: exit_handler_life status_after_def exit_code_def)
  from component_exit_orderly [OF this, of "lf_trace ?u @ [Destructed, Ada_Final]" ERROR "[]"]
  show ?thesis by simp
qed

end
