(* ===== verification/Spec2Isabelle.thy ===== *)
theory Spec2Isabelle
  imports Linux_Syscall Linux_Timer Linux_Epoll Linux_Channels Linux_Block Linux_Log Linux_Sessions
    Linux_Log_Exchange Linux_Dispatcher Linux_Buffers Linux_Config Linux_Network
    Genode_Clients Genode_Log Genode_Log_Server Genode_Memory_Server Genode_Message_Server
    Genode_Message_Exchange Genode_Log_Exchange
    Genode_Block Genode_Block_Server Genode_Buffers Genode_Main
begin

text \<open>
  Verification of Gneiss, a component framework whose interfaces (Log, Message, Memory,
  Rom, Timer, Block) are implemented on two platforms: on Linux by Ada packages over a
  thin C layer with a broker process, on Genode by Ada packages over C++ classes. Paths below are
  relative to \<open>src/src\<close>.

  \<^bold>\<open>How the program works.\<close> On Linux the broker (\<open>core/linux\<close>) reads an XML configuration, forks a
  process for every component and connects it with a socket pair. A component asks the
  broker for a session with a message of the protocol of \<open>platform/linux/session.rflx\<close>; the broker looks
  up the service that the configuration of the component names for the kind and the label,
  and either answers itself (Rom, Timer) or reserves a channel and forwards the request to
  the server component, whose confirmation or rejection it routes back. Descriptors travel as
  control messages of \<open>sendmsg\<close> and \<open>recvmsg\<close>. A component process loads a shared object and serves epoll
  events until it vacates. On Genode a session request arrives as an RPC at a root object, which calls the
  component's dispatch procedure through Ada; the component initializes and accepts a
  server object, and the client's calls then reach this object.

  \<^bold>\<open>Shared theories.\<close> \<open>Gneiss_Prelude\<close>: machine types, C conversions, and the weakest-precondition
  calculus \<open>wp\<close>, \<open>keeps\<close>, \<open>result\<close>, \<open>final\<close> for code in \<open>State_Monad\<close>; every operation with effects is a
  value of type \<open>('w, 'a) state\<close> over an abstract world \<open>'w\<close>. \<open>Gneiss_Buffers\<close>: Ada index arithmetic with its checks and
  buffers on mapped memory. \<open>Linux_Posix\<close> and \<open>Genode_Base\<close> declare what the
  code calls outside the repository as records of functions (\<open>posix\<close>, \<open>genode\<close>), with the documented behaviour
  that the theorems rely on as locales (\<open>linux_fds\<close>, \<open>linux_seals\<close>, \<open>linux_sockets\<close>, \<open>linux_calls\<close>,
  \<open>genode_heap\<close>, \<open>genode_component\<close>). \<open>Linux_Reference\<close> and \<open>Genode_Reference\<close> are executable worlds that
  satisfy these laws; the witnesses run the model on them.

  \<^bold>\<open>Linux.\<close>
  \<^item> \<open>Linux_Syscall\<close>: \<open>platform/linux/syscall.c\<close> and \<open>linker.c\<close>, one definition for each function. Socket pairs
    balance with close, sealing is exact, and which descriptors \<open>read_message\<close> delivers is proved
    including the entries it copies from behind the control message.
  \<^item> \<open>Linux_Epoll\<close>: \<open>epoll.c\<close> with \<open>gneiss_internal-epoll\<close>; \<open>Linux_Timer\<close>: \<open>gneiss_timer_client.c\<close>;
    \<open>Linux_Channels\<close>: \<open>gneiss_message.c\<close>, \<open>gneiss_memory_client.c\<close> with the Ada read and write;
    \<open>Linux_Block\<close>: \<open>block_client.c\<close> with the Ada client, whose requests release their heap objects exactly once.
  \<^item> \<open>Linux_Protocol\<close>: the message format as printer and parser, \<open>gneiss_internal-packet.adb\<close> and
    \<open>gneiss_internal-client.adb\<close>; the code generated by RecordFlux is the parameter \<open>codec\<close> with the laws
    \<open>rflx_packet\<close>. What is sent is received.
  \<^item> \<open>Linux_Broker_Lookup\<close>: \<open>gneiss-broker.ads\<close> and \<open>gneiss-broker-lookup.adb\<close>; SXML, a submodule, is the record
    \<open>sxml\<close> with the laws \<open>sxml_siblings\<close> and \<open>sxml_document\<close>, and a small document type satisfies them. \<open>Match_Service\<close>
    is a \<open>partial_function\<close>: that it returns is part of its theorem.
  \<^item> \<open>Linux_Main\<close>: \<open>gneiss-main.adb\<close>, event capabilities, console output and \<open>Vacate\<close>; the loop of a component is
    \<open>while_option\<close>, and the theorems say exactly when it ends and with which status.
  \<^item> \<open>Linux_Log\<close>: \<open>log/client/linux/gneiss-log-client.adb\<close> with its buffer of 128 characters and the reception in
    \<open>log/server/linux/gneiss-log-dispatcher.adb\<close>; output is framed without loss, and what the server
    delivers for a buffer is exact. \<open>Linux_Log_Exchange\<close> composes the two over their socket: for any interleaving the
    server component gets the text in order, in the buffers that the socket accepted.
  \<^item> \<open>Linux_Sessions\<close>: the Ada clients of Log, Memory, Message, Rom and Timer. The locale \<open>linux_session\<close> is their
    contract; all sequences of Initialize and Finalize give back their descriptors.
  \<^item> \<open>Linux_Dispatcher\<close>: the servers of Log, Memory and Message (\<open>*/server/linux\<close>). \<open>Dispatch_Event\<close> is shared; the locale
    \<open>dispatch_contract\<close> states what a service promises to it and is interpreted for the three. Requests
    are answered exactly, and closing a session ends exactly this session.
  \<^item> \<open>Linux_Buffers\<close>: \<open>Modify\<close> and \<open>Update\<close> on Linux with \<open>gneiss_internal-util.adb\<close>; a component reaches no byte outside the file.
  \<^item> \<open>Linux_Config\<close>: \<open>gneiss-config.adb\<close>, \<open>Parse\<close> and \<open>main.adb\<close>; the configuration is loaded without a trace in the
    descriptor table, and the isolation of components holds from the start of the program.
  \<^item> \<open>Linux_Broker\<close>: \<open>gneiss-broker-message.adb\<close>. The inductive predicate \<open>broker_answer\<close> is the
    abstract specification of what the broker may send for a request; the handlers refine it.
  \<^item> \<open>Linux_Broker_Main\<close>: start-up and event loop (\<open>gneiss-broker-startup.adb\<close>, \<open>gneiss-broker-main.adb\<close>) as the
    inductive relation \<open>broker_runs\<close>; the loop invariant holds in all reachable states and every round returns.
  \<^item> \<open>Linux_Broker_Fds\<close>: ownership of descriptors. Reachable states hold open and pairwise different
    descriptors, so that events are attributed to the right component, and a forked
    component inherits nothing of the broker's.
  \<^item> \<open>Linux_Network\<close>: the broker, the clients and the dispatchers of all components as one transition system
    (\<open>network_step\<close>) over the messages they have sent. A confirmed session is one that the configuration grants and
    that the configured server has accepted; what this rests on is shown by the finding that the
    broker itself passes on every confirmation.

  \<^bold>\<open>Genode.\<close>
  \<^item> \<open>Genode_Base\<close>: the factory of \<open>cai_factory.h\<close>; the locales \<open>factory_client\<close> and \<open>ada_session\<close> carry the proofs about
    sessions. \<open>Genode_Clients\<close>: the Log, Memory, Message, Rom and Timer clients, C++ and Ada, with
    one theorem about all Initialize and Finalize sequences. An object that a session owns (\<open>Message_Connection\<close>,
    \<open>Timer_Session\<close>, \<open>Block_session\<close>, \<open>Block_root\<close>) is a record beside its address.
  \<^item> \<open>Genode_Log\<close>: the buffering of \<open>gneiss-log-client.adb\<close>; output is complete and in order.
  \<^item> \<open>Genode_Root\<close>: what root objects, dispatchers and servers have in common; the locale \<open>session_server\<close> proves that
    requests are answered soundly for any sequence of calls the component makes while it
    dispatches. \<open>Genode_Log_Server\<close>, \<open>Genode_Memory_Server\<close> and \<open>Genode_Message_Server\<close> instantiate it;
    the last also shows that the message queue of a server outlives its sessions.
  \<^item> \<open>Genode_Message_Exchange\<close>, \<open>Genode_Log_Exchange\<close>: client and server composed over the RPC calls of the framework. The
    locale \<open>message_link\<close> connects the client's session request with the server's root: an initialized client reaches an
    initialized server whose signals call its event procedure. The locale \<open>message_exchange\<close> refines the code of both sides,
    operation by operation, to a bounded queue and a record of the messages received. Log output reaches the server
    component complete.
  \<^item> \<open>Genode_Block\<close>, \<open>Genode_Block_Server\<close>: block client with its response cache (no acknowledgement is
    lost), block server with request processing, dispatcher and root.
  \<^item> \<open>Genode_Buffers\<close>: \<open>Modify\<close> and the ROM callback; where the buffers of the two platforms agree.
  \<^item> \<open>Genode_Main\<close>: \<open>cai_main.cc\<close> and the Ada component body; a component exits in order.

  \<^bold>\<open>Bounds and termination.\<close> Loops over arrays, strings and component lists are structural recursion. The start-up
  loop of the broker recurses over the slots of the component array, which the code never leaves, so its
  fuel is the length of the array. Only the search loop of \<open>Match_Service\<close> and the loop of a component
  process may run forever in the model, and both have theorems about when they return. Machine
  integers keep their width where the code computes with them (durations, lengths, identifiers).

  \<^bold>\<open>Not modelled.\<close> The Ada package \<open>gneiss_internal-syscall.adb\<close>, which forwards its arguments to the C functions
  (where it turns a Boolean into an int, the definition of the caller does); how the main program gets its arguments
  from the C runtime; declarations of imported functions; the submodules (Ada
  runtime, Basalt, SXML), which enter as parameters; tests and build files. The scheduler and the clock are not
  modelled: processes are related by the messages they exchange, in any order.
\<close>

end
